theory Spec2Isabelle
  imports Main "HOL-Library.Word"
begin

section \<open>Errors and data-transfer objects\<close>

text \<open>
  A Go \<open>error\<close> value is \<open>Err msg\<close> (a leaf error: one made by \<open>fmt.Errorf\<close>
  without \<open>%w\<close>, or one handed back by a library or by the HTTP transport) or
  \<open>Wrap msg e\<close> (\<open>fmt.Errorf("msg: %w", e)\<close>). \<open>Panic msg\<close> is not an error value
  but a run-time panic (a nil pointer dereference); it is carried on the error side of
  every result so that a call that panics returns nothing else.
\<close>

datatype error = Err string | Wrap string error | Panic string

text \<open>
  \<open>if err != nil { return fmt.Errorf("msg: %w", err) }\<close>: an error is wrapped, a
  panic passes through untouched.
\<close>

fun Errorf :: "string \<Rightarrow> error \<Rightarrow> error" where
  "Errorf msg (Panic m) = Panic m"
| "Errorf msg e = Wrap msg e"

text \<open>
  The structs of \<open>pkg/airbyte/models.go\<close>. Fields that no function reads
  (\<open>DataResidency\<close>, the notification settings, ...) are left out. A \<open>uint64\<close> is a
  \<open>64 word\<close>, an \<open>int64\<close> a \<open>64 word\<close> read with \<open>sint\<close>.
\<close>

record Workspace =
  W_ID :: string
  W_OrganizationId :: string
  W_Name :: string

record TokenResponse =
  AccessToken :: string

record JWTClaims =
  Issuer :: string
  Subject :: string
  ExpiresAt :: "64 word"
  Roles :: "string list"

record User =
  U_ID :: string
  U_Email :: string
  U_Name :: string

record Organization =
  O_ID :: string
  O_Name :: string
  O_Email :: string

record Permission =
  P_ID :: string
  P_PermissionType :: string
  P_UserID :: string
  P_ScopeID :: string
  P_Scope :: string

record 'a APIResponse =
  Data :: 'a
  Previous :: string
  Next :: string

record WorkspaceResponse =
  WR_ID :: string
  WR_Name :: string

record WorkspaceReadResponse =
  WRR_WorkspaceId :: string
  WRR_OrganizationId :: string
  WRR_Name :: string

record PermissionRead =
  PR_PermissionID :: string
  PR_PermissionType :: string
  PR_UserID :: string
  PR_WorkspaceID :: string
  PR_OrganizationID :: string

record WorkspaceUserAccessInfoReadResponse =
  UserID :: string
  UserEmail :: string
  UserName :: string
  WorkspaceID :: string
  WorkspacePermission :: "PermissionRead option"
  OrganizationPermission :: "PermissionRead option"

section \<open>The client's state and what lies outside the program\<close>

text \<open>
  \<open>Client\<close> of the client file, without \<open>httpClient\<close> (the transport, below).
  \<open>tokenExpiry\<close> is a \<open>time.Time\<close>, modelled as the instant it denotes, in
  nanoseconds since the Unix epoch.
\<close>

record Client =
  baseURL :: string
  accessToken :: string
  clientID :: string
  clientSecret :: string
  tokenExpiry :: int

datatype jsonv = JString string | JNumber "64 word" | JObject "(string \<times> jsonv) list"

text \<open>
  What \<open>buildResourceURL\<close> is given. The assembly of the URL string (placeholder
  replacement, escaping, query encoding) is the library's and is not unfolded.
\<close>

record resourceURL =
  url_base :: string
  url_pathTemplate :: string
  url_pathParams :: "(string \<times> string) list"
  url_queryParams :: "(string \<times> string) list"

record request =
  req_method :: string
  req_url :: resourceURL
  req_authorization :: "string option"
  req_body :: "jsonv option"

text \<open>
  The mutable state of the process: the client (one pointer shared by all builders), the
  package-level map \<open>workspacesWithOrgIDMap\<close> (a nil map reads like an empty one), the
  outside world \<open>'w\<close> (server, network and wall clock), and the list of requests handed to
  the HTTP transport so far, oldest first.
\<close>

record 'w state =
  client :: Client
  workspacesWithOrgIDMap :: "string \<rightharpoonup> string"
  world :: 'w
  trace :: "request list"

text \<open>
  An endpoint of the transport: \<open>httpClient.NewRequest\<close> followed by \<open>httpClient.Do\<close>
  with the JSON response decoded into the caller's struct. It answers a request in a
  world and leaves a new world behind.
\<close>

type_synonym ('w, 'a) endpoint = "request \<Rightarrow> 'w \<Rightarrow> (error + 'a) \<times> 'w"

type_synonym Values = "string \<rightharpoonup> string list"

datatype UserTraitOption =
  WithUserProfile "(string \<times> string) list" | WithStatus_ENABLED | WithEmail string bool

text \<open>
  Everything the source files use but do not define, as parameters: Go's standard library
  (\<open>time.Now\<close>, \<open>base64.RawURLEncoding.DecodeString\<close>, \<open>json.Unmarshal\<close> into
  \<open>JWTClaims\<close>, \<open>strings.ToLower\<close>, \<open>url.Parse\<close> and \<open>URL.Query\<close> over parsed URLs
  \<open>'u\<close>), the SDK's pagination bag \<open>'b\<close>, the SDK's check of a user trait, the
  identifiers of the three resource types (declared in a file that is not among the
  sources), and the seven endpoints. The wall clock is read off the world; the world
  changes with every request, and every two readings of the clock have a request between
  them.
\<close>

record ('w, 'u, 'b) env =
  time_Now :: "'w \<Rightarrow> int"
  base64_RawURLEncoding_DecodeString :: "string \<Rightarrow> error + string"
  json_Unmarshal_JWTClaims :: "string \<Rightarrow> error + JWTClaims"
  strings_ToLower :: "string \<Rightarrow> string"
  url_Parse :: "string \<Rightarrow> error + 'u"
  url_Query :: "'u \<Rightarrow> Values"
  bag_Unmarshal :: "string \<Rightarrow> error + 'b"
  bag_Current_is_nil :: "'b \<Rightarrow> bool"
  bag_Push :: "'b \<Rightarrow> string \<Rightarrow> string \<Rightarrow> 'b"
  bag_PageToken :: "'b \<Rightarrow> string"
  bag_NextToken :: "'b \<Rightarrow> string \<Rightarrow> error + string"
  sdk_NewUserTrait_error :: "UserTraitOption list \<Rightarrow> error option"
  organizationResourceType_Id :: string
  workspaceResourceType_Id :: string
  userResourceType_Id :: string
  http_getAccessToken :: "('w, TokenResponse) endpoint"
  http_listWorkspaces :: "('w, WorkspaceResponse option list APIResponse) endpoint"
  http_listUsers :: "('w, User option list APIResponse) endpoint"
  http_listPermissions :: "('w, Permission option list APIResponse) endpoint"
  http_listOrganizations :: "('w, Organization option list APIResponse) endpoint"
  http_listWorkspacesByOrganization :: "('w, WorkspaceReadResponse list) endpoint"
  http_listUsersWithAccessInfo :: "('w, WorkspaceUserAccessInfoReadResponse list) endpoint"

section \<open>The client\<close>

definition getAccessTokenPath :: string where
  "getAccessTokenPath = ''/api/v1/applications/token''"

definition listWorkspacesPath :: string where
  "listWorkspacesPath = ''/api/public/v1/workspaces''"

definition listUsersPath :: string where
  "listUsersPath = ''/api/public/v1/users''"

definition listOrganizationsPath :: string where
  "listOrganizationsPath = ''/api/public/v1/organizations''"

definition listPermissionsPath :: string where
  "listPermissionsPath = ''/api/public/v1/permissions''"

definition listWorkspacesByOrganizationPath :: string where
  "listWorkspacesByOrganizationPath = ''/api/v1/workspaces/list_by_organization_id''"

definition listUsersWithAccessInfoPath :: string where
  "listUsersWithAccessInfoPath = ''/api/v1/users/list_access_info_by_workspace_id''"

definition buildResourceURL ::
  "Client \<Rightarrow> string \<Rightarrow> (string \<times> string) list \<Rightarrow> (string \<times> string) list \<Rightarrow> resourceURL" where
  "buildResourceURL c pathTemplate pathParams queryParams =
     \<lparr>url_base = baseURL c, url_pathTemplate = pathTemplate,
      url_pathParams = pathParams, url_queryParams = queryParams\<rparr>"

text \<open>
  The second half of \<open>doRequest\<close>: the request is built with its optional
  \<open>Authorization\<close> header and JSON body and handed to the transport. The world moves on
  and the request is logged.
\<close>

definition sendRequest ::
  "('w, 'a) endpoint \<Rightarrow> string \<Rightarrow> resourceURL \<Rightarrow> jsonv option \<Rightarrow> string option \<Rightarrow>
   'w state \<Rightarrow> (error + 'a) \<times> 'w state" where
  "sendRequest ep meth urlAddress body auth s =
     (let req = \<lparr>req_method = meth, req_url = urlAddress,
                 req_authorization = auth, req_body = body\<rparr>;
          (r, w') = ep req (world s)
      in (r, s\<lparr>world := w', trace := trace s @ [req]\<rparr>))"

text \<open>\<open>strings.Split(s, sep)\<close> for a separator of one byte.\<close>

fun strings_Split :: "string \<Rightarrow> char \<Rightarrow> string list" where
  "strings_Split [] sep = [[]]"
| "strings_Split (c # cs) sep =
     (if c = sep then [] # strings_Split cs sep
      else (case strings_Split cs sep of
              [] \<Rightarrow> [[c]]
            | p # ps \<Rightarrow> (c # p) # ps))"

text \<open>
  \<open>time.Unix(sec, 0)\<close>. A \<open>time.Time\<close> without a monotonic reading stores the seconds
  since January 1 of year 1 as an \<open>int64\<close>; \<open>time.Unix\<close> adds \<open>unixToInternal\<close>
  (the 62135596800 seconds from year 1 to 1970) to \<open>sec\<close> in \<open>int64\<close>, and that sum
  wraps around for \<open>sec\<close> above \<open>2^63 - 1 - 62135596800\<close>. The instant is given back
  in nanoseconds since the Unix epoch.
\<close>

definition unixToInternal :: "64 word" where
  "unixToInternal = 62135596800"

definition time_Unix :: "64 word \<Rightarrow> int" where
  "time_Unix sec = (sint (sec + unixToInternal) - sint unixToInternal) * 1000000000"

text \<open>\<open>30*time.Second\<close>, in nanoseconds.\<close>

definition thirty_seconds :: int where
  "thirty_seconds = 30 * 1000000000"

definition getAccessTokenBody :: "Client \<Rightarrow> jsonv" where
  "getAccessTokenBody c =
     JObject [(''grant_type'', JString ''client_credentials''),
              (''client_id'', JString (clientID c)),
              (''client_secret'', JString (clientSecret c))]"

text \<open>
  \<open>GetAccessToken\<close>. Its call \<open>c.doRequest(..., true)\<close> skips the authorization half
  of \<open>doRequest\<close>, so it is \<open>sendRequest\<close> without a header.
\<close>

definition GetAccessToken ::
  "('w, 'u, 'b) env \<Rightarrow> 'w state \<Rightarrow> (error + string \<times> int) \<times> 'w state" where
  "GetAccessToken E s =
     (case sendRequest (http_getAccessToken E) ''POST''
             (buildResourceURL (client s) getAccessTokenPath [] [])
             (Some (getAccessTokenBody (client s))) None s of
        (Inl err, s') \<Rightarrow> (Inl err, s')
      | (Inr tokenResp, s') \<Rightarrow>
          (let parts = strings_Split (AccessToken tokenResp) (CHR ''.'') in
           if length parts \<noteq> 3 then (Inl (Err ''invalid JWT token format''), s')
           else (case base64_RawURLEncoding_DecodeString E (parts ! 1) of
                   Inl err \<Rightarrow> (Inl (Errorf ''error decoding JWT claims'' err), s')
                 | Inr claimsJSON \<Rightarrow>
                     (case json_Unmarshal_JWTClaims E claimsJSON of
                        Inl err \<Rightarrow> (Inl (Errorf ''error parsing JWT claims'' err), s')
                      | Inr claims \<Rightarrow>
                          (Inr (AccessToken tokenResp, time_Unix (ExpiresAt claims)), s')))))"

text \<open>
  \<open>ensureValidToken\<close>. \<open>c.tokenExpiry\<close> is only ever a result of \<open>time.Unix\<close> (or
  the zero \<open>Time\<close>) and has no monotonic reading, so \<open>After\<close> compares the two
  instants, seconds first and nanoseconds second; and \<open>time.Now()\<close> is a reading of the
  wall clock, where \<open>Add\<close> of 30 seconds is plain addition. So
  \<open>time.Now().Add(30*time.Second).After(c.tokenExpiry)\<close> is \<open>now + 30 s > tokenExpiry\<close>.
\<close>

definition ensureValidToken ::
  "('w, 'u, 'b) env \<Rightarrow> 'w state \<Rightarrow> (error + unit) \<times> 'w state" where
  "ensureValidToken E s =
     (if accessToken (client s) = '''' \<or>
         time_Now E (world s) + thirty_seconds > tokenExpiry (client s)
      then (case GetAccessToken E s of
              (Inl err, s') \<Rightarrow> (Inl err, s')
            | (Inr (token, expiry), s') \<Rightarrow>
                (Inr (), s'\<lparr>client := (client s')\<lparr>accessToken := token, tokenExpiry := expiry\<rparr>\<rparr>))
      else (Inr (), s))"

definition doRequest ::
  "('w, 'u, 'b) env \<Rightarrow> ('w, 'a) endpoint \<Rightarrow> string \<Rightarrow> resourceURL \<Rightarrow> jsonv option \<Rightarrow> bool \<Rightarrow>
   'w state \<Rightarrow> (error + 'a) \<times> 'w state" where
  "doRequest E ep meth urlAddress body skipAuth s =
     (if \<not> skipAuth
      then (case ensureValidToken E s of
              (Inl err, s') \<Rightarrow> (Inl err, s')
            | (Inr _, s') \<Rightarrow>
                sendRequest ep meth urlAddress body
                  (Some (''Bearer '' @ accessToken (client s'))) s')
      else sendRequest ep meth urlAddress body None s)"

text \<open>\<open>url.Values.Get\<close>: the first value stored under the key, or the empty string.\<close>

definition Values_Get :: "Values \<Rightarrow> string \<Rightarrow> string" where
  "Values_Get v key =
     (case v key of
        None \<Rightarrow> ''''
      | Some vs \<Rightarrow> (case vs of [] \<Rightarrow> '''' | x # _ \<Rightarrow> x))"

definition GetOffsetForTheNextPageFromURL :: "('w, 'u, 'b) env \<Rightarrow> string \<Rightarrow> string" where
  "GetOffsetForTheNextPageFromURL E urlPayload =
     (if urlPayload = '''' then ''''
      else (case url_Parse E urlPayload of
              Inl err \<Rightarrow> ''''
            | Inr u \<Rightarrow>
                (let offset = Values_Get (url_Query E u) ''offset''
                 in if offset = '''' then '''' else offset)))"

text \<open>\<open>fmt.Sprintf("%d", n)\<close> for an unsigned number.\<close>

fun decimal :: "nat \<Rightarrow> string" where
  "decimal n =
     (if n < 10 then [char_of (48 + n)]
      else decimal (n div 10) @ [char_of (48 + n mod 10)])"

definition Sprintf_d :: "64 word \<Rightarrow> string" where
  "Sprintf_d n = decimal (unat n)"

definition ListAllWorkspaces ::
  "('w, 'u, 'b) env \<Rightarrow> 64 word \<Rightarrow> string \<Rightarrow> 'w state \<Rightarrow>
   (error + WorkspaceResponse option list \<times> string) \<times> 'w state" where
  "ListAllWorkspaces E limit offset s =
     (let offset' = (if offset = '''' then ''0'' else offset);
          queryParams = [(''limit'', Sprintf_d limit), (''offset'', offset')]
      in case doRequest E (http_listWorkspaces E) ''GET''
                (buildResourceURL (client s) listWorkspacesPath [] queryParams) None False s of
           (Inl err, s') \<Rightarrow> (Inl err, s')
         | (Inr resp, s') \<Rightarrow>
             (Inr (Data resp, GetOffsetForTheNextPageFromURL E (Next resp)), s'))"

definition ListUsersByOrganization ::
  "('w, 'u, 'b) env \<Rightarrow> string \<Rightarrow> 'w state \<Rightarrow> (error + User option list) \<times> 'w state" where
  "ListUsersByOrganization E orgId s =
     (case doRequest E (http_listUsers E) ''GET''
             (buildResourceURL (client s) listUsersPath [] [(''organizationId'', orgId)])
             None False s of
        (Inl err, s') \<Rightarrow> (Inl err, s')
      | (Inr resp, s') \<Rightarrow> (Inr (Data resp), s'))"

definition ListPermissionsByUserAndOrganization ::
  "('w, 'u, 'b) env \<Rightarrow> string \<Rightarrow> string \<Rightarrow> 'w state \<Rightarrow>
   (error + Permission option list) \<times> 'w state" where
  "ListPermissionsByUserAndOrganization E userId orgId s =
     (case doRequest E (http_listPermissions E) ''GET''
             (buildResourceURL (client s) listPermissionsPath
                [(''userId'', userId), (''orgId'', orgId)] [])
             None False s of
        (Inl err, s') \<Rightarrow> (Inl err, s')
      | (Inr resp, s') \<Rightarrow> (Inr (Data resp), s'))"

definition ListOrganizations ::
  "('w, 'u, 'b) env \<Rightarrow> 'w state \<Rightarrow> (error + Organization option list) \<times> 'w state" where
  "ListOrganizations E s =
     (case doRequest E (http_listOrganizations E) ''GET''
             (buildResourceURL (client s) listOrganizationsPath [] []) None False s of
        (Inl err, s') \<Rightarrow> (Inl err, s')
      | (Inr resp, s') \<Rightarrow> (Inr (Data resp), s'))"

text \<open>
  \<open>ListWorkspacesByOrganization\<close>. \<open>uint64(len(resp.Workspaces)) < pageSize\<close>
  compares a non-negative \<open>int\<close> with a \<open>uint64\<close>, so the conversion is exact;
  \<open>rowOffset + pageSize\<close> is \<open>uint64\<close> addition and wraps around.
\<close>

definition ListWorkspacesByOrganization ::
  "('w, 'u, 'b) env \<Rightarrow> string \<Rightarrow> 64 word \<Rightarrow> 64 word \<Rightarrow> 'w state \<Rightarrow>
   (error + WorkspaceReadResponse list \<times> 64 word) \<times> 'w state" where
  "ListWorkspacesByOrganization E orgId pageSize rowOffset s =
     (let body = JObject [(''organizationId'', JString orgId),
                          (''pagination'', JObject [(''pageSize'', JNumber pageSize),
                                                    (''rowOffset'', JNumber rowOffset)])]
      in case doRequest E (http_listWorkspacesByOrganization E) ''POST''
                (buildResourceURL (client s) listWorkspacesByOrganizationPath [] [])
                (Some body) False s of
           (Inl err, s') \<Rightarrow> (Inl err, s')
         | (Inr workspaces, s') \<Rightarrow>
             (if length workspaces < unat pageSize then (Inr (workspaces, 0), s')
              else (let nextRowOffset = rowOffset + pageSize
                    in (Inr (workspaces, nextRowOffset), s'))))"

definition ListUsersWithAccessInfoByWorkspace ::
  "('w, 'u, 'b) env \<Rightarrow> string \<Rightarrow> 'w state \<Rightarrow>
   (error + WorkspaceUserAccessInfoReadResponse list) \<times> 'w state" where
  "ListUsersWithAccessInfoByWorkspace E workspaceId s =
     (case doRequest E (http_listUsersWithAccessInfo E) ''POST''
             (buildResourceURL (client s) listUsersWithAccessInfoPath [] [])
             (Some (JObject [(''workspaceId'', JString workspaceId)])) False s of
        (Inl err, s') \<Rightarrow> (Inl err, s')
      | (Inr usersWithAccess, s') \<Rightarrow> (Inr usersWithAccess, s'))"

text \<open>
  The request that \<open>GetAccessToken\<close> hands to the transport (the token exchange), named
  for the properties of the token manager.
\<close>

definition tokenExchangeRequest :: "Client \<Rightarrow> request" where
  "tokenExchangeRequest c =
     \<lparr>req_method = ''POST'', req_url = buildResourceURL c getAccessTokenPath [] [],
      req_authorization = None, req_body = Some (getAccessTokenBody c)\<rparr>"

section \<open>The SDK's value objects\<close>

text \<open>
  Modelled from the spec: the resource and grant objects of the SDK (not part of the
  sources) are "opaque value objects constructed from primitive fields". A resource has
  an id (resource type and object id), a display name, an optional parent resource id and
  a list of annotations; \<open>rs.NewResource\<close> builds it from its arguments and applies the
  options in order, failing if an option fails. A grant binds a principal to a
  permission entitlement on a resource.
\<close>

record ResourceId =
  ResourceType :: string
  Resource :: string

datatype annotation = ChildResourceType string | UserTrait "UserTraitOption list"

record Resource_v2 =
  Res_Id :: ResourceId
  Res_DisplayName :: string
  Res_ParentResourceId :: "ResourceId option"
  Res_Annotations :: "annotation list"

record Grant =
  Grant_Resource :: Resource_v2
  Grant_Permission :: string
  Grant_Principal :: ResourceId

type_synonym ResourceOption = "Resource_v2 \<Rightarrow> error + Resource_v2"

definition WithAnnotation :: "annotation \<Rightarrow> ResourceOption" where
  "WithAnnotation a = (\<lambda>r. Inr (r\<lparr>Res_Annotations := Res_Annotations r @ [a]\<rparr>))"

definition WithParentResourceID :: "ResourceId option \<Rightarrow> ResourceOption" where
  "WithParentResourceID parentResourceID = (\<lambda>r. Inr (r\<lparr>Res_ParentResourceId := parentResourceID\<rparr>))"

fun applyOptions :: "ResourceOption list \<Rightarrow> Resource_v2 \<Rightarrow> error + Resource_v2" where
  "applyOptions [] r = Inr r"
| "applyOptions (opt # opts) r =
     (case opt r of Inl err \<Rightarrow> Inl err | Inr r' \<Rightarrow> applyOptions opts r')"

definition NewResource ::
  "string \<Rightarrow> string \<Rightarrow> string \<Rightarrow> ResourceOption list \<Rightarrow> error + Resource_v2" where
  "NewResource name resourceTypeId objectID resourceOptions =
     applyOptions resourceOptions
       \<lparr>Res_Id = \<lparr>ResourceType = resourceTypeId, Resource = objectID\<rparr>,
        Res_DisplayName = name, Res_ParentResourceId = None, Res_Annotations = []\<rparr>"

text \<open>
  Modelled from the spec: \<open>rs.NewUserResource\<close> is \<open>rs.NewResource\<close> with a user
  trait made from the trait options; whether the SDK accepts the options is a parameter.
\<close>

definition WithUserTrait :: "('w, 'u, 'b) env \<Rightarrow> UserTraitOption list \<Rightarrow> ResourceOption" where
  "WithUserTrait E userTraitOptions =
     (\<lambda>r. case sdk_NewUserTrait_error E userTraitOptions of
             Some err \<Rightarrow> Inl err
           | None \<Rightarrow> WithAnnotation (UserTrait userTraitOptions) r)"

definition NewUserResource ::
  "('w, 'u, 'b) env \<Rightarrow> string \<Rightarrow> string \<Rightarrow> string \<Rightarrow> UserTraitOption list \<Rightarrow>
   error + Resource_v2" where
  "NewUserResource E name resourceTypeId objectID userTraitOptions =
     NewResource name resourceTypeId objectID [WithUserTrait E userTraitOptions]"

definition NewGrant :: "Resource_v2 \<Rightarrow> string \<Rightarrow> ResourceId \<Rightarrow> Grant" where
  "NewGrant resource entitlementName principalId =
     \<lparr>Grant_Resource = resource, Grant_Permission = entitlementName,
      Grant_Principal = principalId\<rparr>"

section \<open>The connector\<close>

text \<open>
  The builders are called by the SDK's syncer, which hands them a resource with an id and
  a page token that are not nil; \<open>pToken\<close> is modelled by its \<open>Token\<close> string. Only
  the parent resource id of \<open>List\<close> may be nil (\<open>None\<close>). A slice of pointers that was
  decoded from JSON may hold nil elements, so it is a list of options, and reading a
  field of a nil element is a panic.
\<close>

subsection \<open>Helpers and users\<close>

definition ResourcesPageSize :: "64 word" where
  "ResourcesPageSize = 50"

text \<open>
  \<open>parsePageToken\<close>; the bag's methods are the SDK's. The page state pushed holds the
  resource type and resource of \<open>resourceID\<close>.
\<close>

definition parsePageToken ::
  "('w, 'u, 'b) env \<Rightarrow> string \<Rightarrow> ResourceId \<Rightarrow> error + 'b \<times> string" where
  "parsePageToken E pagToken resourceID =
     (case bag_Unmarshal E pagToken of
        Inl err \<Rightarrow> Inl err
      | Inr bag \<Rightarrow>
          (let bag' = (if bag_Current_is_nil E bag
                       then bag_Push E bag (ResourceType resourceID) (Resource resourceID)
                       else bag)
           in Inr (bag', bag_PageToken E bag')))"

definition userResource :: "('w, 'u, 'b) env \<Rightarrow> User \<Rightarrow> error + Resource_v2" where
  "userResource E user =
     (let profile = [(''name'', U_Name user), (''email'', U_Email user)];
          userTraitOptions = [WithUserProfile profile, WithStatus_ENABLED,
                              WithEmail (U_Email user) True]
      in case NewUserResource E (U_Email user) (userResourceType_Id E) (U_ID user)
                userTraitOptions of
           Inl err \<Rightarrow> Inl err
         | Inr resource \<Rightarrow> Inr resource)"

fun user_List_loop ::
  "('w, 'u, 'b) env \<Rightarrow> WorkspaceUserAccessInfoReadResponse list \<Rightarrow> Resource_v2 list \<Rightarrow>
   error + Resource_v2 list" where
  "user_List_loop E [] resources = Inr resources"
| "user_List_loop E (userResponse # rest) resources =
     (let user = \<lparr>U_ID = UserID userResponse, U_Email = UserEmail userResponse,
                  U_Name = UserName userResponse\<rparr>
      in case userResource E user of
           Inl err \<Rightarrow> Inl (Errorf (''failed to create resource for user '' @ U_Email user) err)
         | Inr ur \<Rightarrow> user_List_loop E rest (resources @ [ur]))"

text \<open>
  \<open>userBuilder.List\<close>. A builder's result is the list, the next page token and the
  error; the annotations returned are always nil and are left out.
\<close>

definition user_List ::
  "('w, 'u, 'b) env \<Rightarrow> ResourceId option \<Rightarrow> 'w state \<Rightarrow>
   (error + Resource_v2 list \<times> string) \<times> 'w state" where
  "user_List E parentResourceID s =
     (case parentResourceID of
        None \<Rightarrow> (Inr ([], ''''), s)
      | Some pid \<Rightarrow>
          (case ListUsersWithAccessInfoByWorkspace E (Resource pid) s of
             (Inl err, s') \<Rightarrow> (Inl (Errorf ''airbyte-connector: failed to list users'' err), s')
           | (Inr ListUserResponse, s') \<Rightarrow>
               (case user_List_loop E ListUserResponse [] of
                  Inl err \<Rightarrow> (Inl err, s')
                | Inr resources \<Rightarrow> (Inr (resources, ''''), s'))))"

subsection \<open>Organizations\<close>

definition OrganizationAdmin :: string where
  "OrganizationAdmin = ''organization_admin''"

definition OrganizationEditor :: string where
  "OrganizationEditor = ''organization_editor''"

definition OrganizationRunner :: string where
  "OrganizationRunner = ''organization_runner''"

definition OrganizationReader :: string where
  "OrganizationReader = ''organization_reader''"

definition OrganizationMember :: string where
  "OrganizationMember = ''organization_member''"

definition PublicOrganizationPermissionsTypes :: "string list" where
  "PublicOrganizationPermissionsTypes =
     [OrganizationAdmin, OrganizationEditor, OrganizationRunner, OrganizationReader,
      OrganizationMember]"

text \<open>The search loop of \<open>getOrganizationPermissionType\<close> over a \<open>[]*Permission\<close>.\<close>

fun findOrganizationPermission ::
  "('w, 'u, 'b) env \<Rightarrow> string \<Rightarrow> Permission option list \<Rightarrow> error + string" where
  "findOrganizationPermission E organizationID [] = Inr ''''"
| "findOrganizationPermission E organizationID (None # rest) =
     Inl (Panic ''nil pointer dereference'')"
| "findOrganizationPermission E organizationID (Some permission # rest) =
     (if P_Scope permission = ''organization'' \<and> P_ScopeID permission = organizationID
      then Inr (strings_ToLower E (P_PermissionType permission))
      else findOrganizationPermission E organizationID rest)"

definition getOrganizationPermissionType ::
  "('w, 'u, 'b) env \<Rightarrow> string \<Rightarrow> string \<Rightarrow> 'w state \<Rightarrow> (error + string) \<times> 'w state" where
  "getOrganizationPermissionType E userID organizationID s =
     (case ListPermissionsByUserAndOrganization E userID organizationID s of
        (Inl err, s') \<Rightarrow>
          (Inl (Errorf (''airbyte-connector: failed to list permissions for user '' @ userID)
                  err), s')
      | (Inr permissions, s') \<Rightarrow>
          (let allPermissions = [] @ permissions
           in (findOrganizationPermission E organizationID allPermissions, s')))"

fun org_Grants_loop ::
  "('w, 'u, 'b) env \<Rightarrow> Resource_v2 \<Rightarrow> User option list \<Rightarrow> Grant list \<Rightarrow> 'w state \<Rightarrow>
   (error + Grant list) \<times> 'w state" where
  "org_Grants_loop E resource [] rv s = (Inr rv, s)"
| "org_Grants_loop E resource (None # users) rv s =
     (Inl (Panic ''nil pointer dereference''), s)"
| "org_Grants_loop E resource (Some user # users) rv s =
     (case getOrganizationPermissionType E (U_ID user) (Resource (Res_Id resource)) s of
        (Inl err, s') \<Rightarrow>
          (Inl (Errorf (''airbyte-connector: failed to get permission type for user ''
                        @ U_ID user @ '' under organization '' @ Resource (Res_Id resource))
                  err), s')
      | (Inr permissionType, s') \<Rightarrow>
          (if \<not> permissionType \<in> set PublicOrganizationPermissionsTypes
           then org_Grants_loop E resource users rv s'
           else (case userResource E user of
                   Inl err \<Rightarrow> (Inl err, s')
                 | Inr userResource' \<Rightarrow>
                     org_Grants_loop E resource users
                       (rv @ [NewGrant resource permissionType (Res_Id userResource')]) s')))"

definition org_Grants ::
  "('w, 'u, 'b) env \<Rightarrow> Resource_v2 \<Rightarrow> 'w state \<Rightarrow> (error + Grant list \<times> string) \<times> 'w state" where
  "org_Grants E resource s =
     (case ListUsersByOrganization E (Resource (Res_Id resource)) s of
        (Inl err, s') \<Rightarrow>
          (Inl (Errorf (''airbyte-connector: failed to list users under organization ''
                        @ Resource (Res_Id resource)) err), s')
      | (Inr users, s') \<Rightarrow>
          (case org_Grants_loop E resource users [] s' of
             (Inl err, s'') \<Rightarrow> (Inl err, s'')
           | (Inr rv, s'') \<Rightarrow> (Inr (rv, ''''), s'')))"

subsection \<open>Workspaces\<close>

definition WorkspaceAdmin :: string where
  "WorkspaceAdmin = ''workspace_admin''"

definition WorkspaceEditor :: string where
  "WorkspaceEditor = ''workspace_editor''"

definition WorkspaceRunner :: string where
  "WorkspaceRunner = ''workspace_runner''"

definition WorkspaceReader :: string where
  "WorkspaceReader = ''workspace_reader''"

definition PublicWorkspacePermissionsTypes :: "string list" where
  "PublicWorkspacePermissionsTypes =
     [WorkspaceAdmin, WorkspaceEditor, WorkspaceRunner, WorkspaceReader]"

definition workspaceResource ::
  "('w, 'u, 'b) env \<Rightarrow> Workspace \<Rightarrow> ResourceId option \<Rightarrow> error + Resource_v2" where
  "workspaceResource E workspace parentResourceID =
     (case NewResource (W_Name workspace) (workspaceResourceType_Id E) (W_ID workspace)
             [WithAnnotation (ChildResourceType (userResourceType_Id E)),
              WithParentResourceID parentResourceID] of
        Inl err \<Rightarrow> Inl err
      | Inr resource \<Rightarrow> Inr resource)"

text \<open>
  The inner \<open>for { ... }\<close> of \<open>getAllWorkspacesWithParentOrganizationID\<close>: one page
  per round, until an error or a next row offset of 0. The loop has no bound of its own,
  so it is a partial function and \<open>None\<close> stands for a run that never ends.
\<close>

partial_function (option) workspacesByOrganization_loop ::
  "('w, 'u, 'b) env \<Rightarrow> string \<Rightarrow> 64 word \<Rightarrow> Workspace list \<Rightarrow> 'w state \<Rightarrow>
   ((error + Workspace list) \<times> 'w state) option" where
  "workspacesByOrganization_loop E orgID rowOffset allWorkspaces s =
     (case ListWorkspacesByOrganization E orgID ResourcesPageSize rowOffset s of
        (Inl err, s') \<Rightarrow>
          Some (Inl (Errorf ''airbyte-connector: failed to list workspaces'' err), s')
      | (Inr (listWorkspaceReadResponse, nextRowOffset), s') \<Rightarrow>
          (let allWorkspaces' = allWorkspaces @
                 map (\<lambda>workspaceReadResponse.
                        \<lparr>W_ID = WRR_WorkspaceId workspaceReadResponse,
                         W_OrganizationId = WRR_OrganizationId workspaceReadResponse,
                         W_Name = WRR_Name workspaceReadResponse\<rparr>)
                     listWorkspaceReadResponse
           in if nextRowOffset = 0 then Some (Inr allWorkspaces', s')
              else workspacesByOrganization_loop E orgID nextRowOffset allWorkspaces' s'))"

declare workspacesByOrganization_loop.simps [code]

text \<open>The outer \<open>for _, org := range orgs\<close> over a \<open>[]*Organization\<close>.\<close>

fun organizations_loop ::
  "('w, 'u, 'b) env \<Rightarrow> Organization option list \<Rightarrow> Workspace list \<Rightarrow> 'w state \<Rightarrow>
   ((error + Workspace list) \<times> 'w state) option" where
  "organizations_loop E [] allWorkspaces s = Some (Inr allWorkspaces, s)"
| "organizations_loop E (None # orgs) allWorkspaces s =
     Some (Inl (Panic ''nil pointer dereference''), s)"
| "organizations_loop E (Some org # orgs) allWorkspaces s =
     (case workspacesByOrganization_loop E (O_ID org) 0 allWorkspaces s of
        None \<Rightarrow> None
      | Some (Inl err, s') \<Rightarrow> Some (Inl err, s')
      | Some (Inr allWorkspaces', s') \<Rightarrow> organizations_loop E orgs allWorkspaces' s')"

definition getAllWorkspacesWithParentOrganizationID ::
  "('w, 'u, 'b) env \<Rightarrow> 'w state \<Rightarrow> ((error + Workspace list) \<times> 'w state) option" where
  "getAllWorkspacesWithParentOrganizationID E s =
     (case ListOrganizations E s of
        (Inl err, s') \<Rightarrow>
          Some (Inl (Errorf ''airbyte-connector: failed to list organizations'' err), s')
      | (Inr orgs, s') \<Rightarrow> organizations_loop E orgs [] s')"

text \<open>
  The loop of \<open>workspaceBuilder.List\<close> that fills the map, and Go's two-valued map
  read \<open>orgID, exists := workspacesWithOrgIDMap[ws.ID]\<close>.
\<close>

fun populateMap :: "Workspace list \<Rightarrow> (string \<rightharpoonup> string) \<Rightarrow> (string \<rightharpoonup> string)" where
  "populateMap [] m = m"
| "populateMap (w # ws) m =
     populateMap ws (if W_OrganizationId w \<noteq> '''' then m(W_ID w \<mapsto> W_OrganizationId w) else m)"

definition mapRead :: "(string \<rightharpoonup> string) \<Rightarrow> string \<Rightarrow> string \<times> bool" where
  "mapRead m k = (case m k of None \<Rightarrow> ('''', False) | Some v \<Rightarrow> (v, True))"

fun workspace_List_loop ::
  "('w, 'u, 'b) env \<Rightarrow> (string \<rightharpoonup> string) \<Rightarrow> WorkspaceResponse option list \<Rightarrow>
   Resource_v2 list \<Rightarrow> error + Resource_v2 list" where
  "workspace_List_loop E m [] resources = Inr resources"
| "workspace_List_loop E m (None # rest) resources =
     Inl (Panic ''nil pointer dereference'')"
| "workspace_List_loop E m (Some ws # rest) resources =
     (let workspace = \<lparr>W_ID = WR_ID ws, W_OrganizationId = '''', W_Name = WR_Name ws\<rparr>;
          (orgID, exists) = mapRead m (WR_ID ws);
          (workspace', parentResourceID) =
             (if exists \<and> orgID \<noteq> ''''
              then (workspace\<lparr>W_OrganizationId := orgID\<rparr>,
                    Some \<lparr>ResourceType = organizationResourceType_Id E, Resource = orgID\<rparr>)
              else (workspace,
                    Some \<lparr>ResourceType = organizationResourceType_Id E,
                          Resource = ''unknown-parent''\<rparr>))
      in case workspaceResource E workspace' parentResourceID of
           Inl err \<Rightarrow>
             Inl (Errorf (''failed to create resource for workspace '' @ W_Name workspace') err)
         | Inr resource \<Rightarrow> workspace_List_loop E m rest (resources @ [resource]))"

text \<open>
  \<open>workspaceBuilder.List\<close>, given the token string of \<open>pToken\<close>. The first block is
  the build phase, run when the token is empty.
\<close>

definition workspace_List_build ::
  "('w, 'u, 'b) env \<Rightarrow> string \<Rightarrow> 'w state \<Rightarrow> ((error + unit) \<times> 'w state) option" where
  "workspace_List_build E pToken s =
     (if pToken = ''''
      then (let s0 = s\<lparr>workspacesWithOrgIDMap := Map.empty\<rparr>
            in case getAllWorkspacesWithParentOrganizationID E s0 of
                 None \<Rightarrow> None
               | Some (Inl err, s') \<Rightarrow>
                   Some (Inl (Errorf
                     ''airbyte-connector: getAllWorkspacesWithParentOrganizationID > failed to list workspaces''
                     err), s')
               | Some (Inr allWorkspacesWithParentOrganizationID, s') \<Rightarrow>
                   Some (Inr (), s'\<lparr>workspacesWithOrgIDMap :=
                     populateMap allWorkspacesWithParentOrganizationID
                       (workspacesWithOrgIDMap s')\<rparr>))
      else Some (Inr (), s))"

definition workspace_List ::
  "('w, 'u, 'b) env \<Rightarrow> string \<Rightarrow> 'w state \<Rightarrow>
   ((error + Resource_v2 list \<times> string) \<times> 'w state) option" where
  "workspace_List E pToken s =
     (case workspace_List_build E pToken s of
        None \<Rightarrow> None
      | Some (Inl err, s1) \<Rightarrow> Some (Inl err, s1)
      | Some (Inr _, s1) \<Rightarrow>
          (case parsePageToken E pToken
                  \<lparr>ResourceType = workspaceResourceType_Id E, Resource = ''''\<rparr> of
             Inl err \<Rightarrow> Some (Inl err, s1)
           | Inr (bag, offsetForCurrentPage) \<Rightarrow>
               (case ListAllWorkspaces E ResourcesPageSize offsetForCurrentPage s1 of
                  (Inl err, s2) \<Rightarrow>
                    Some (Inl (Errorf
                      ''airbyte-connector: ListAllWorkspaces > failed to list workspaces'' err), s2)
                | (Inr (listWorkspaceResponse, offsetForNextPage), s2) \<Rightarrow>
                    (case bag_NextToken E bag offsetForNextPage of
                       Inl err \<Rightarrow> Some (Inl err, s2)
                     | Inr next \<Rightarrow>
                         (case workspace_List_loop E (workspacesWithOrgIDMap s2)
                                 listWorkspaceResponse [] of
                            Inl err \<Rightarrow> Some (Inl err, s2)
                          | Inr resources \<Rightarrow> Some (Inr (resources, next), s2))))))"

text \<open>
  The parent reference that the loop of \<open>workspaceBuilder.List\<close> gives a workspace
  resource, read off the map by the resource's own id; it is used to state the loop's
  invariant.
\<close>

definition parentOf ::
  "('w, 'u, 'b) env \<Rightarrow> (string \<rightharpoonup> string) \<Rightarrow> Resource_v2 \<Rightarrow> ResourceId option" where
  "parentOf E m r =
     Some \<lparr>ResourceType = organizationResourceType_Id E,
           Resource = (case m (Resource (Res_Id r)) of
                         None \<Rightarrow> ''unknown-parent''
                       | Some orgID \<Rightarrow> if orgID \<noteq> '''' then orgID else ''unknown-parent'')\<rparr>"

text \<open>
  \<open>workspaceBuilder.Grants\<close>. \<open>resolvePermissionType\<close> is the block of the loop that
  sets \<open>permissionType\<close> (a string variable, empty until assigned).
\<close>

definition orgToWorkspacePermMap :: "string \<rightharpoonup> string" where
  "orgToWorkspacePermMap =
     [''organization_admin'' \<mapsto> WorkspaceAdmin,
      ''organization_editor'' \<mapsto> WorkspaceEditor,
      ''organization_runner'' \<mapsto> WorkspaceRunner,
      ''organization_reader'' \<mapsto> WorkspaceReader]"

definition resolvePermissionType ::
  "('w, 'u, 'b) env \<Rightarrow> WorkspaceUserAccessInfoReadResponse \<Rightarrow> string" where
  "resolvePermissionType E userResponse =
     (case WorkspacePermission userResponse of
        Some workspacePermission \<Rightarrow> strings_ToLower E (PR_PermissionType workspacePermission)
      | None \<Rightarrow>
          (case OrganizationPermission userResponse of
             Some organizationPermission \<Rightarrow>
               (let orgPermType = strings_ToLower E (PR_PermissionType organizationPermission);
                    (mappedPerm, exists) = mapRead orgToWorkspacePermMap orgPermType
                in if exists then mappedPerm else '''')
           | None \<Rightarrow> ''''))"

fun workspace_Grants_loop ::
  "('w, 'u, 'b) env \<Rightarrow> Resource_v2 \<Rightarrow> WorkspaceUserAccessInfoReadResponse list \<Rightarrow>
   Grant list \<Rightarrow> error + Grant list" where
  "workspace_Grants_loop E resource [] rv = Inr rv"
| "workspace_Grants_loop E resource (userResponse # rest) rv =
     (let permissionType = resolvePermissionType E userResponse
      in if \<not> permissionType \<in> set PublicWorkspacePermissionsTypes \<and>
            \<not> permissionType \<in> set PublicOrganizationPermissionsTypes
         then workspace_Grants_loop E resource rest rv
         else (let user = \<lparr>U_ID = UserID userResponse, U_Email = UserEmail userResponse,
                           U_Name = UserName userResponse\<rparr>
               in case userResource E user of
                    Inl err \<Rightarrow> Inl err
                  | Inr userResource' \<Rightarrow>
                      workspace_Grants_loop E resource rest
                        (rv @ [NewGrant resource permissionType (Res_Id userResource')])))"

definition workspace_Grants ::
  "('w, 'u, 'b) env \<Rightarrow> Resource_v2 \<Rightarrow> 'w state \<Rightarrow> (error + Grant list \<times> string) \<times> 'w state" where
  "workspace_Grants E resource s =
     (case ListUsersWithAccessInfoByWorkspace E (Resource (Res_Id resource)) s of
        (Inl err, s') \<Rightarrow>
          (Inl (Errorf (''airbyte-connector: failed to list users under workspace ''
                        @ Resource (Res_Id resource)) err), s')
      | (Inr listUserswithaccessInfoResponse, s') \<Rightarrow>
          (case workspace_Grants_loop E resource listUserswithaccessInfoResponse [] of
             Inl err \<Rightarrow> (Inl err, s')
           | Inr rv \<Rightarrow> (Inr (rv, ''''), s')))"

text \<open>
  What the inner loop of \<open>getAllWorkspacesWithParentOrganizationID\<close> receives on its
  request number \<open>n + 1\<close> when it starts at \<open>rowOffset\<close> in state \<open>s\<close> and each of
  the \<open>n\<close> requests before returned a page: every request is made at the next row
  offset the one before returned, in the state it left. It is used to say that the
  server ends a listing after finitely many pages.
\<close>

fun nthPage ::
  "('w, 'u, 'b) env \<Rightarrow> string \<Rightarrow> nat \<Rightarrow> 64 word \<Rightarrow> 'w state \<Rightarrow>
   (error + WorkspaceReadResponse list \<times> 64 word) \<times> 'w state" where
  "nthPage E orgID 0 rowOffset s =
     ListWorkspacesByOrganization E orgID ResourcesPageSize rowOffset s"
| "nthPage E orgID (Suc n) rowOffset s =
     (case ListWorkspacesByOrganization E orgID ResourcesPageSize rowOffset s of
        (Inl err, s') \<Rightarrow> (Inl err, s')
      | (Inr (listWorkspaceReadResponse, nextRowOffset), s') \<Rightarrow>
          nthPage E orgID n nextRowOffset s')"

section \<open>The library's URL parser\<close>

text \<open>
  \<open>url.Parse\<close>, \<open>URL.Query\<close> and what they call, after the text of package
  \<open>net/url\<close> of Go 1.22, byte by byte (a \<open>string\<close> is a sequence of bytes). A
  \<open>URL\<close> keeps the fields \<open>Parse\<close> sets, without \<open>RawPath\<close> and \<open>RawFragment\<close>,
  which are hints for printing. The wording of the library's errors is shortened.
\<close>

definition byte :: "char \<Rightarrow> nat" where
  "byte c = of_char c"

definition isLetter :: "char \<Rightarrow> bool" where
  "isLetter c = (97 \<le> byte c \<and> byte c \<le> 122 \<or> 65 \<le> byte c \<and> byte c \<le> 90)"

definition isDigit :: "char \<Rightarrow> bool" where
  "isDigit c = (48 \<le> byte c \<and> byte c \<le> 57)"

definition ishex :: "char \<Rightarrow> bool" where
  "ishex c = (isDigit c \<or> 97 \<le> byte c \<and> byte c \<le> 102 \<or> 65 \<le> byte c \<and> byte c \<le> 70)"

definition unhex :: "char \<Rightarrow> nat" where
  "unhex c =
     (if isDigit c then byte c - 48
      else if 97 \<le> byte c \<and> byte c \<le> 102 then byte c - 97 + 10
      else if 65 \<le> byte c \<and> byte c \<le> 70 then byte c - 65 + 10
      else 0)"

text \<open>\<open>strings.ToLower\<close> on a string of ASCII bytes.\<close>

definition ascii_ToLower :: "string \<Rightarrow> string" where
  "ascii_ToLower s =
     map (\<lambda>c. if 65 \<le> (of_char c :: nat) \<and> (of_char c :: nat) \<le> 90
               then char_of (of_char c + (32 :: nat)) else c) s"

text \<open>
  \<open>strings.Cut\<close>, \<open>strings.LastIndex\<close> and \<open>strings.Count\<close> for a separator of one
  byte, and \<open>strings.Index\<close>.
\<close>

definition strings_Cut :: "string \<Rightarrow> char \<Rightarrow> string \<times> string \<times> bool" where
  "strings_Cut s sep =
     (if sep \<in> set s
      then (takeWhile (\<lambda>c. c \<noteq> sep) s, drop 1 (dropWhile (\<lambda>c. c \<noteq> sep) s), True)
      else (s, '''', False))"

definition strings_LastIndex :: "string \<Rightarrow> char \<Rightarrow> nat option" where
  "strings_LastIndex s sep =
     (if sep \<in> set s
      then Some (length s - 1 - length (takeWhile (\<lambda>c. c \<noteq> sep) (rev s)))
      else None)"

definition strings_Count :: "string \<Rightarrow> char \<Rightarrow> nat" where
  "strings_Count s sep = length (filter (\<lambda>c. c = sep) s)"

fun strings_Index :: "string \<Rightarrow> string \<Rightarrow> nat option" where
  "strings_Index [] substr = (if substr = [] then Some 0 else None)"
| "strings_Index (c # cs) substr =
     (if take (length substr) (c # cs) = substr then Some 0
      else map_option Suc (strings_Index cs substr))"

definition stringContainsCTLByte :: "string \<Rightarrow> bool" where
  "stringContainsCTLByte s = list_ex (\<lambda>b. byte b < 32 \<or> byte b = 127) s"

text \<open>
  \<open>getScheme\<close>: the loop over the bytes of \<open>rawURL\<close>, with \<open>scanned\<close> the bytes before
  index \<open>i\<close>.
\<close>

fun getScheme_loop :: "string \<Rightarrow> string \<Rightarrow> string \<Rightarrow> error + string \<times> string" where
  "getScheme_loop rawURL scanned [] = Inr ('''', rawURL)"
| "getScheme_loop rawURL scanned (c # cs) =
     (if isLetter c then getScheme_loop rawURL (scanned @ [c]) cs
      else if isDigit c \<or> c = CHR ''+'' \<or> c = CHR ''-'' \<or> c = CHR ''.''
      then (if scanned = [] then Inr ('''', rawURL)
            else getScheme_loop rawURL (scanned @ [c]) cs)
      else if c = CHR '':''
      then (if scanned = [] then Inl (Err ''missing protocol scheme'')
            else Inr (scanned, cs))
      else Inr ('''', rawURL))"

definition getScheme :: "string \<Rightarrow> error + string \<times> string" where
  "getScheme rawURL = getScheme_loop rawURL [] rawURL"

datatype encoding =
  encodePath | encodePathSegment | encodeHost | encodeZone | encodeUserPassword
  | encodeQueryComponent | encodeFragment

text \<open>\<open>shouldEscape(c, encodeHost)\<close>, the one mode in which \<open>unescape\<close> asks.\<close>

definition shouldEscape_encodeHost :: "char \<Rightarrow> bool" where
  "shouldEscape_encodeHost c =
     (\<not> (isLetter c \<or> isDigit c \<or>
         c \<in> set ''!$&()*+,;=:[]<>'' \<or> byte c = 39 \<or> byte c = 34 \<or>
         c \<in> set ''-_.~''))"

text \<open>
  \<open>unescape\<close>: its first loop, which checks the escapes and the bytes of a host, and its
  second loop, which builds the result. The second loop runs only on a string the first
  one has accepted, where every \<open>%\<close> is followed by two hexadecimal digits.
\<close>

fun unescape_check :: "encoding \<Rightarrow> string \<Rightarrow> error option" where
  "unescape_check mode [] = None"
| "unescape_check mode (c # h1 # h2 # rest) =
     (if c = CHR ''%''
      then (if \<not> ishex h1 \<or> \<not> ishex h2 then Some (Err ''invalid URL escape'')
            else if mode = encodeHost \<and> unhex h1 < 8 \<and> [c, h1, h2] \<noteq> ''%25''
            then Some (Err ''invalid URL escape'')
            else if mode = encodeZone \<and> [c, h1, h2] \<noteq> ''%25'' \<and>
                    unhex h1 * 16 + unhex h2 \<noteq> 32 \<and>
                    shouldEscape_encodeHost (char_of (unhex h1 * 16 + unhex h2))
            then Some (Err ''invalid URL escape'')
            else unescape_check mode rest)
      else if c = CHR ''+'' then unescape_check mode (h1 # h2 # rest)
      else if (mode = encodeHost \<or> mode = encodeZone) \<and> byte c < 128 \<and>
              shouldEscape_encodeHost c
      then Some (Err ''invalid character in host name'')
      else unescape_check mode (h1 # h2 # rest))"
| "unescape_check mode (c # cs) =
     (if c = CHR ''%'' then Some (Err ''invalid URL escape'')
      else if c = CHR ''+'' then unescape_check mode cs
      else if (mode = encodeHost \<or> mode = encodeZone) \<and> byte c < 128 \<and>
              shouldEscape_encodeHost c
      then Some (Err ''invalid character in host name'')
      else unescape_check mode cs)"

fun unescape_build :: "encoding \<Rightarrow> string \<Rightarrow> string" where
  "unescape_build mode [] = []"
| "unescape_build mode (c # h1 # h2 # rest) =
     (if c = CHR ''%'' then char_of (unhex h1 * 16 + unhex h2) # unescape_build mode rest
      else if c = CHR ''+'' \<and> mode = encodeQueryComponent
      then CHR '' '' # unescape_build mode (h1 # h2 # rest)
      else c # unescape_build mode (h1 # h2 # rest))"
| "unescape_build mode (c # cs) =
     (if c = CHR ''+'' \<and> mode = encodeQueryComponent then CHR '' '' # unescape_build mode cs
      else c # unescape_build mode cs)"

definition unescape :: "string \<Rightarrow> encoding \<Rightarrow> error + string" where
  "unescape s mode =
     (case unescape_check mode s of
        Some err \<Rightarrow> Inl err
      | None \<Rightarrow> Inr (unescape_build mode s))"

definition QueryUnescape :: "string \<Rightarrow> error + string" where
  "QueryUnescape s = unescape s encodeQueryComponent"

definition validOptionalPort :: "string \<Rightarrow> bool" where
  "validOptionalPort port =
     (case port of
        [] \<Rightarrow> True
      | c # digits \<Rightarrow> c = CHR '':'' \<and> list_all isDigit digits)"

definition validUserinfo :: "string \<Rightarrow> bool" where
  "validUserinfo s =
     list_all (\<lambda>r. isLetter r \<or> isDigit r \<or> r \<in> set ''-._:~!$&()*+,;=%@'' \<or> byte r = 39) s"

definition parseHost :: "string \<Rightarrow> error + string" where
  "parseHost host =
     (if take 1 host = ''[''
      then (case strings_LastIndex host (CHR '']'') of
              None \<Rightarrow> Inl (Err ''missing ] in host'')
            | Some i \<Rightarrow>
                (if \<not> validOptionalPort (drop (i + 1) host)
                 then Inl (Err ''invalid port after host'')
                 else (case strings_Index (take i host) ''%25'' of
                         Some zone \<Rightarrow>
                           (case unescape (take zone host) encodeHost of
                              Inl err \<Rightarrow> Inl err
                            | Inr host1 \<Rightarrow>
                                (case unescape (drop zone (take i host)) encodeZone of
                                   Inl err \<Rightarrow> Inl err
                                 | Inr host2 \<Rightarrow>
                                     (case unescape (drop i host) encodeHost of
                                        Inl err \<Rightarrow> Inl err
                                      | Inr host3 \<Rightarrow> Inr (host1 @ host2 @ host3))))
                       | None \<Rightarrow> unescape host encodeHost)))
      else (case strings_LastIndex host (CHR '':'') of
              Some i \<Rightarrow>
                (if \<not> validOptionalPort (drop i host)
                 then Inl (Err ''invalid port after host'')
                 else unescape host encodeHost)
            | None \<Rightarrow> unescape host encodeHost))"

record Userinfo =
  username :: string
  password :: string
  passwordSet :: bool

definition parseAuthority :: "string \<Rightarrow> error + Userinfo option \<times> string" where
  "parseAuthority authority =
     (case strings_LastIndex authority (CHR ''@'') of
        None \<Rightarrow>
          (case parseHost authority of
             Inl err \<Rightarrow> Inl err
           | Inr host \<Rightarrow> Inr (None, host))
      | Some i \<Rightarrow>
          (case parseHost (drop (i + 1) authority) of
             Inl err \<Rightarrow> Inl err
           | Inr host \<Rightarrow>
               (let userinfo = take i authority in
                if \<not> validUserinfo userinfo then Inl (Err ''net/url: invalid userinfo'')
                else if CHR '':'' \<notin> set userinfo
                then (case unescape userinfo encodeUserPassword of
                        Inl err \<Rightarrow> Inl err
                      | Inr name \<Rightarrow>
                          Inr (Some \<lparr>username = name, password = '''', passwordSet = False\<rparr>,
                               host))
                else (let (name, pass, found) = strings_Cut userinfo (CHR '':'') in
                      case unescape name encodeUserPassword of
                        Inl err \<Rightarrow> Inl err
                      | Inr name' \<Rightarrow>
                          (case unescape pass encodeUserPassword of
                             Inl err \<Rightarrow> Inl err
                           | Inr pass' \<Rightarrow>
                               Inr (Some \<lparr>username = name', password = pass',
                                          passwordSet = True\<rparr>, host))))))"

record URL =
  Scheme :: string
  Opaque :: string
  User :: "Userinfo option"
  Host :: string
  Path :: string
  OmitHost :: bool
  ForceQuery :: bool
  RawQuery :: string
  Fragment :: string

definition emptyURL :: URL where
  "emptyURL = \<lparr>Scheme = '''', Opaque = '''', User = None, Host = '''', Path = '''',
               OmitHost = False, ForceQuery = False, RawQuery = '''', Fragment = ''''\<rparr>"

definition setPath :: "URL \<Rightarrow> string \<Rightarrow> error + URL" where
  "setPath u p =
     (case unescape p encodePath of
        Inl err \<Rightarrow> Inl err
      | Inr path \<Rightarrow> Inr (u\<lparr>Path := path\<rparr>))"

definition setFragment :: "URL \<Rightarrow> string \<Rightarrow> error + URL" where
  "setFragment u f =
     (case unescape f encodeFragment of
        Inl err \<Rightarrow> Inl err
      | Inr frag \<Rightarrow> Inr (u\<lparr>Fragment := frag\<rparr>))"

text \<open>
  \<open>parse(rawURL, viaRequest)\<close>, in four parts: \<open>parse_query\<close> splits the query off the
  text that follows the scheme, \<open>parse_authority_path\<close> is the end of the function, from
  the test for an authority on, \<open>parse_rest\<close> is what follows the split of the query,
  and \<open>parse\<close> is the whole.
\<close>

definition parse_query :: "URL \<Rightarrow> string \<Rightarrow> URL \<times> string" where
  "parse_query u rest =
     (if rest \<noteq> '''' \<and> last rest = CHR ''?'' \<and> strings_Count rest (CHR ''?'') = 1
      then (u\<lparr>ForceQuery := True\<rparr>, butlast rest)
      else (u\<lparr>RawQuery := fst (snd (strings_Cut rest (CHR ''?'')))\<rparr>,
            fst (strings_Cut rest (CHR ''?''))))"

definition parse_authority_path :: "URL \<Rightarrow> string \<Rightarrow> bool \<Rightarrow> error + URL" where
  "parse_authority_path u rest viaRequest =
     (if (Scheme u \<noteq> '''' \<or> \<not> viaRequest \<and> take 3 rest \<noteq> ''///'') \<and> take 2 rest = ''//''
      then (let authority = drop 2 rest;
                authority' = (if CHR ''/'' \<in> set authority
                              then takeWhile (\<lambda>c. c \<noteq> CHR ''/'') authority else authority);
                rest' = (if CHR ''/'' \<in> set authority
                         then dropWhile (\<lambda>c. c \<noteq> CHR ''/'') authority else '''')
            in case parseAuthority authority' of
                 Inl err \<Rightarrow> Inl err
               | Inr userhost \<Rightarrow>
                   setPath (u\<lparr>User := fst userhost, Host := snd userhost\<rparr>) rest')
      else if Scheme u \<noteq> '''' \<and> take 1 rest = ''/''
      then setPath (u\<lparr>OmitHost := True\<rparr>) rest
      else setPath u rest)"

definition parse_rest :: "URL \<Rightarrow> string \<Rightarrow> bool \<Rightarrow> error + URL" where
  "parse_rest u rest viaRequest =
     (if take 1 rest \<noteq> ''/''
      then (if Scheme u \<noteq> '''' then Inr (u\<lparr>Opaque := rest\<rparr>)
            else if viaRequest then Inl (Err ''invalid URI for request'')
            else if CHR '':'' \<in> set (fst (strings_Cut rest (CHR ''/'')))
            then Inl (Err ''first path segment in URL cannot contain colon'')
            else parse_authority_path u rest viaRequest)
      else parse_authority_path u rest viaRequest)"

definition parse :: "string \<Rightarrow> bool \<Rightarrow> error + URL" where
  "parse rawURL viaRequest =
     (if stringContainsCTLByte rawURL
      then Inl (Err ''net/url: invalid control character in URL'')
      else if rawURL = '''' \<and> viaRequest then Inl (Err ''empty url'')
      else if rawURL = ''*'' then Inr (emptyURL\<lparr>Path := ''*''\<rparr>)
      else (case getScheme rawURL of
              Inl err \<Rightarrow> Inl err
            | Inr schemerest \<Rightarrow>
                (let url = emptyURL\<lparr>Scheme := ascii_ToLower (fst schemerest)\<rparr>
                 in parse_rest (fst (parse_query url (snd schemerest)))
                      (snd (parse_query url (snd schemerest))) viaRequest)))"

definition Parse :: "string \<Rightarrow> error + URL" where
  "Parse rawURL =
     (let u = fst (strings_Cut rawURL (CHR ''#''));
          frag = fst (snd (strings_Cut rawURL (CHR ''#'')))
      in case parse u False of
           Inl err \<Rightarrow> Inl (Wrap ''parse'' err)
         | Inr url \<Rightarrow>
             (if frag = '''' then Inr url
              else (case setFragment url frag of
                      Inl err \<Rightarrow> Inl (Wrap ''parse'' err)
                    | Inr url' \<Rightarrow> Inr url')))"

text \<open>
  \<open>parseQuery\<close>: one round of its loop for each piece of the query up to the next
  \<open>&\<close>. \<open>err\<close> is the error it will return.
\<close>

function parseQuery :: "Values \<Rightarrow> error option \<Rightarrow> string \<Rightarrow> Values \<times> error option" where
  "parseQuery m err query =
     (if query = '''' then (m, err)
      else (let key = fst (strings_Cut query (CHR ''&''));
                query' = fst (snd (strings_Cut query (CHR ''&'')))
            in if CHR '';'' \<in> set key
               then parseQuery m (Some (Err ''invalid semicolon separator in query'')) query'
               else if key = '''' then parseQuery m err query'
               else (let key1 = fst (strings_Cut key (CHR ''=''));
                         value = fst (snd (strings_Cut key (CHR ''='')))
                     in case QueryUnescape key1 of
                          Inl err1 \<Rightarrow>
                            parseQuery m (if err = None then Some err1 else err) query'
                        | Inr key2 \<Rightarrow>
                            (case QueryUnescape value of
                               Inl err1 \<Rightarrow>
                                 parseQuery m (if err = None then Some err1 else err) query'
                             | Inr value' \<Rightarrow>
                                 parseQuery
                                   (m(key2 \<mapsto> (case m key2 of None \<Rightarrow> [] | Some vs \<Rightarrow> vs)
                                                @ [value']))
                                   err query'))))"
  by pat_completeness auto

termination parseQuery
proof -
  have shorter: "length (fst (snd (strings_Cut query sep))) < length query"
    if "query \<noteq> ''''" for query sep
  proof -
    have "length (dropWhile (\<lambda>c. c \<noteq> sep) query) \<le> length query"
      by (rule length_dropWhile_le)
    with that show ?thesis by (cases query) (auto simp add: strings_Cut_def)
  qed
  show ?thesis
    by (relation "measure (\<lambda>(m, err, query). length query)") (auto simp add: shorter)
qed

declare parseQuery.simps [simp del]

text \<open>\<open>ParseQuery\<close>, and \<open>URL.Query\<close>, which drops its error.\<close>

definition ParseQuery :: "string \<Rightarrow> Values \<times> error option" where
  "ParseQuery query = parseQuery Map.empty None query"

definition URL_Query :: "URL \<Rightarrow> Values" where
  "URL_Query u = fst (ParseQuery (RawQuery u))"

text \<open>
  What a query string says when it is read as text: its pieces between \<open>&\<close> signs, each
  piece a key and a value separated by the first \<open>=\<close>, both with their escapes
  decoded. A piece that is empty, or holds a \<open>;\<close>, or whose key or value has a malformed
  escape, says nothing.
\<close>

definition decodePair :: "string \<Rightarrow> (string \<times> string) option" where
  "decodePair piece =
     (if piece = '''' \<or> CHR '';'' \<in> set piece then None
      else (case QueryUnescape (fst (strings_Cut piece (CHR ''=''))) of
              Inl err \<Rightarrow> None
            | Inr key \<Rightarrow>
                (case QueryUnescape (fst (snd (strings_Cut piece (CHR ''='')))) of
                   Inl err \<Rightarrow> None
                 | Inr val \<Rightarrow> Some (key, val))))"

definition decodedPairs :: "string \<Rightarrow> (string \<times> string) list" where
  "decodedPairs query = List.map_filter decodePair (strings_Split query (CHR ''&''))"

definition firstValue :: "string \<Rightarrow> (string \<times> string) list \<Rightarrow> string" where
  "firstValue key pairs =
     (case filter (\<lambda>kv. fst kv = key) pairs of
        [] \<Rightarrow> ''''
      | kv # _ \<Rightarrow> snd kv)"

text \<open>What one decoded pair adds to the values collected so far.\<close>

definition appendValue :: "Values \<Rightarrow> string \<times> string \<Rightarrow> Values" where
  "appendValue m kv = m(fst kv \<mapsto> (case m (fst kv) of None \<Rightarrow> [] | Some vs \<Rightarrow> vs) @ [snd kv])"

section \<open>A concrete environment\<close>

text \<open>
  One environment on which the functions above can be run. The world is the number of
  requests served; the clock starts at second 1000 and a request takes one second.
  \<open>url.Parse\<close> and \<open>URL.Query\<close> are the library's functions of the section before. The
  other library functions are simple: lower-casing of ASCII letters, a bag whose token is
  the offset itself, and a table for the one token the server issues (its claims are
  \<open>{"exp":2000}\<close>). The server knows the organizations O1 and O2; O1 has the workspace
  W1, and the global listing also returns W2, which no organization lists.
\<close>

definition demo_claimsJSON :: string where
  "demo_claimsJSON = ''{'' @ [CHR 0x22] @ ''exp'' @ [CHR 0x22] @ '':2000}''"

definition demo_token :: string where
  "demo_token = ''eyJhbGciOiJub25lIn0.eyJleHAiOjIwMDB9.c2ln''"

definition demo_base64 :: "string \<Rightarrow> error + string" where
  "demo_base64 seg =
     (if seg = ''eyJleHAiOjIwMDB9'' then Inr demo_claimsJSON
      else Inl (Err ''illegal base64 data''))"

definition demo_json :: "string \<Rightarrow> error + JWTClaims" where
  "demo_json claimsJSON =
     (if claimsJSON = demo_claimsJSON
      then Inr \<lparr>Issuer = '''', Subject = '''', ExpiresAt = 2000, Roles = []\<rparr>
      else Inl (Err ''invalid character''))"

type_synonym demo_bag = "(string \<times> string \<times> string) list"

definition demo_PageToken :: "demo_bag \<Rightarrow> string" where
  "demo_PageToken bag = (case bag of [] \<Rightarrow> '''' | (rt, rid, tok) # rest \<Rightarrow> tok)"

fun requestedOrganization :: "request \<Rightarrow> string" where
  "requestedOrganization r =
     (case req_body r of
        Some (JObject ((k, JString org) # rest)) \<Rightarrow> org
      | _ \<Rightarrow> '''')"

fun requestedRowOffset :: "request \<Rightarrow> 64 word" where
  "requestedRowOffset r =
     (case req_body r of
        Some (JObject [kv, (k, JObject [ps, (k', JNumber off)])]) \<Rightarrow> off
      | _ \<Rightarrow> 0)"

definition demo_ann :: WorkspaceUserAccessInfoReadResponse where
  "demo_ann =
     \<lparr>UserID = ''u1'', UserEmail = ''ann@example.com'', UserName = ''Ann'',
      WorkspaceID = ''W1'', WorkspacePermission = None,
      OrganizationPermission = Some \<lparr>PR_PermissionID = ''p1'',
        PR_PermissionType = ''ORGANIZATION_ADMIN'', PR_UserID = ''u1'',
        PR_WorkspaceID = '''', PR_OrganizationID = ''O1''\<rparr>\<rparr>"

definition demo_bob :: WorkspaceUserAccessInfoReadResponse where
  "demo_bob =
     \<lparr>UserID = ''u2'', UserEmail = ''bob@example.com'', UserName = ''Bob'',
      WorkspaceID = ''W1'', WorkspacePermission = None,
      OrganizationPermission = Some \<lparr>PR_PermissionID = ''p2'',
        PR_PermissionType = ''organization_member'', PR_UserID = ''u2'',
        PR_WorkspaceID = '''', PR_OrganizationID = ''O1''\<rparr>\<rparr>"

definition demo_cy :: WorkspaceUserAccessInfoReadResponse where
  "demo_cy =
     \<lparr>UserID = ''u3'', UserEmail = ''cy@example.com'', UserName = ''Cy'',
      WorkspaceID = ''W1'',
      WorkspacePermission = Some \<lparr>PR_PermissionID = ''p3'',
        PR_PermissionType = ''workspace_reader'', PR_UserID = ''u3'',
        PR_WorkspaceID = ''W1'', PR_OrganizationID = ''''\<rparr>,
      OrganizationPermission = None\<rparr>"

definition demo_users :: "WorkspaceUserAccessInfoReadResponse list" where
  "demo_users = [demo_ann, demo_bob, demo_cy]"

definition E0 :: "(nat, URL, demo_bag) env" where
  "E0 =
     \<lparr>time_Now = (\<lambda>w. (1000 + int w) * 1000000000),
      base64_RawURLEncoding_DecodeString = demo_base64,
      json_Unmarshal_JWTClaims = demo_json,
      strings_ToLower = ascii_ToLower,
      url_Parse = Parse,
      url_Query = URL_Query,
      bag_Unmarshal = (\<lambda>tok. Inr (if tok = '''' then [] else [('''', '''', tok)])),
      bag_Current_is_nil = (\<lambda>bag. bag = []),
      bag_Push = (\<lambda>bag rt rid. (rt, rid, '''') # bag),
      bag_PageToken = demo_PageToken,
      bag_NextToken = (\<lambda>bag tok. Inr tok),
      sdk_NewUserTrait_error = (\<lambda>opts. None),
      organizationResourceType_Id = ''organization'',
      workspaceResourceType_Id = ''workspace'',
      userResourceType_Id = ''user'',
      http_getAccessToken = (\<lambda>r w. (Inr \<lparr>AccessToken = demo_token\<rparr>, Suc w)),
      http_listWorkspaces = (\<lambda>r w.
        (Inr \<lparr>Data = [Some \<lparr>WR_ID = ''W1'', WR_Name = ''one''\<rparr>,
                       Some \<lparr>WR_ID = ''W2'', WR_Name = ''two''\<rparr>],
              Previous = '''', Next = ''''\<rparr>, Suc w)),
      http_listUsers = (\<lambda>r w.
        (Inr \<lparr>Data = [Some \<lparr>U_ID = ''u1'', U_Email = ''ann@example.com'', U_Name = ''Ann''\<rparr>],
              Previous = '''', Next = ''''\<rparr>, Suc w)),
      http_listPermissions = (\<lambda>r w.
        (Inr \<lparr>Data = [Some \<lparr>P_ID = ''p1'', P_PermissionType = ''organization_admin'',
                             P_UserID = ''u1'', P_ScopeID = ''O1'', P_Scope = ''organization''\<rparr>],
              Previous = '''', Next = ''''\<rparr>, Suc w)),
      http_listOrganizations = (\<lambda>r w.
        (Inr \<lparr>Data = [Some \<lparr>O_ID = ''O1'', O_Name = ''first'', O_Email = ''''\<rparr>,
                       Some \<lparr>O_ID = ''O2'', O_Name = ''second'', O_Email = ''''\<rparr>],
              Previous = '''', Next = ''''\<rparr>, Suc w)),
      http_listWorkspacesByOrganization = (\<lambda>r w.
        (Inr (if requestedOrganization r = ''O1'' \<and> requestedRowOffset r = 0
              then [\<lparr>WRR_WorkspaceId = ''W1'', WRR_OrganizationId = ''O1'', WRR_Name = ''one''\<rparr>]
              else []), Suc w)),
      http_listUsersWithAccessInfo = (\<lambda>r w. (Inr demo_users, Suc w))\<rparr>"

definition c0 :: Client where
  "c0 = \<lparr>baseURL = ''https://airbyte.example'', accessToken = '''', clientID = ''id'',
         clientSecret = ''secret'', tokenExpiry = 0\<rparr>"

definition s0 :: "nat state" where
  "s0 = \<lparr>client = c0, workspacesWithOrgIDMap = Map.empty, world = 0, trace = []\<rparr>"

definition W1_id :: ResourceId where
  "W1_id = \<lparr>ResourceType = ''workspace'', Resource = ''W1''\<rparr>"

definition W1_resource :: Resource_v2 where
  "W1_resource =
     \<lparr>Res_Id = W1_id, Res_DisplayName = ''one'',
      Res_ParentResourceId = Some \<lparr>ResourceType = ''organization'', Resource = ''O1''\<rparr>,
      Res_Annotations = [ChildResourceType ''user'']\<rparr>"

definition O1_resource :: Resource_v2 where
  "O1_resource =
     \<lparr>Res_Id = \<lparr>ResourceType = ''organization'', Resource = ''O1''\<rparr>,
      Res_DisplayName = ''first'', Res_ParentResourceId = None, Res_Annotations = []\<rparr>"

definition W2_resource :: Resource_v2 where
  "W2_resource =
     \<lparr>Res_Id = \<lparr>ResourceType = ''workspace'', Resource = ''W2''\<rparr>, Res_DisplayName = ''two'',
      Res_ParentResourceId =
        Some \<lparr>ResourceType = ''organization'', Resource = ''unknown-parent''\<rparr>,
      Res_Annotations = [ChildResourceType ''user'']\<rparr>"

text \<open>
  A second server, whose access list for a workspace holds a user with an explicit
  workspace permission of an organization-level type.
\<close>

definition demo_dan :: WorkspaceUserAccessInfoReadResponse where
  "demo_dan =
     \<lparr>UserID = ''u4'', UserEmail = ''dan@example.com'', UserName = ''Dan'',
      WorkspaceID = ''W1'',
      WorkspacePermission = Some \<lparr>PR_PermissionID = ''p4'',
        PR_PermissionType = ''organization_admin'', PR_UserID = ''u4'',
        PR_WorkspaceID = ''W1'', PR_OrganizationID = ''''\<rparr>,
      OrganizationPermission = None\<rparr>"

definition E1 :: "(nat, URL, demo_bag) env" where
  "E1 = E0\<lparr>http_listUsersWithAccessInfo := (\<lambda>r w. (Inr [demo_dan], Suc w))\<rparr>"

text \<open>
  Two states that hold the demo token: in \<open>s_fresh\<close> it expires at second 2000, in
  \<open>s_thirty\<close> exactly 30 seconds after the clock's reading of second 1000. A third
  server returns a full page of 50 workspaces for every request.
\<close>

definition s_fresh :: "nat state" where
  "s_fresh = s0\<lparr>client := c0\<lparr>accessToken := demo_token, tokenExpiry := 2000000000000\<rparr>\<rparr>"

definition s_thirty :: "nat state" where
  "s_thirty = s0\<lparr>client := c0\<lparr>accessToken := demo_token, tokenExpiry := 1030000000000\<rparr>\<rparr>"

definition demo_workspace :: WorkspaceReadResponse where
  "demo_workspace = \<lparr>WRR_WorkspaceId = ''W'', WRR_OrganizationId = ''O1'', WRR_Name = ''w''\<rparr>"

definition E2 :: "(nat, URL, demo_bag) env" where
  "E2 = E0\<lparr>http_listWorkspacesByOrganization :=
             (\<lambda>r w. (Inr (replicate 50 demo_workspace), Suc w))\<rparr>"

text \<open>A server whose token is not a JWT.\<close>

definition E3 :: "(nat, URL, demo_bag) env" where
  "E3 = E0\<lparr>http_getAccessToken := (\<lambda>r w. (Inr \<lparr>AccessToken = ''not-a-jwt''\<rparr>, Suc w))\<rparr>"

text \<open>
  A server whose listing of an organization's workspaces has a full first page and one
  more workspace after it.
\<close>

definition E4 :: "(nat, URL, demo_bag) env" where
  "E4 = E0\<lparr>http_listWorkspacesByOrganization :=
             (\<lambda>r w. (Inr (if requestedRowOffset r = 0 then replicate 50 demo_workspace
                            else [demo_workspace]), Suc w))\<rparr>"

section \<open>Properties of the offset of the next page\<close>

subsection \<open>The query of a link and the values it holds\<close>

lemma strings_Split_not_Nil: "strings_Split s sep \<noteq> []"
  by (induction s) (auto split: list.splits)

lemma strings_Split_Cut:
  "strings_Split s sep =
     fst (strings_Cut s sep) #
       (if sep \<in> set s then strings_Split (fst (snd (strings_Cut s sep))) sep else [])"
proof (induction s)
  case Nil
  show ?case by (simp add: strings_Cut_def)
next
  case (Cons c cs)
  show ?case
  proof (cases "c = sep")
    case True
    then show ?thesis by (simp add: strings_Cut_def)
  next
    case False
    obtain p ps where sp: "strings_Split cs sep = p # ps"
      using strings_Split_not_Nil [of cs sep] by (cases "strings_Split cs sep") auto
    from Cons.IH sp False show ?thesis
      by (auto simp add: strings_Cut_def split: if_splits)
  qed
qed

lemma decodedPairs_Nil: "decodedPairs '''' = []"
  by (simp add: decodedPairs_def List.map_filter_def decodePair_def)

lemma decodedPairs_step:
  "query \<noteq> '''' \<Longrightarrow>
   decodedPairs query =
     (case decodePair (fst (strings_Cut query (CHR ''&''))) of None \<Rightarrow> [] | Some p \<Rightarrow> [p])
     @ decodedPairs (fst (snd (strings_Cut query (CHR ''&''))))"
proof -
  assume "query \<noteq> ''''"
  show ?thesis
  proof (cases "CHR ''&'' \<in> set query")
    case True
    then show ?thesis
      by (subst decodedPairs_def, subst strings_Split_Cut)
         (simp add: decodedPairs_def List.map_filter_def split: option.splits)
  next
    case False
    then have "fst (snd (strings_Cut query (CHR ''&''))) = ''''"
      by (simp add: strings_Cut_def)
    with False show ?thesis
      by (subst decodedPairs_def, subst strings_Split_Cut)
         (simp add: decodedPairs_Nil List.map_filter_def split: option.splits)
  qed
qed

lemma parseQuery_pairs:
  "fst (parseQuery m err query) = foldl appendValue m (decodedPairs query)"
proof (induction m err query rule: parseQuery.induct)
  case (1 m err query)
  show ?case
  proof (cases "query = ''''")
    case True
    then show ?thesis by (subst parseQuery.simps) (simp add: decodedPairs_Nil)
  next
    case False
    note IH = "1.IH" [OF False refl refl]
    let ?key = "fst (strings_Cut query (CHR ''&''))"
    let ?rest = "fst (snd (strings_Cut query (CHR ''&'')))"
    show ?thesis
    proof (cases "CHR '';'' \<in> set ?key")
      case True
      with False IH(1) show ?thesis
        by (subst parseQuery.simps, subst decodedPairs_step)
           (simp_all add: Let_def decodePair_def)
    next
      case semi: False
      show ?thesis
      proof (cases "?key = ''''")
        case True
        with False semi IH(2) show ?thesis
          by (subst parseQuery.simps, subst decodedPairs_step)
             (simp_all add: Let_def decodePair_def)
      next
        case nonempty: False
        note IH3 = IH(3-) [OF semi nonempty refl refl]
        show ?thesis
        proof (cases "QueryUnescape (fst (strings_Cut ?key (CHR ''='')))")
          case (Inl e)
          with False semi nonempty IH3(1) show ?thesis
            by (subst parseQuery.simps, subst decodedPairs_step)
               (simp_all add: Let_def decodePair_def)
        next
          case k: (Inr key2)
          show ?thesis
          proof (cases "QueryUnescape (fst (snd (strings_Cut ?key (CHR ''=''))))")
            case (Inl e)
            with False semi nonempty k IH3(2) show ?thesis
              by (subst parseQuery.simps, subst decodedPairs_step)
                 (simp_all add: Let_def decodePair_def)
          next
            case v: (Inr val)
            note IHf = IH3(3) [OF k v]
            have av: "appendValue m (key2, val) =
                        m(key2 \<mapsto> (case m key2 of None \<Rightarrow> [] | Some vs \<Rightarrow> vs) @ [val])"
              by (simp add: appendValue_def)
            have step1: "parseQuery m err query =
                  parseQuery (m(key2 \<mapsto> (case m key2 of None \<Rightarrow> [] | Some vs \<Rightarrow> vs) @ [val]))
                    err ?rest"
              using False semi nonempty k v
              by (subst parseQuery.simps) (simp add: Let_def)
            have step2: "decodedPairs query = (key2, val) # decodedPairs ?rest"
              using False semi nonempty k v
              by (subst decodedPairs_step) (simp_all add: decodePair_def)
            show ?thesis
              by (simp only: step1 step2 foldl_Cons av IHf)
          qed
        qed
      qed
    qed
  qed
qed

lemma foldl_appendValue:
  "foldl appendValue m pairs key =
     (if filter (\<lambda>kv. fst kv = key) pairs = [] then m key
      else Some ((case m key of None \<Rightarrow> [] | Some vs \<Rightarrow> vs)
                 @ map snd (filter (\<lambda>kv. fst kv = key) pairs)))"
  by (induction pairs arbitrary: m) (auto simp add: appendValue_def)

lemma Values_Get_Query:
  "Values_Get (fst (ParseQuery query)) key = firstValue key (decodedPairs query)"
  by (simp add: ParseQuery_def parseQuery_pairs foldl_appendValue Values_Get_def firstValue_def
        split: list.splits)

lemma takeWhile_absent: "sep \<notin> set s \<Longrightarrow> takeWhile (\<lambda>c. c \<noteq> sep) s = s"
  by (induction s) auto

lemma dropWhile_absent: "sep \<notin> set s \<Longrightarrow> dropWhile (\<lambda>c. c \<noteq> sep) s = []"
  by (induction s) auto

lemma strings_Cut_fst: "fst (strings_Cut s sep) = takeWhile (\<lambda>c. c \<noteq> sep) s"
  by (simp add: strings_Cut_def takeWhile_absent)

lemma strings_Cut_snd:
  "fst (snd (strings_Cut s sep)) = drop 1 (dropWhile (\<lambda>c. c \<noteq> sep) s)"
  by (simp add: strings_Cut_def dropWhile_absent)

lemma scheme_byte_not_question:
  "isLetter c \<or> isDigit c \<or> c = CHR ''+'' \<or> c = CHR ''-'' \<or> c = CHR ''.'' \<Longrightarrow> c \<noteq> CHR ''?''"
  by (auto simp add: isLetter_def isDigit_def byte_def)

lemma getScheme_loop_query:
  "getScheme_loop rawURL scanned cs = Inr (scheme, rest) \<Longrightarrow> rawURL = scanned @ cs \<Longrightarrow>
   CHR ''?'' \<notin> set scanned \<Longrightarrow>
   dropWhile (\<lambda>c. c \<noteq> CHR ''?'') rest = dropWhile (\<lambda>c. c \<noteq> CHR ''?'') rawURL"
proof (induction rawURL scanned cs rule: getScheme_loop.induct)
  case (1 rawURL scanned)
  then show ?case by simp
next
  case (2 rawURL scanned c cs)
  note g = "2.prems"(1) and r = "2.prems"(2) and nq = "2.prems"(3)
  show ?case
  proof (cases "isLetter c")
    case True
    then have "c \<noteq> CHR ''?''" using scheme_byte_not_question by blast
    with nq have nq': "CHR ''?'' \<notin> set (scanned @ [c])" by simp
    from g True have "getScheme_loop rawURL (scanned @ [c]) cs = Inr (scheme, rest)" by simp
    from "2.IH"(1) [OF True this _ nq'] r show ?thesis by simp
  next
    case nl: False
    show ?thesis
    proof (cases "isDigit c \<or> c = CHR ''+'' \<or> c = CHR ''-'' \<or> c = CHR ''.''")
      case True
      then have "c \<noteq> CHR ''?''" using scheme_byte_not_question by blast
      with nq have nq': "CHR ''?'' \<notin> set (scanned @ [c])" by simp
      show ?thesis
      proof (cases "scanned = []")
        case e: True
        from g nl True e have "rest = rawURL" by (simp only: getScheme_loop.simps if_True if_False) simp
        then show ?thesis by simp
      next
        case ne: False
        from g nl True ne have "getScheme_loop rawURL (scanned @ [c]) cs = Inr (scheme, rest)"
          by (simp only: getScheme_loop.simps if_True if_False)
        from "2.IH"(2) [OF nl True ne this _ nq'] r show ?thesis by simp
      qed
    next
      case nd: False
      show ?thesis
      proof (cases "c = CHR '':''")
        case True
        from g nl nd True have "scanned \<noteq> [] \<and> rest = cs"
          by (simp only: getScheme_loop.simps if_True if_False) (simp split: if_splits)
        then have "rest = cs" ..
        have "dropWhile (\<lambda>c. c \<noteq> CHR ''?'') (scanned @ c # cs) =
              dropWhile (\<lambda>c. c \<noteq> CHR ''?'') (c # cs)"
          using nq by (intro dropWhile_append2) auto
        with True r \<open>rest = cs\<close> show ?thesis by simp
      next
        case False
        from g nl nd False have "rest = rawURL"
          by (simp only: getScheme_loop.simps if_True if_False) simp
        then show ?thesis by simp
      qed
    qed
  qed
qed

lemma getScheme_query:
  "getScheme rawURL = Inr (scheme, rest) \<Longrightarrow>
   dropWhile (\<lambda>c. c \<noteq> CHR ''?'') rest = dropWhile (\<lambda>c. c \<noteq> CHR ''?'') rawURL"
proof -
  assume "getScheme rawURL = Inr (scheme, rest)"
  then have "getScheme_loop rawURL [] rawURL = Inr (scheme, rest)"
    by (simp add: getScheme_def)
  from getScheme_loop_query [OF this] show ?thesis by simp
qed

lemma only_question_last:
  assumes "rest \<noteq> ''''" "last rest = CHR ''?''" "strings_Count rest (CHR ''?'') = 1"
  shows "drop 1 (dropWhile (\<lambda>c. c \<noteq> CHR ''?'') rest) = ''''"
proof -
  define b where "b = butlast rest"
  from assms(1,2) have r: "rest = b @ ''?''"
    unfolding b_def by (metis append_butlast_last_id)
  from assms(3) have "filter (\<lambda>c. c = CHR ''?'') b = []"
    by (simp add: strings_Count_def r)
  then have "\<forall>c \<in> set b. c \<noteq> CHR ''?''"
    by (simp add: filter_empty_conv)
  then have "dropWhile (\<lambda>c. c \<noteq> CHR ''?'') (b @ ''?'') = ''?''"
    by (simp add: dropWhile_append)
  then show ?thesis by (simp add: r)
qed

lemma setPath_RawQuery: "setPath u p = Inr u' \<Longrightarrow> RawQuery u' = RawQuery u"
  by (auto simp add: setPath_def split: sum.splits)

lemma setFragment_RawQuery: "setFragment u f = Inr u' \<Longrightarrow> RawQuery u' = RawQuery u"
  by (auto simp add: setFragment_def split: sum.splits)

lemma parse_authority_path_RawQuery:
  "parse_authority_path u rest viaRequest = Inr u' \<Longrightarrow> RawQuery u' = RawQuery u"
  unfolding parse_authority_path_def Let_def
  by (auto dest!: setPath_RawQuery split: if_splits sum.splits)

lemma parse_query_RawQuery:
  "RawQuery u = '''' \<Longrightarrow>
   RawQuery (fst (parse_query u rest)) = drop 1 (dropWhile (\<lambda>c. c \<noteq> CHR ''?'') rest)"
proof (cases "rest \<noteq> '''' \<and> last rest = CHR ''?'' \<and> strings_Count rest (CHR ''?'') = 1")
  case True
  assume "RawQuery u = ''''"
  moreover from True have "drop 1 (dropWhile (\<lambda>c. c \<noteq> CHR ''?'') rest) = ''''"
    using only_question_last by blast
  moreover from True have "parse_query u rest = (u\<lparr>ForceQuery := True\<rparr>, butlast rest)"
    unfolding parse_query_def by (rule if_P)
  ultimately show ?thesis by simp
next
  case False
  then have "parse_query u rest =
               (u\<lparr>RawQuery := fst (snd (strings_Cut rest (CHR ''?'')))\<rparr>,
                fst (strings_Cut rest (CHR ''?'')))"
    unfolding parse_query_def by (rule if_not_P)
  then show ?thesis by (simp add: strings_Cut_snd)
qed

lemma parse_rest_RawQuery:
  "parse_rest u rest viaRequest = Inr u' \<Longrightarrow> RawQuery u' = RawQuery u"
  unfolding parse_rest_def
  by (auto dest!: parse_authority_path_RawQuery split: if_splits)

lemma parse_RawQuery:
  assumes "parse rawURL viaRequest = Inr u"
  shows "RawQuery u = drop 1 (dropWhile (\<lambda>c. c \<noteq> CHR ''?'') rawURL)"
proof (cases "rawURL = ''*''")
  case True
  with assms show ?thesis
    by (auto simp add: parse_def emptyURL_def split: if_splits)
next
  case False
  from assms False obtain scheme rest0 where g: "getScheme rawURL = Inr (scheme, rest0)"
    by (auto simp add: parse_def split: if_splits sum.splits)
  note q = getScheme_query [OF g]
  define url where "url = emptyURL\<lparr>Scheme := ascii_ToLower scheme\<rparr>"
  have "RawQuery url = ''''" by (simp add: url_def emptyURL_def)
  note rq = parse_query_RawQuery [OF this, of rest0]
  have "parse_rest (fst (parse_query url rest0)) (snd (parse_query url rest0)) viaRequest = Inr u"
    using assms False g
    by (simp add: parse_def url_def Let_def split: if_splits)
  from parse_rest_RawQuery [OF this] rq q show ?thesis by simp
qed

lemma Parse_RawQuery:
  assumes "Parse link = Inr u"
  shows "RawQuery u =
           drop 1 (dropWhile (\<lambda>c. c \<noteq> CHR ''?'') (takeWhile (\<lambda>c. c \<noteq> CHR ''#'') link))"
proof (cases "parse (fst (strings_Cut link (CHR ''#''))) False")
  case (Inl err)
  with assms show ?thesis by (simp add: Parse_def)
next
  case (Inr url)
  note rq = parse_RawQuery [OF Inr]
  show ?thesis
  proof (cases "fst (snd (strings_Cut link (CHR ''#''))) = ''''")
    case True
    with assms Inr have "u = url" by (simp add: Parse_def)
    with rq show ?thesis by (simp add: strings_Cut_fst)
  next
    case False
    with assms Inr have "setFragment url (fst (snd (strings_Cut link (CHR ''#'')))) = Inr u"
      by (simp add: Parse_def split: sum.splits)
    from setFragment_RawQuery [OF this] rq show ?thesis by (simp add: strings_Cut_fst)
  qed
qed

lemma unescape_build_literal:
  "CHR ''%'' \<notin> set s \<Longrightarrow> CHR ''+'' \<notin> set s \<Longrightarrow> unescape_build mode s = s"
  by (induction mode s rule: unescape_build.induct) auto

lemma unescape_check_literal:
  "CHR ''%'' \<notin> set s \<Longrightarrow> unescape_check encodeQueryComponent s = None"
  by (induction encodeQueryComponent s rule: unescape_check.induct) auto

lemma QueryUnescape_literal:
  "CHR ''%'' \<notin> set s \<Longrightarrow> CHR ''+'' \<notin> set s \<Longrightarrow> QueryUnescape s = Inr s"
  by (simp add: QueryUnescape_def unescape_def unescape_check_literal unescape_build_literal)

lemma decodePair_literal:
  assumes "CHR '';'' \<notin> set val" "CHR ''%'' \<notin> set val" "CHR ''+'' \<notin> set val"
  shows "decodePair (''offset='' @ val) = Some (''offset'', val)"
proof -
  have k: "fst (strings_Cut (''offset='' @ val) (CHR ''='')) = ''offset''"
    by (simp add: strings_Cut_fst)
  have v: "fst (snd (strings_Cut (''offset='' @ val) (CHR ''=''))) = val"
    by (simp add: strings_Cut_snd)
  have ku: "QueryUnescape ''offset'' = Inr ''offset''"
    by (rule QueryUnescape_literal) simp_all
  have vu: "QueryUnescape val = Inr val"
    using assms(2,3) by (rule QueryUnescape_literal)
  have ns: "CHR '';'' \<notin> set (''offset='' @ val)" using assms(1) by simp
  show ?thesis
    unfolding decodePair_def k v ku vu using ns by simp
qed

lemma E0_library:
  "E0\<lparr>url_Parse := Parse, url_Query := URL_Query\<rparr> = E0"
  by (simp add: E0_def)

subsection \<open>The offset of the next page\<close>

text \<open>
  C7, as the code has it, with \<open>url.Parse\<close> and \<open>URL.Query\<close> the library's. For the
  empty link \<open>GetOffsetForTheNextPageFromURL\<close> returns the empty string. For a link that
  \<open>url.Parse\<close> accepts, the query is the text between the first \<open>?\<close> and the
  \<open>#\<close>, and the result is the decoded value of the first piece \<open>key=value\<close> of the
  query, split at \<open>&\<close>, that holds no \<open>;\<close>, whose key and value decode without
  error and whose decoded key is \<open>offset\<close>; it is the empty string when there is no
  such piece. Decoding replaces every escape \<open>%XX\<close> by its byte and every \<open>+\<close> by a
  space, so the result is the text of the value as it stands in the link when that text
  holds no \<open>%\<close>, no \<open>+\<close> and no \<open>;\<close>.
\<close>

theorem C7_next_offset_from_link:
  "GetOffsetForTheNextPageFromURL (E\<lparr>url_Parse := Parse, url_Query := URL_Query\<rparr>) '''' = ''''
   \<and> (Parse link = Inr u \<longrightarrow>
        RawQuery u = drop 1 (dropWhile (\<lambda>c. c \<noteq> CHR ''?'')
                               (takeWhile (\<lambda>c. c \<noteq> CHR ''#'') link)) \<and>
        GetOffsetForTheNextPageFromURL (E\<lparr>url_Parse := Parse, url_Query := URL_Query\<rparr>) link =
          firstValue ''offset'' (decodedPairs (RawQuery u)))
   \<and> (CHR '';'' \<notin> set val \<and> CHR ''%'' \<notin> set val \<and> CHR ''+'' \<notin> set val
        \<longrightarrow> decodePair (''offset='' @ val) = Some (''offset'', val))"
proof (intro conjI impI)
  show "GetOffsetForTheNextPageFromURL (E\<lparr>url_Parse := Parse, url_Query := URL_Query\<rparr>) '''' = ''''"
    by (simp add: GetOffsetForTheNextPageFromURL_def)
next
  assume p: "Parse link = Inr u"
  show "RawQuery u = drop 1 (dropWhile (\<lambda>c. c \<noteq> CHR ''?'')
                               (takeWhile (\<lambda>c. c \<noteq> CHR ''#'') link))"
    using p by (rule Parse_RawQuery)
  have g: "Values_Get (URL_Query u) ''offset'' = firstValue ''offset'' (decodedPairs (RawQuery u))"
    by (simp add: URL_Query_def Values_Get_Query)
  show "GetOffsetForTheNextPageFromURL (E\<lparr>url_Parse := Parse, url_Query := URL_Query\<rparr>) link =
          firstValue ''offset'' (decodedPairs (RawQuery u))"
  proof (cases "link = ''''")
    case True
    with p have "RawQuery u = ''''"
      using Parse_RawQuery [OF p] by simp
    with True show ?thesis
      by (simp add: GetOffsetForTheNextPageFromURL_def decodedPairs_Nil firstValue_def)
  next
    case False
    with p g show ?thesis
      by (simp add: GetOffsetForTheNextPageFromURL_def Let_def)
  qed
next
  assume "CHR '';'' \<notin> set val \<and> CHR ''%'' \<notin> set val \<and> CHR ''+'' \<notin> set val"
  then show "decodePair (''offset='' @ val) = Some (''offset'', val)"
    by (intro decodePair_literal) simp_all
qed

text \<open>
  C7 as stated fails for a value with an escape, which is returned decoded and not as it
  stands in the link, and for a value with a \<open>;\<close>, whose piece is skipped: the link
  \<open>/workspaces?offset=1%30\<close> gives \<open>10\<close>, and \<open>/workspaces?offset=1;2\<close>
  gives the empty string.
\<close>

theorem C7_escaped_offset_not_literal:
  "Parse ''/workspaces?offset=1%30'' =
     Inr (emptyURL\<lparr>Path := ''/workspaces'', RawQuery := ''offset=1%30''\<rparr>) \<and>
   strings_Split ''offset=1%30'' (CHR ''&'') = [''offset=1%30''] \<and>
   GetOffsetForTheNextPageFromURL E0 ''/workspaces?offset=1%30'' = ''10'' \<and>
   Parse ''/workspaces?offset=1;2'' =
     Inr (emptyURL\<lparr>Path := ''/workspaces'', RawQuery := ''offset=1;2''\<rparr>) \<and>
   GetOffsetForTheNextPageFromURL E0 ''/workspaces?offset=1;2'' = ''''"
  by code_simp

theorem C7_next_offset_from_link_witness:
  "Parse ''.../workspaces?limit=10&offset=10'' =
     Inr (emptyURL\<lparr>Path := ''.../workspaces'', RawQuery := ''limit=10&offset=10''\<rparr>) \<and>
   decodedPairs ''limit=10&offset=10'' = [(''limit'', ''10''), (''offset'', ''10'')] \<and>
   GetOffsetForTheNextPageFromURL E0 ''.../workspaces?limit=10&offset=10'' = ''10'' \<and>
   GetOffsetForTheNextPageFromURL E0 '''' = '''' \<and>
   decodePair ''offset=10'' = Some (''offset'', ''10'')"
proof -
  let ?u = "emptyURL\<lparr>Path := ''.../workspaces'', RawQuery := ''limit=10&offset=10''\<rparr>"
  have p: "Parse ''.../workspaces?limit=10&offset=10'' = Inr ?u" by code_simp
  have q: "RawQuery ?u = ''limit=10&offset=10''" by (simp add: emptyURL_def)
  have d: "decodedPairs ''limit=10&offset=10'' = [(''limit'', ''10''), (''offset'', ''10'')]"
    by code_simp
  have f: "firstValue ''offset'' [(''limit'', ''10''), (''offset'', ''10'')] = ''10''"
    by (simp add: firstValue_def)
  have n: "CHR '';'' \<notin> set ''10'' \<and> CHR ''%'' \<notin> set ''10'' \<and> CHR ''+'' \<notin> set ''10''"
    by simp
  note t = C7_next_offset_from_link [of E0 "''.../workspaces?limit=10&offset=10''" ?u "''10''"]
  from t [THEN conjunct1] have r0: "GetOffsetForTheNextPageFromURL E0 '''' = ''''"
    by (simp only: E0_library)
  from t [THEN conjunct2, THEN conjunct1, THEN mp, OF p, THEN conjunct2]
  have r1: "GetOffsetForTheNextPageFromURL E0 ''.../workspaces?limit=10&offset=10'' = ''10''"
    by (simp only: E0_library q d f)
  from t [THEN conjunct2, THEN conjunct2, THEN mp, OF n]
  have r2: "decodePair ''offset=10'' = Some (''offset'', ''10'')" by simp
  from p d r1 r0 r2 show ?thesis by (intro conjI)
qed

text \<open>
  C9. \<open>GetOffsetForTheNextPageFromURL\<close> returns a string for every input and has no
  error result: the result is the empty string, or the link parsed and the result is the
  first value of its \<open>offset\<close> parameter. When \<open>url.Parse\<close> fails, and when the
  parsed link has no \<open>offset\<close> parameter, the result is the empty string.
\<close>

theorem C9_next_offset_total:
  "(GetOffsetForTheNextPageFromURL E urlPayload = '''' \<or>
    (\<exists>u v vs. url_Parse E urlPayload = Inr u \<and> url_Query E u ''offset'' = Some (v # vs) \<and>
               GetOffsetForTheNextPageFromURL E urlPayload = v))
   \<and> (url_Parse E urlPayload = Inl err \<longrightarrow> GetOffsetForTheNextPageFromURL E urlPayload = '''')
   \<and> (url_Parse E urlPayload = Inr u \<and> url_Query E u ''offset'' = None
        \<longrightarrow> GetOffsetForTheNextPageFromURL E urlPayload = '''')"
  by (auto simp add: GetOffsetForTheNextPageFromURL_def Values_Get_def
           split: sum.splits option.splits list.splits)

theorem C9_next_offset_total_witness:
  "url_Parse E0 [CHR 0x7F] =
     Inl (Wrap ''parse'' (Err ''net/url: invalid control character in URL'')) \<and>
   GetOffsetForTheNextPageFromURL E0 [CHR 0x7F] = '''' \<and>
   url_Parse E0 ''.../workspaces?limit=10'' =
     Inr (emptyURL\<lparr>Path := ''.../workspaces'', RawQuery := ''limit=10''\<rparr>) \<and>
   url_Query E0 (emptyURL\<lparr>Path := ''.../workspaces'', RawQuery := ''limit=10''\<rparr>) ''offset''
     = None \<and>
   GetOffsetForTheNextPageFromURL E0 ''.../workspaces?limit=10'' = ''''"
proof -
  let ?u = "emptyURL\<lparr>Path := ''.../workspaces'', RawQuery := ''limit=10''\<rparr>"
  have p1: "url_Parse E0 [CHR 0x7F] =
              Inl (Wrap ''parse'' (Err ''net/url: invalid control character in URL''))"
    by code_simp
  have p2: "url_Parse E0 ''.../workspaces?limit=10'' = Inr ?u"
    by code_simp
  have q2: "url_Query E0 ?u ''offset'' = None"
    by code_simp
  from C9_next_offset_total
         [of E0 "[CHR 0x7F]" "Wrap ''parse'' (Err ''net/url: invalid control character in URL'')"]
       p1
  have r1: "GetOffsetForTheNextPageFromURL E0 [CHR 0x7F] = ''''" by blast
  from C9_next_offset_total [of E0 "''.../workspaces?limit=10''" _ ?u] p2 q2
  have r2: "GetOffsetForTheNextPageFromURL E0 ''.../workspaces?limit=10'' = ''''" by blast
  from p1 p2 q2 r1 r2 show ?thesis by (intro conjI)
qed

section \<open>Properties of the permission resolution for workspace grants\<close>

lemmas permission_defs =
  PublicWorkspacePermissionsTypes_def PublicOrganizationPermissionsTypes_def
  WorkspaceAdmin_def WorkspaceEditor_def WorkspaceRunner_def WorkspaceReader_def
  OrganizationAdmin_def OrganizationEditor_def OrganizationRunner_def
  OrganizationReader_def OrganizationMember_def

lemma resolvePermissionType_fallback:
  "WorkspacePermission u = None \<Longrightarrow> OrganizationPermission u = Some orgPerm \<Longrightarrow>
   resolvePermissionType E u =
     (case orgToWorkspacePermMap (strings_ToLower E (PR_PermissionType orgPerm)) of
        Some mappedPerm \<Rightarrow> mappedPerm | None \<Rightarrow> '''')"
  by (simp add: resolvePermissionType_def mapRead_def split: option.splits)

lemma orgToWorkspacePermMap_admin:
  "orgToWorkspacePermMap ''organization_admin'' = Some ''workspace_admin''"
  by (simp add: orgToWorkspacePermMap_def WorkspaceAdmin_def)

lemma orgToWorkspacePermMap_editor:
  "orgToWorkspacePermMap ''organization_editor'' = Some ''workspace_editor''"
  by (simp add: orgToWorkspacePermMap_def WorkspaceEditor_def)

lemma orgToWorkspacePermMap_runner:
  "orgToWorkspacePermMap ''organization_runner'' = Some ''workspace_runner''"
  by (simp add: orgToWorkspacePermMap_def WorkspaceRunner_def)

lemma orgToWorkspacePermMap_reader:
  "orgToWorkspacePermMap ''organization_reader'' = Some ''workspace_reader''"
  by (simp add: orgToWorkspacePermMap_def WorkspaceReader_def)

lemma orgToWorkspacePermMap_other:
  "t \<notin> {''organization_admin'', ''organization_editor'', ''organization_runner'',
         ''organization_reader''} \<Longrightarrow> orgToWorkspacePermMap t = None"
  by (simp add: orgToWorkspacePermMap_def)

lemma organization_member_not_mapped:
  "''organization_member'' \<notin> {''organization_admin'', ''organization_editor'',
      ''organization_runner'', ''organization_reader''}"
  by simp

lemma empty_not_a_permission:
  "'''' \<notin> set PublicWorkspacePermissionsTypes" "'''' \<notin> set PublicOrganizationPermissionsTypes"
  by (simp_all add: permission_defs)

lemma workspace_Grants_loop_skip:
  "resolvePermissionType E u = '''' \<Longrightarrow>
   workspace_Grants_loop E resource (u # rest) rv = workspace_Grants_loop E resource rest rv"
  by (simp add: empty_not_a_permission)

lemma userResource_Inr:
  "userResource E user = Inr r \<Longrightarrow>
     Res_Id r = \<lparr>ResourceType = userResourceType_Id E, Resource = U_ID user\<rparr>"
  by (auto simp add: userResource_def NewUserResource_def NewResource_def WithUserTrait_def
        WithAnnotation_def Let_def split: option.splits sum.splits)

lemma userResource_succeeds:
  "\<forall>opts. sdk_NewUserTrait_error E opts = None \<Longrightarrow> \<exists>r. userResource E user = Inr r"
  by (simp add: userResource_def NewUserResource_def NewResource_def WithUserTrait_def
        WithAnnotation_def Let_def)

lemma workspace_Grants_loop_step:
  "workspace_Grants_loop E resource (u # rest) rv =
     (if resolvePermissionType E u \<in>
           set PublicWorkspacePermissionsTypes \<union> set PublicOrganizationPermissionsTypes
      then (case userResource E \<lparr>U_ID = UserID u, U_Email = UserEmail u, U_Name = UserName u\<rparr> of
              Inl err \<Rightarrow> Inl err
            | Inr ur \<Rightarrow>
                workspace_Grants_loop E resource rest
                  (rv @ [NewGrant resource (resolvePermissionType E u) (Res_Id ur)]))
      else workspace_Grants_loop E resource rest rv)"
  by (simp add: Let_def)

lemma workspace_Grants_loop_grants:
  "workspace_Grants_loop E resource us rv = Inr grants \<Longrightarrow>
   grants = rv @
     map (\<lambda>u. NewGrant resource (resolvePermissionType E u)
                 \<lparr>ResourceType = userResourceType_Id E, Resource = UserID u\<rparr>)
         (filter (\<lambda>u. resolvePermissionType E u \<in>
                         set PublicWorkspacePermissionsTypes \<union>
                         set PublicOrganizationPermissionsTypes) us)"
proof (induction us arbitrary: rv)
  case Nil
  then show ?case by simp
next
  case (Cons u us)
  let ?user = "\<lparr>U_ID = UserID u, U_Email = UserEmail u, U_Name = UserName u\<rparr>"
  show ?case
  proof (cases "resolvePermissionType E u \<in>
                  set PublicWorkspacePermissionsTypes \<union> set PublicOrganizationPermissionsTypes")
    case False
    with Cons.prems have "workspace_Grants_loop E resource us rv = Inr grants"
      by (simp only: workspace_Grants_loop_step if_False)
    from Cons.IH [OF this] False show ?thesis by simp
  next
    case True
    with Cons.prems
    have step: "(case userResource E ?user of
                   Inl err \<Rightarrow> Inl err
                 | Inr ur \<Rightarrow> workspace_Grants_loop E resource us
                     (rv @ [NewGrant resource (resolvePermissionType E u) (Res_Id ur)])) = Inr grants"
      by (simp only: workspace_Grants_loop_step if_True)
    then obtain ur :: Resource_v2 where
      ur: "userResource E ?user = Inr ur" and
      run: "workspace_Grants_loop E resource us
              (rv @ [NewGrant resource (resolvePermissionType E u) (Res_Id ur)]) = Inr grants"
      by (cases "userResource E ?user") auto
    from userResource_Inr [OF ur]
    have id: "Res_Id ur = \<lparr>ResourceType = userResourceType_Id E, Resource = UserID u\<rparr>"
      by simp
    from Cons.IH [OF run] True id show ?thesis by simp
  qed
qed

lemma workspace_Grants_loop_succeeds:
  "\<forall>opts. sdk_NewUserTrait_error E opts = None \<Longrightarrow>
   \<exists>grants. workspace_Grants_loop E resource us rv = Inr grants"
proof (induction us arbitrary: rv)
  case Nil
  show ?case by simp
next
  case (Cons u us)
  from userResource_succeeds [OF Cons.prems]
  obtain ur :: Resource_v2 where
    "userResource E \<lparr>U_ID = UserID u, U_Email = UserEmail u, U_Name = UserName u\<rparr> = Inr ur"
    by blast
  with Cons.IH [OF Cons.prems] show ?case
    by (simp only: workspace_Grants_loop_step sum.case split: if_splits) auto
qed

lemma workspace_Grants_fst:
  "fst (workspace_Grants E resource s) =
     (case fst (ListUsersWithAccessInfoByWorkspace E (Resource (Res_Id resource)) s) of
        Inl err \<Rightarrow>
          Inl (Errorf (''airbyte-connector: failed to list users under workspace ''
                       @ Resource (Res_Id resource)) err)
      | Inr users \<Rightarrow>
          (case workspace_Grants_loop E resource users [] of
             Inl err \<Rightarrow> Inl err
           | Inr rv \<Rightarrow> Inr (rv, '''')))"
  by (simp add: workspace_Grants_def split: prod.splits sum.splits)

lemma workspace_Grants_grants:
  assumes "fst (ListUsersWithAccessInfoByWorkspace E (Resource (Res_Id resource)) s) = Inr users"
      and "fst (workspace_Grants E resource s) = Inr (grants, next)"
  shows "grants =
     map (\<lambda>u. NewGrant resource (resolvePermissionType E u)
                 \<lparr>ResourceType = userResourceType_Id E, Resource = UserID u\<rparr>)
         (filter (\<lambda>u. resolvePermissionType E u \<in>
                         set PublicWorkspacePermissionsTypes \<union>
                         set PublicOrganizationPermissionsTypes) users)"
    and "next = ''''"
proof -
  from assms have "workspace_Grants_loop E resource users [] = Inr grants \<and> next = ''''"
    by (simp add: workspace_Grants_fst split: sum.splits)
  then have l: "workspace_Grants_loop E resource users [] = Inr grants" and n: "next = ''''"
    by simp_all
  from workspace_Grants_loop_grants [OF l] show "grants =
     map (\<lambda>u. NewGrant resource (resolvePermissionType E u)
                 \<lparr>ResourceType = userResourceType_Id E, Resource = UserID u\<rparr>)
         (filter (\<lambda>u. resolvePermissionType E u \<in>
                         set PublicWorkspacePermissionsTypes \<union>
                         set PublicOrganizationPermissionsTypes) users)"
    by simp
  from n show "next = ''''" .
qed

lemma workspace_Grants_succeeds:
  assumes "\<forall>opts. sdk_NewUserTrait_error E opts = None"
      and "fst (ListUsersWithAccessInfoByWorkspace E (Resource (Res_Id resource)) s) = Inr users"
  shows "\<exists>grants. fst (workspace_Grants E resource s) = Inr (grants, '''')"
proof -
  from workspace_Grants_loop_succeeds [OF assms(1), of resource users "[]"]
  obtain grants where "workspace_Grants_loop E resource users [] = Inr grants" ..
  with assms(2) have "fst (workspace_Grants E resource s) = Inr (grants, '''')"
    by (simp add: workspace_Grants_fst)
  then show ?thesis ..
qed

lemma workspace_permission_members:
  "''workspace_admin'' \<in> set PublicWorkspacePermissionsTypes"
  "''workspace_editor'' \<in> set PublicWorkspacePermissionsTypes"
  "''workspace_runner'' \<in> set PublicWorkspacePermissionsTypes"
  "''workspace_reader'' \<in> set PublicWorkspacePermissionsTypes"
  by (simp_all add: permission_defs)

text \<open>
  C2. Let \<open>workspaceBuilder.Grants\<close> return its grants for a workspace whose access
  list holds a record \<open>u\<close> without a workspace permission and with an organization
  permission whose lower-cased type is \<open>t\<close>. The grants are those emitted for the
  records before \<open>u\<close>, then what \<open>u\<close> gives, then those emitted for the records after
  \<open>u\<close>. For \<open>organization_admin\<close> the record \<open>u\<close> gives one grant of
  \<open>workspace_admin\<close> to the user of \<open>u\<close>, for \<open>organization_editor\<close> one of
  \<open>workspace_editor\<close>, for \<open>organization_runner\<close> one of \<open>workspace_runner\<close>, for
  \<open>organization_reader\<close> one of \<open>workspace_reader\<close>. For \<open>organization_member\<close>,
  and for every type outside the table, the resolved type is empty and \<open>u\<close> gives no
  grant. \<open>Grants\<close> does return its grants whenever the listing of the access records
  succeeds and the SDK accepts the user traits.
\<close>

theorem C2_organization_fallback:
  "(WorkspacePermission u = None \<and> OrganizationPermission u = Some orgPerm \<and>
    strings_ToLower E (PR_PermissionType orgPerm) = t \<and>
    fst (ListUsersWithAccessInfoByWorkspace E (Resource (Res_Id resource)) s) = Inr (us @ u # vs) \<and>
    fst (workspace_Grants E resource s) = Inr (grants, next) \<longrightarrow>
      (let emitted = (\<lambda>records.
             map (\<lambda>r. NewGrant resource (resolvePermissionType E r)
                         \<lparr>ResourceType = userResourceType_Id E, Resource = UserID r\<rparr>)
                 (filter (\<lambda>r. resolvePermissionType E r \<in>
                                 set PublicWorkspacePermissionsTypes \<union>
                                 set PublicOrganizationPermissionsTypes) records));
           grantOf = (\<lambda>permissionType.
             NewGrant resource permissionType
               \<lparr>ResourceType = userResourceType_Id E, Resource = UserID u\<rparr>)
       in (t = ''organization_admin'' \<longrightarrow>
             resolvePermissionType E u = ''workspace_admin'' \<and>
             grants = emitted us @ [grantOf ''workspace_admin''] @ emitted vs) \<and>
          (t = ''organization_editor'' \<longrightarrow>
             resolvePermissionType E u = ''workspace_editor'' \<and>
             grants = emitted us @ [grantOf ''workspace_editor''] @ emitted vs) \<and>
          (t = ''organization_runner'' \<longrightarrow>
             resolvePermissionType E u = ''workspace_runner'' \<and>
             grants = emitted us @ [grantOf ''workspace_runner''] @ emitted vs) \<and>
          (t = ''organization_reader'' \<longrightarrow>
             resolvePermissionType E u = ''workspace_reader'' \<and>
             grants = emitted us @ [grantOf ''workspace_reader''] @ emitted vs) \<and>
          (t = ''organization_member'' \<or>
           t \<notin> {''organization_admin'', ''organization_editor'', ''organization_runner'',
                 ''organization_reader''} \<longrightarrow>
             resolvePermissionType E u = '''' \<and> grants = emitted us @ emitted vs)))
   \<and> ((\<forall>opts. sdk_NewUserTrait_error E opts = None) \<and>
       fst (ListUsersWithAccessInfoByWorkspace E (Resource (Res_Id resource)) s) = Inr users
       \<longrightarrow> (\<exists>grants. fst (workspace_Grants E resource s) = Inr (grants, '''')))"
proof (rule conjI)
  show "(\<forall>opts. sdk_NewUserTrait_error E opts = None) \<and>
       fst (ListUsersWithAccessInfoByWorkspace E (Resource (Res_Id resource)) s) = Inr users
       \<longrightarrow> (\<exists>grants. fst (workspace_Grants E resource s) = Inr (grants, ''''))"
    using workspace_Grants_succeeds by blast
next
  let ?keeps = "\<lambda>r. resolvePermissionType E r \<in>
                      set PublicWorkspacePermissionsTypes \<union> set PublicOrganizationPermissionsTypes"
  let ?emitted = "\<lambda>records.
             map (\<lambda>r. NewGrant resource (resolvePermissionType E r)
                         \<lparr>ResourceType = userResourceType_Id E, Resource = UserID r\<rparr>)
                 (filter ?keeps records)"
  let ?grantOf = "\<lambda>permissionType.
             NewGrant resource permissionType
               \<lparr>ResourceType = userResourceType_Id E, Resource = UserID u\<rparr>"
  let ?own = "if ?keeps u then [?grantOf (resolvePermissionType E u)] else []"
  show "WorkspacePermission u = None \<and> OrganizationPermission u = Some orgPerm \<and>
    strings_ToLower E (PR_PermissionType orgPerm) = t \<and>
    fst (ListUsersWithAccessInfoByWorkspace E (Resource (Res_Id resource)) s) = Inr (us @ u # vs) \<and>
    fst (workspace_Grants E resource s) = Inr (grants, next) \<longrightarrow>
      (let emitted = ?emitted; grantOf = ?grantOf
       in (t = ''organization_admin'' \<longrightarrow>
             resolvePermissionType E u = ''workspace_admin'' \<and>
             grants = emitted us @ [grantOf ''workspace_admin''] @ emitted vs) \<and>
          (t = ''organization_editor'' \<longrightarrow>
             resolvePermissionType E u = ''workspace_editor'' \<and>
             grants = emitted us @ [grantOf ''workspace_editor''] @ emitted vs) \<and>
          (t = ''organization_runner'' \<longrightarrow>
             resolvePermissionType E u = ''workspace_runner'' \<and>
             grants = emitted us @ [grantOf ''workspace_runner''] @ emitted vs) \<and>
          (t = ''organization_reader'' \<longrightarrow>
             resolvePermissionType E u = ''workspace_reader'' \<and>
             grants = emitted us @ [grantOf ''workspace_reader''] @ emitted vs) \<and>
          (t = ''organization_member'' \<or>
           t \<notin> {''organization_admin'', ''organization_editor'', ''organization_runner'',
                 ''organization_reader''} \<longrightarrow>
             resolvePermissionType E u = '''' \<and> grants = emitted us @ emitted vs))"
    unfolding Let_def
  proof (rule impI, elim conjE)
    assume w: "WorkspacePermission u = None"
       and p: "OrganizationPermission u = Some orgPerm"
       and t: "strings_ToLower E (PR_PermissionType orgPerm) = t"
       and l: "fst (ListUsersWithAccessInfoByWorkspace E (Resource (Res_Id resource)) s) =
                 Inr (us @ u # vs)"
       and g: "fst (workspace_Grants E resource s) = Inr (grants, next)"
    have r: "resolvePermissionType E u =
               (case orgToWorkspacePermMap t of Some mappedPerm \<Rightarrow> mappedPerm | None \<Rightarrow> '''')"
      using resolvePermissionType_fallback [OF w p, of E] t by simp
    from workspace_Grants_grants(1) [OF l g]
    have all: "grants = ?emitted us @ ?own @ ?emitted vs" by simp
    have kept: "grants = ?emitted us @ [?grantOf w'] @ ?emitted vs"
      if "resolvePermissionType E u = w'" "w' \<in> set PublicWorkspacePermissionsTypes" for w'
    proof -
      from that have "?own = [?grantOf w']" by simp
      with all show ?thesis by (simp only:)
    qed
    have admin: "t = ''organization_admin'' \<longrightarrow>
             resolvePermissionType E u = ''workspace_admin'' \<and>
             grants = ?emitted us @ [?grantOf ''workspace_admin''] @ ?emitted vs"
    proof
      assume "t = ''organization_admin''"
      with r have x: "resolvePermissionType E u = ''workspace_admin''"
        by (simp only: orgToWorkspacePermMap_admin option.case)
      from x kept [OF x workspace_permission_members(1)] show
        "resolvePermissionType E u = ''workspace_admin'' \<and>
         grants = ?emitted us @ [?grantOf ''workspace_admin''] @ ?emitted vs" by (rule conjI)
    qed
    have editor: "t = ''organization_editor'' \<longrightarrow>
             resolvePermissionType E u = ''workspace_editor'' \<and>
             grants = ?emitted us @ [?grantOf ''workspace_editor''] @ ?emitted vs"
    proof
      assume "t = ''organization_editor''"
      with r have x: "resolvePermissionType E u = ''workspace_editor''"
        by (simp only: orgToWorkspacePermMap_editor option.case)
      from x kept [OF x workspace_permission_members(2)] show
        "resolvePermissionType E u = ''workspace_editor'' \<and>
         grants = ?emitted us @ [?grantOf ''workspace_editor''] @ ?emitted vs" by (rule conjI)
    qed
    have runner: "t = ''organization_runner'' \<longrightarrow>
             resolvePermissionType E u = ''workspace_runner'' \<and>
             grants = ?emitted us @ [?grantOf ''workspace_runner''] @ ?emitted vs"
    proof
      assume "t = ''organization_runner''"
      with r have x: "resolvePermissionType E u = ''workspace_runner''"
        by (simp only: orgToWorkspacePermMap_runner option.case)
      from x kept [OF x workspace_permission_members(3)] show
        "resolvePermissionType E u = ''workspace_runner'' \<and>
         grants = ?emitted us @ [?grantOf ''workspace_runner''] @ ?emitted vs" by (rule conjI)
    qed
    have reader: "t = ''organization_reader'' \<longrightarrow>
             resolvePermissionType E u = ''workspace_reader'' \<and>
             grants = ?emitted us @ [?grantOf ''workspace_reader''] @ ?emitted vs"
    proof
      assume "t = ''organization_reader''"
      with r have x: "resolvePermissionType E u = ''workspace_reader''"
        by (simp only: orgToWorkspacePermMap_reader option.case)
      from x kept [OF x workspace_permission_members(4)] show
        "resolvePermissionType E u = ''workspace_reader'' \<and>
         grants = ?emitted us @ [?grantOf ''workspace_reader''] @ ?emitted vs" by (rule conjI)
    qed
    have other: "t = ''organization_member'' \<or>
           t \<notin> {''organization_admin'', ''organization_editor'', ''organization_runner'',
                 ''organization_reader''} \<longrightarrow>
             resolvePermissionType E u = '''' \<and> grants = ?emitted us @ ?emitted vs"
    proof
      assume "t = ''organization_member'' \<or>
        t \<notin> {''organization_admin'', ''organization_editor'', ''organization_runner'',
              ''organization_reader''}"
      then have "t \<notin> {''organization_admin'', ''organization_editor'', ''organization_runner'',
              ''organization_reader''}"
      proof
        assume "t = ''organization_member''"
        then show ?thesis by (simp only: organization_member_not_mapped not_False_eq_True)
      qed
      then have "orgToWorkspacePermMap t = None" by (rule orgToWorkspacePermMap_other)
      with r have e: "resolvePermissionType E u = ''''" by simp
      with empty_not_a_permission have "?own = []" by simp
      with all have "grants = ?emitted us @ ?emitted vs" by simp
      with e show "resolvePermissionType E u = '''' \<and> grants = ?emitted us @ ?emitted vs"
        by (rule conjI)
    qed
    from admin editor runner reader other show
      "(t = ''organization_admin'' \<longrightarrow>
             resolvePermissionType E u = ''workspace_admin'' \<and>
             grants = ?emitted us @ [?grantOf ''workspace_admin''] @ ?emitted vs) \<and>
          (t = ''organization_editor'' \<longrightarrow>
             resolvePermissionType E u = ''workspace_editor'' \<and>
             grants = ?emitted us @ [?grantOf ''workspace_editor''] @ ?emitted vs) \<and>
          (t = ''organization_runner'' \<longrightarrow>
             resolvePermissionType E u = ''workspace_runner'' \<and>
             grants = ?emitted us @ [?grantOf ''workspace_runner''] @ ?emitted vs) \<and>
          (t = ''organization_reader'' \<longrightarrow>
             resolvePermissionType E u = ''workspace_reader'' \<and>
             grants = ?emitted us @ [?grantOf ''workspace_reader''] @ ?emitted vs) \<and>
          (t = ''organization_member'' \<or>
           t \<notin> {''organization_admin'', ''organization_editor'', ''organization_runner'',
                 ''organization_reader''} \<longrightarrow>
             resolvePermissionType E u = '''' \<and> grants = ?emitted us @ ?emitted vs)"
      by (intro conjI)
  qed
qed

theorem C2_organization_fallback_witness:
  "WorkspacePermission demo_ann = None \<and>
   map_option PR_PermissionType (OrganizationPermission demo_ann) = Some ''ORGANIZATION_ADMIN'' \<and>
   strings_ToLower E0 ''ORGANIZATION_ADMIN'' = ''organization_admin'' \<and>
   WorkspacePermission demo_bob = None \<and>
   map_option PR_PermissionType (OrganizationPermission demo_bob) = Some ''organization_member'' \<and>
   strings_ToLower E0 ''organization_member'' = ''organization_member'' \<and>
   fst (ListUsersWithAccessInfoByWorkspace E0 (Resource (Res_Id W1_resource)) s0) =
     Inr [demo_ann, demo_bob, demo_cy] \<and>
   fst (workspace_Grants E0 W1_resource s0) =
     Inr ([NewGrant W1_resource ''workspace_admin'' \<lparr>ResourceType = ''user'', Resource = ''u1''\<rparr>,
           NewGrant W1_resource ''workspace_reader'' \<lparr>ResourceType = ''user'', Resource = ''u3''\<rparr>],
          '''') \<and>
   resolvePermissionType E0 demo_ann = ''workspace_admin'' \<and>
   NewGrant W1_resource ''workspace_admin''
       \<lparr>ResourceType = userResourceType_Id E0, Resource = UserID demo_ann\<rparr>
     \<in> set [NewGrant W1_resource ''workspace_admin'' \<lparr>ResourceType = ''user'', Resource = ''u1''\<rparr>,
            NewGrant W1_resource ''workspace_reader'' \<lparr>ResourceType = ''user'', Resource = ''u3''\<rparr>] \<and>
   resolvePermissionType E0 demo_bob = '''' \<and>
   (\<exists>grants. fst (workspace_Grants E0 W1_resource s0) = Inr (grants, ''''))"
proof -
  let ?pa = "the (OrganizationPermission demo_ann)"
  let ?pb = "the (OrganizationPermission demo_bob)"
  let ?grants = "[NewGrant W1_resource ''workspace_admin'' \<lparr>ResourceType = ''user'', Resource = ''u1''\<rparr>,
           NewGrant W1_resource ''workspace_reader'' \<lparr>ResourceType = ''user'', Resource = ''u3''\<rparr>]"
  have a1: "WorkspacePermission demo_ann = None" by (simp add: demo_ann_def)
  have a2: "OrganizationPermission demo_ann = Some ?pa" by (simp add: demo_ann_def)
  have a3: "PR_PermissionType ?pa = ''ORGANIZATION_ADMIN''" by (simp add: demo_ann_def)
  have a4: "strings_ToLower E0 ''ORGANIZATION_ADMIN'' = ''organization_admin''" by code_simp
  have b1: "WorkspacePermission demo_bob = None" by (simp add: demo_bob_def)
  have b2: "OrganizationPermission demo_bob = Some ?pb" by (simp add: demo_bob_def)
  have b3: "PR_PermissionType ?pb = ''organization_member''" by (simp add: demo_bob_def)
  have b4: "strings_ToLower E0 ''organization_member'' = ''organization_member''" by code_simp
  have a34: "strings_ToLower E0 (PR_PermissionType ?pa) = ''organization_admin''"
    by (simp only: a3 a4)
  have b34: "strings_ToLower E0 (PR_PermissionType ?pb) = ''organization_member''"
    by (simp only: b3 b4)
  have l: "fst (ListUsersWithAccessInfoByWorkspace E0 (Resource (Res_Id W1_resource)) s0) =
             Inr [demo_ann, demo_bob, demo_cy]"
    by code_simp
  have la: "fst (ListUsersWithAccessInfoByWorkspace E0 (Resource (Res_Id W1_resource)) s0) =
             Inr ([] @ demo_ann # [demo_bob, demo_cy])"
    using l by simp
  have lb: "fst (ListUsersWithAccessInfoByWorkspace E0 (Resource (Res_Id W1_resource)) s0) =
             Inr ([demo_ann] @ demo_bob # [demo_cy])"
    using l by simp
  have g: "fst (workspace_Grants E0 W1_resource s0) = Inr (?grants, '''')"
    by code_simp
  have n: "\<forall>opts. sdk_NewUserTrait_error E0 opts = None" by (simp add: E0_def)
  note ca = C2_organization_fallback
              [of demo_ann ?pa E0 "''organization_admin''" W1_resource s0 "[]"
                  "[demo_bob, demo_cy]" ?grants "''''",
               THEN conjunct1, THEN mp,
               OF conjI [OF a1 conjI [OF a2 conjI [OF a34 conjI [OF la g]]]],
               unfolded Let_def, THEN conjunct1, THEN mp, OF refl]
  note cb = C2_organization_fallback
              [of demo_bob ?pb E0 "''organization_member''" W1_resource s0 "[demo_ann]"
                  "[demo_cy]" ?grants "''''",
               THEN conjunct1, THEN mp,
               OF conjI [OF b1 conjI [OF b2 conjI [OF b34 conjI [OF lb g]]]],
               unfolded Let_def, THEN conjunct2, THEN conjunct2, THEN conjunct2,
               THEN conjunct2, THEN mp, OF disjI1 [OF refl]]
  note cc = C2_organization_fallback
              [of _ _ E0 _ W1_resource s0 _ _ _ _ "[demo_ann, demo_bob, demo_cy]",
               THEN conjunct2, THEN mp, OF conjI [OF n l]]
  from ca have ra: "resolvePermissionType E0 demo_ann = ''workspace_admin''" ..
  have "NewGrant W1_resource ''workspace_admin''
          \<lparr>ResourceType = userResourceType_Id E0, Resource = UserID demo_ann\<rparr> \<in> set ?grants"
    by (subst ca [THEN conjunct2]) simp
  then have ma: "NewGrant W1_resource ''workspace_admin''
          \<lparr>ResourceType = userResourceType_Id E0, Resource = UserID demo_ann\<rparr> \<in> set ?grants" .
  from cb have rb: "resolvePermissionType E0 demo_bob = ''''" ..
  have a23: "map_option PR_PermissionType (OrganizationPermission demo_ann)
               = Some ''ORGANIZATION_ADMIN''"
    by (simp add: demo_ann_def)
  have b23: "map_option PR_PermissionType (OrganizationPermission demo_bob)
               = Some ''organization_member''"
    by (simp add: demo_bob_def)
  from a1 a23 a4 b1 b23 b4 l g ra ma rb cc show ?thesis
    by (intro conjI)
qed

section \<open>Properties of the user listing\<close>

text \<open>
  C10. With a nil parent resource id \<open>userBuilder.List\<close> returns an empty list, an
  empty token and no error, and the state (world and request log included) is the one it
  started from: no endpoint was contacted. Whenever the returned list is not empty, a
  parent resource id was supplied (its \<open>Resource\<close> is the workspace id that was asked
  for).
\<close>

theorem C10_user_List_without_parent:
  "user_List E None s = (Inr ([], ''''), s)
   \<and> (fst (user_List E parentResourceID s) = Inr (resources, next) \<and> resources \<noteq> []
        \<longrightarrow> (\<exists>pid. parentResourceID = Some pid))"
  by (cases parentResourceID) (simp_all add: user_List_def)

theorem C10_user_List_without_parent_witness:
  "user_List E0 None s0 = (Inr ([], ''''), s0) \<and>
   map Res_Id (fst (projr (fst (user_List E0 (Some W1_id) s0)))) =
     [\<lparr>ResourceType = ''user'', Resource = ''u1''\<rparr>,
      \<lparr>ResourceType = ''user'', Resource = ''u2''\<rparr>,
      \<lparr>ResourceType = ''user'', Resource = ''u3''\<rparr>] \<and>
   (\<exists>pid. Some W1_id = Some pid)"
proof -
  let ?r = "fst (user_List E0 (Some W1_id) s0)"
  have ok: "\<not> isl ?r" by code_simp
  have ids: "map Res_Id (fst (projr ?r)) =
     [\<lparr>ResourceType = ''user'', Resource = ''u1''\<rparr>,
      \<lparr>ResourceType = ''user'', Resource = ''u2''\<rparr>,
      \<lparr>ResourceType = ''user'', Resource = ''u3''\<rparr>]" by code_simp
  from ok have run: "?r = Inr (fst (projr ?r), snd (projr ?r))"
    by (cases ?r) simp_all
  from ids have ne: "fst (projr ?r) \<noteq> []" by auto
  from C10_user_List_without_parent [of E0 s0 "Some W1_id" "fst (projr ?r)" "snd (projr ?r)"]
       run ne ids
  show ?thesis by simp
qed

section \<open>Properties of the permission types of emitted grants\<close>

lemma workspace_Grants_loop_permissions:
  "workspace_Grants_loop E resource us rv = Inr grants \<Longrightarrow>
   \<forall>g \<in> set rv. Grant_Permission g \<in> A \<Longrightarrow>
   set PublicWorkspacePermissionsTypes \<union> set PublicOrganizationPermissionsTypes \<subseteq> A \<Longrightarrow>
   \<forall>g \<in> set grants. Grant_Permission g \<in> A"
proof (induction us arbitrary: rv)
  case Nil
  then show ?case by simp
next
  case (Cons u us)
  show ?case
  proof (cases "\<not> resolvePermissionType E u \<in> set PublicWorkspacePermissionsTypes \<and>
                \<not> resolvePermissionType E u \<in> set PublicOrganizationPermissionsTypes")
    case True
    with Cons.prems have "workspace_Grants_loop E resource us rv = Inr grants"
      by (simp add: Let_def)
    from Cons.IH [OF this Cons.prems(2) Cons.prems(3)] show ?thesis .
  next
    case False
    let ?user = "\<lparr>U_ID = UserID u, U_Email = UserEmail u, U_Name = UserName u\<rparr>"
    from False Cons.prems(1)
    have step: "(case userResource E ?user of
                   Inl err \<Rightarrow> Inl err
                 | Inr ur \<Rightarrow> workspace_Grants_loop E resource us
                     (rv @ [NewGrant resource (resolvePermissionType E u) (Res_Id ur)])) = Inr grants"
      by (auto simp add: Let_def)
    then obtain ur :: Resource_v2 where
      run: "workspace_Grants_loop E resource us
              (rv @ [NewGrant resource (resolvePermissionType E u) (Res_Id ur)]) = Inr grants"
      by (cases "userResource E ?user") auto
    from False Cons.prems(3)
    have "resolvePermissionType E u \<in> A" by blast
    with Cons.prems(2)
    have "\<forall>g \<in> set (rv @ [NewGrant resource (resolvePermissionType E u) (Res_Id ur)]).
            Grant_Permission g \<in> A"
      by (simp add: NewGrant_def)
    from Cons.IH [OF run this Cons.prems(3)] show ?thesis .
  qed
qed

lemma org_Grants_loop_permissions:
  "org_Grants_loop E resource users rv s = (Inr grants, s') \<Longrightarrow>
   \<forall>g \<in> set rv. Grant_Permission g \<in> set PublicOrganizationPermissionsTypes \<Longrightarrow>
   \<forall>g \<in> set grants. Grant_Permission g \<in> set PublicOrganizationPermissionsTypes"
proof (induction users arbitrary: rv s)
  case Nil
  then show ?case by simp
next
  case (Cons x users)
  show ?case
  proof (cases x)
    case None
    with Cons.prems show ?thesis by simp
  next
    case (Some user)
    obtain r s1 where
      perm: "getOrganizationPermissionType E (U_ID user) (Resource (Res_Id resource)) s = (r, s1)"
      by (cases "getOrganizationPermissionType E (U_ID user) (Resource (Res_Id resource)) s")
    show ?thesis
    proof (cases r)
      case (Inl err)
      with Cons.prems(1) Some perm show ?thesis by simp
    next
      case (Inr permissionType)
      show ?thesis
      proof (cases "permissionType \<in> set PublicOrganizationPermissionsTypes")
        case False
        with Cons.prems(1) Some perm Inr
        have "org_Grants_loop E resource users rv s1 = (Inr grants, s')" by simp
        from Cons.IH [OF this Cons.prems(2)] show ?thesis .
      next
        case True
        with Cons.prems(1) Some perm Inr
        have step: "(case userResource E user of
                       Inl err \<Rightarrow> (Inl err, s1)
                     | Inr ur \<Rightarrow> org_Grants_loop E resource users
                         (rv @ [NewGrant resource permissionType (Res_Id ur)]) s1) = (Inr grants, s')"
          by simp
        then obtain ur :: Resource_v2 where
          run: "org_Grants_loop E resource users
                  (rv @ [NewGrant resource permissionType (Res_Id ur)]) s1 = (Inr grants, s')"
          by (cases "userResource E user") auto
        from True Cons.prems(2)
        have "\<forall>g \<in> set (rv @ [NewGrant resource permissionType (Res_Id ur)]).
                Grant_Permission g \<in> set PublicOrganizationPermissionsTypes"
          by (simp add: NewGrant_def)
        from Cons.IH [OF run this] show ?thesis .
      qed
    qed
  qed
qed

lemma workspace_Grants_Inr:
  "fst (workspace_Grants E resource s) = Inr (grants, next) \<Longrightarrow>
   \<exists>us. workspace_Grants_loop E resource us [] = Inr grants"
  by (auto simp add: workspace_Grants_def split: prod.splits sum.splits)

lemma org_Grants_Inr:
  "fst (org_Grants E resource s) = Inr (grants, next) \<Longrightarrow>
   \<exists>us s1 s2. org_Grants_loop E resource us [] s1 = (Inr grants, s2)"
  by (auto simp add: org_Grants_def split: prod.splits sum.splits)

lemma orgToWorkspacePermMap_range:
  "orgToWorkspacePermMap t = Some mappedPerm \<Longrightarrow>
   mappedPerm \<in> set PublicWorkspacePermissionsTypes"
  by (auto simp add: orgToWorkspacePermMap_def PublicWorkspacePermissionsTypes_def
        split: if_splits)

lemma resolvePermissionType_fallback_range:
  assumes "WorkspacePermission u = None"
  shows "resolvePermissionType E u = '''' \<or>
         resolvePermissionType E u \<in> set PublicWorkspacePermissionsTypes"
proof (cases "OrganizationPermission u")
  case None
  with assms show ?thesis by (simp add: resolvePermissionType_def)
next
  case (Some orgPerm)
  show ?thesis
  proof (cases "orgToWorkspacePermMap (strings_ToLower E (PR_PermissionType orgPerm))")
    case None
    with resolvePermissionType_fallback [OF assms Some, of E] show ?thesis by simp
  next
    case (Some mappedPerm)
    with resolvePermissionType_fallback [OF assms \<open>OrganizationPermission u = Some orgPerm\<close>, of E]
         orgToWorkspacePermMap_range [OF Some]
    show ?thesis by simp
  qed
qed

lemma workspace_Grants_listing:
  "fst (workspace_Grants E resource s) = Inr (grants, next) \<Longrightarrow>
   \<exists>users. fst (ListUsersWithAccessInfoByWorkspace E (Resource (Res_Id resource)) s) = Inr users"
  by (cases "fst (ListUsersWithAccessInfoByWorkspace E (Resource (Res_Id resource)) s)")
     (simp_all add: workspace_Grants_fst)

text \<open>
  C3, as the code has it. Every grant returned by \<open>workspaceBuilder.Grants\<close> has a
  permission type in the workspace set or in the organization set, since the loop keeps a
  record whose resolved type is in either list. The grants returned are, in order, one for
  each record kept: its principal is the user of the record, its permission type is the
  type resolved for the record, and when the record has no workspace permission (the
  organization fallback) that type is in the workspace set. Every grant returned by
  \<open>orgBuilder.Grants\<close> has a permission type in the organization set.
\<close>

theorem C3_grant_permission_types:
  "(fst (workspace_Grants E resource s) = Inr (grants, next) \<longrightarrow>
      (\<forall>g \<in> set grants.
         Grant_Permission g \<in>
           set PublicWorkspacePermissionsTypes \<union> set PublicOrganizationPermissionsTypes) \<and>
      (\<exists>users.
         fst (ListUsersWithAccessInfoByWorkspace E (Resource (Res_Id resource)) s) = Inr users \<and>
         list_all2
           (\<lambda>g u. Grant_Principal g =
                     \<lparr>ResourceType = userResourceType_Id E, Resource = UserID u\<rparr> \<and>
                   Grant_Permission g = resolvePermissionType E u \<and>
                   (WorkspacePermission u = None \<longrightarrow>
                      Grant_Permission g \<in> set PublicWorkspacePermissionsTypes))
           grants
           (filter (\<lambda>u. resolvePermissionType E u \<in>
                           set PublicWorkspacePermissionsTypes \<union>
                           set PublicOrganizationPermissionsTypes) users)))
   \<and> (fst (org_Grants E resource s) = Inr (grants', next') \<longrightarrow>
        (\<forall>g \<in> set grants'. Grant_Permission g \<in> set PublicOrganizationPermissionsTypes))"
proof (intro conjI impI)
  assume g: "fst (workspace_Grants E resource s) = Inr (grants, next)"
  then obtain us where "workspace_Grants_loop E resource us [] = Inr grants"
    using workspace_Grants_Inr by blast
  from workspace_Grants_loop_permissions
         [OF this, of "set PublicWorkspacePermissionsTypes \<union> set PublicOrganizationPermissionsTypes"]
  show "\<forall>g \<in> set grants.
       Grant_Permission g \<in>
         set PublicWorkspacePermissionsTypes \<union> set PublicOrganizationPermissionsTypes"
    by simp
  let ?keeps = "\<lambda>u. resolvePermissionType E u \<in>
                      set PublicWorkspacePermissionsTypes \<union> set PublicOrganizationPermissionsTypes"
  let ?P = "\<lambda>g u. Grant_Principal g =
                     \<lparr>ResourceType = userResourceType_Id E, Resource = UserID u\<rparr> \<and>
                   Grant_Permission g = resolvePermissionType E u \<and>
                   (WorkspacePermission u = None \<longrightarrow>
                      Grant_Permission g \<in> set PublicWorkspacePermissionsTypes)"
  from workspace_Grants_listing [OF g] obtain users where
    l: "fst (ListUsersWithAccessInfoByWorkspace E (Resource (Res_Id resource)) s) = Inr users" ..
  note eq = workspace_Grants_grants(1) [OF l g]
  have fb: "resolvePermissionType E u \<in> set PublicWorkspacePermissionsTypes"
    if "?keeps u" "WorkspacePermission u = None" for u
  proof -
    from resolvePermissionType_fallback_range [OF that(2), of E]
    show ?thesis
    proof
      assume "resolvePermissionType E u = ''''"
      with that(1) empty_not_a_permission show ?thesis by simp
    qed
  qed
  have "list_all2 ?P grants (filter ?keeps users)"
    by (subst eq) (simp add: list_all2_map1 list_all2_same NewGrant_def fb)
  with l show "\<exists>users.
         fst (ListUsersWithAccessInfoByWorkspace E (Resource (Res_Id resource)) s) = Inr users \<and>
         list_all2 ?P grants (filter ?keeps users)"
    by blast
next
  assume "fst (org_Grants E resource s) = Inr (grants', next')"
  then obtain us s1 s2 where "org_Grants_loop E resource us [] s1 = (Inr grants', s2)"
    using org_Grants_Inr by blast
  from org_Grants_loop_permissions [OF this] show
    "\<forall>g \<in> set grants'. Grant_Permission g \<in> set PublicOrganizationPermissionsTypes"
    by simp
qed

text \<open>
  C3 as stated fails: a record whose explicit workspace permission has the type
  \<open>organization_admin\<close> passes the test of \<open>workspaceBuilder.Grants\<close> (the type is
  in the organization list), and the grant returned carries a type outside the workspace
  set.
\<close>

theorem C3_workspace_grant_of_organization_type:
  "fst (workspace_Grants E1 W1_resource s0) =
     Inr ([NewGrant W1_resource ''organization_admin''
             \<lparr>ResourceType = ''user'', Resource = ''u4''\<rparr>], '''') \<and>
   ''organization_admin'' \<notin> set PublicWorkspacePermissionsTypes"
  by code_simp

theorem C3_grant_permission_types_witness:
  "fst (workspace_Grants E0 W1_resource s0) =
     Inr ([NewGrant W1_resource ''workspace_admin'' \<lparr>ResourceType = ''user'', Resource = ''u1''\<rparr>,
           NewGrant W1_resource ''workspace_reader'' \<lparr>ResourceType = ''user'', Resource = ''u3''\<rparr>],
          '''') \<and>
   set [''workspace_admin'', ''workspace_reader''] \<subseteq>
     set PublicWorkspacePermissionsTypes \<union> set PublicOrganizationPermissionsTypes \<and>
   fst (ListUsersWithAccessInfoByWorkspace E0 (Resource (Res_Id W1_resource)) s0) =
     Inr [demo_ann, demo_bob, demo_cy] \<and>
   filter (\<lambda>u. resolvePermissionType E0 u \<in>
                  set PublicWorkspacePermissionsTypes \<union> set PublicOrganizationPermissionsTypes)
     [demo_ann, demo_bob, demo_cy] = [demo_ann, demo_cy] \<and>
   WorkspacePermission demo_ann = None \<and>
   resolvePermissionType E0 demo_ann = ''workspace_admin'' \<and>
   ''workspace_admin'' \<in> set PublicWorkspacePermissionsTypes \<and>
   map Grant_Permission (fst (projr (fst (org_Grants E0 O1_resource s0)))) =
     [''organization_admin''] \<and>
   set [''organization_admin''] \<subseteq> set PublicOrganizationPermissionsTypes"
proof -
  let ?g1 = "NewGrant W1_resource ''workspace_admin'' \<lparr>ResourceType = ''user'', Resource = ''u1''\<rparr>"
  let ?g3 = "NewGrant W1_resource ''workspace_reader'' \<lparr>ResourceType = ''user'', Resource = ''u3''\<rparr>"
  let ?keeps = "\<lambda>u. resolvePermissionType E0 u \<in>
                  set PublicWorkspacePermissionsTypes \<union> set PublicOrganizationPermissionsTypes"
  let ?o = "fst (org_Grants E0 O1_resource s0)"
  have runw: "fst (workspace_Grants E0 W1_resource s0) = Inr ([?g1, ?g3], '''')" by code_simp
  have l: "fst (ListUsersWithAccessInfoByWorkspace E0 (Resource (Res_Id W1_resource)) s0) =
             Inr [demo_ann, demo_bob, demo_cy]"
    by code_simp
  have f: "filter ?keeps [demo_ann, demo_bob, demo_cy] = [demo_ann, demo_cy]" by code_simp
  have oko: "\<not> isl ?o" by code_simp
  have po: "map Grant_Permission (fst (projr ?o)) = [''organization_admin'']"
    by code_simp
  have ann: "WorkspacePermission demo_ann = None" by (simp add: demo_ann_def)
  from oko have runo: "?o = Inr (fst (projr ?o), snd (projr ?o))"
    by (cases ?o) simp_all
  note tw = C3_grant_permission_types
              [of E0 W1_resource s0 "[?g1, ?g3]" "''''", THEN conjunct1, THEN mp, OF runw]
  note to = C3_grant_permission_types
              [of E0 O1_resource s0 _ _ "fst (projr ?o)" "snd (projr ?o)"]
  from tw [THEN conjunct1]
  have sw: "set [''workspace_admin'', ''workspace_reader''] \<subseteq>
          set PublicWorkspacePermissionsTypes \<union> set PublicOrganizationPermissionsTypes"
    by (simp add: NewGrant_def)
  from tw [THEN conjunct2] l f
  have "list_all2
           (\<lambda>g u. Grant_Principal g =
                     \<lparr>ResourceType = userResourceType_Id E0, Resource = UserID u\<rparr> \<and>
                   Grant_Permission g = resolvePermissionType E0 u \<and>
                   (WorkspacePermission u = None \<longrightarrow>
                      Grant_Permission g \<in> set PublicWorkspacePermissionsTypes))
           [?g1, ?g3] [demo_ann, demo_cy]"
    by auto
  then have c: "Grant_Permission ?g1 = resolvePermissionType E0 demo_ann \<and>
             (WorkspacePermission demo_ann = None \<longrightarrow>
                Grant_Permission ?g1 \<in> set PublicWorkspacePermissionsTypes)"
    by blast
  have gp: "Grant_Permission ?g1 = ''workspace_admin''" by (simp add: NewGrant_def)
  from c have "Grant_Permission ?g1 = resolvePermissionType E0 demo_ann" ..
  from this [symmetric] gp
  have rann: "resolvePermissionType E0 demo_ann = ''workspace_admin''" by (rule trans)
  from c ann have "Grant_Permission ?g1 \<in> set PublicWorkspacePermissionsTypes" by blast
  then have mem: "''workspace_admin'' \<in> set PublicWorkspacePermissionsTypes"
    unfolding gp .
  from to [THEN conjunct2, THEN mp, OF runo]
  have "set (map Grant_Permission (fst (projr ?o))) \<subseteq> set PublicOrganizationPermissionsTypes"
    by auto
  then have so: "set [''organization_admin''] \<subseteq> set PublicOrganizationPermissionsTypes"
    by (simp only: po)
  from runw sw l f ann rann mem po so show ?thesis by (intro conjI)
qed

section \<open>Properties of the token manager\<close>

lemma doRequest_skipAuth:
  "doRequest E ep meth urlAddress body True s = sendRequest ep meth urlAddress body None s"
  by (simp add: doRequest_def)

lemma sendRequest_effect:
  "sendRequest ep meth urlAddress body auth s = (r, s') \<Longrightarrow>
   client s' = client s \<and> workspacesWithOrgIDMap s' = workspacesWithOrgIDMap s \<and>
   trace s' = trace s @ [\<lparr>req_method = meth, req_url = urlAddress,
                          req_authorization = auth, req_body = body\<rparr>] \<and>
   (r, world s') = ep \<lparr>req_method = meth, req_url = urlAddress,
                       req_authorization = auth, req_body = body\<rparr> (world s)"
  by (auto simp add: sendRequest_def Let_def split: prod.splits)

lemma GetAccessToken_state:
  "client (snd (GetAccessToken E s)) = client s \<and>
   workspacesWithOrgIDMap (snd (GetAccessToken E s)) = workspacesWithOrgIDMap s \<and>
   trace (snd (GetAccessToken E s)) = trace s @ [tokenExchangeRequest (client s)]"
proof -
  obtain r s1 where sr: "sendRequest (http_getAccessToken E) ''POST''
             (buildResourceURL (client s) getAccessTokenPath [] [])
             (Some (getAccessTokenBody (client s))) None s = (r, s1)"
    by (cases "sendRequest (http_getAccessToken E) ''POST''
             (buildResourceURL (client s) getAccessTokenPath [] [])
             (Some (getAccessTokenBody (client s))) None s")
  from sendRequest_effect [OF sr]
  have eff: "client s1 = client s" "workspacesWithOrgIDMap s1 = workspacesWithOrgIDMap s"
            "trace s1 = trace s @ [tokenExchangeRequest (client s)]"
    by (simp_all add: tokenExchangeRequest_def)
  have "snd (GetAccessToken E s) = s1"
    using sr by (simp add: GetAccessToken_def Let_def split: sum.splits)
  with eff show ?thesis by simp
qed

lemma GetAccessToken_fst:
  "fst (GetAccessToken E s) =
     (case fst (http_getAccessToken E (tokenExchangeRequest (client s)) (world s)) of
        Inl err \<Rightarrow> Inl err
      | Inr tokenResp \<Rightarrow>
          (let parts = strings_Split (AccessToken tokenResp) (CHR ''.'') in
           if length parts \<noteq> 3 then Inl (Err ''invalid JWT token format'')
           else (case base64_RawURLEncoding_DecodeString E (parts ! 1) of
                   Inl err \<Rightarrow> Inl (Errorf ''error decoding JWT claims'' err)
                 | Inr claimsJSON \<Rightarrow>
                     (case json_Unmarshal_JWTClaims E claimsJSON of
                        Inl err \<Rightarrow> Inl (Errorf ''error parsing JWT claims'' err)
                      | Inr claims \<Rightarrow>
                          Inr (AccessToken tokenResp, time_Unix (ExpiresAt claims))))))"
  by (simp add: GetAccessToken_def sendRequest_def tokenExchangeRequest_def Let_def
        split: prod.splits sum.splits)

lemma ensureValidToken_cases:
  "ensureValidToken E s =
     (if accessToken (client s) = '''' \<or>
         time_Now E (world s) + thirty_seconds > tokenExpiry (client s)
      then (case fst (GetAccessToken E s) of
              Inl err \<Rightarrow> (Inl err, snd (GetAccessToken E s))
            | Inr (token, expiry) \<Rightarrow>
                (Inr (), (snd (GetAccessToken E s))
                   \<lparr>client := (client s)\<lparr>accessToken := token, tokenExpiry := expiry\<rparr>\<rparr>))
      else (Inr (), s))"
proof -
  obtain r s1 where g: "GetAccessToken E s = (r, s1)"
    by (cases "GetAccessToken E s")
  from GetAccessToken_state [of E s] g have "client s1 = client s" by simp
  with g show ?thesis
    by (simp add: ensureValidToken_def split: sum.splits)
qed

lemma ensureValidToken_error_keeps_client:
  "fst (ensureValidToken E s) = Inl err \<Longrightarrow> client (snd (ensureValidToken E s)) = client s"
  by (simp add: ensureValidToken_cases GetAccessToken_state split: if_splits sum.splits prod.splits)

lemma GetAccessToken_malformed:
  assumes "fst (http_getAccessToken E (tokenExchangeRequest (client s)) (world s)) = Inr tokenResp"
      and "length (strings_Split (AccessToken tokenResp) (CHR ''.'')) \<noteq> 3 \<or>
           (\<exists>err. base64_RawURLEncoding_DecodeString E
                    (strings_Split (AccessToken tokenResp) (CHR ''.'') ! 1) = Inl err) \<or>
           (\<exists>claimsJSON err. base64_RawURLEncoding_DecodeString E
                    (strings_Split (AccessToken tokenResp) (CHR ''.'') ! 1) = Inr claimsJSON \<and>
                  json_Unmarshal_JWTClaims E claimsJSON = Inl err)"
  shows "\<exists>err. fst (GetAccessToken E s) = Inl err"
  using assms by (auto simp add: GetAccessToken_fst Let_def split: sum.splits)

text \<open>
  C4. Let the token exchange answer with a token whose string does not split into exactly
  three segments at the dots, or whose middle segment \<open>base64.RawURLEncoding\<close> does
  not decode, or whose decoded claims \<open>json.Unmarshal\<close> rejects. Then
  \<open>GetAccessToken\<close> returns an error and leaves the client as it was;
  \<open>ensureValidToken\<close> leaves the stored \<open>accessToken\<close> and \<open>tokenExpiry\<close> as they
  were, and returns an error whenever it had to refresh. On every path on which
  \<open>ensureValidToken\<close> returns an error, the client is unchanged.
\<close>

theorem C4_malformed_token_not_stored:
  "(fst (http_getAccessToken E (tokenExchangeRequest (client s)) (world s)) = Inr tokenResp \<and>
    (length (strings_Split (AccessToken tokenResp) (CHR ''.'')) \<noteq> 3 \<or>
     (\<exists>err. base64_RawURLEncoding_DecodeString E
               (strings_Split (AccessToken tokenResp) (CHR ''.'') ! 1) = Inl err) \<or>
     (\<exists>claimsJSON err. base64_RawURLEncoding_DecodeString E
               (strings_Split (AccessToken tokenResp) (CHR ''.'') ! 1) = Inr claimsJSON \<and>
             json_Unmarshal_JWTClaims E claimsJSON = Inl err))
    \<longrightarrow> (\<exists>err. fst (GetAccessToken E s) = Inl err) \<and>
        client (snd (GetAccessToken E s)) = client s \<and>
        accessToken (client (snd (ensureValidToken E s))) = accessToken (client s) \<and>
        tokenExpiry (client (snd (ensureValidToken E s))) = tokenExpiry (client s) \<and>
        (accessToken (client s) = '''' \<or>
         time_Now E (world s) + thirty_seconds > tokenExpiry (client s)
           \<longrightarrow> (\<exists>err. fst (ensureValidToken E s) = Inl err)))
   \<and> (\<forall>err. fst (ensureValidToken E s) = Inl err \<longrightarrow>
            client (snd (ensureValidToken E s)) = client s)"
proof (intro conjI impI allI)
  fix err assume "fst (ensureValidToken E s) = Inl err"
  then show "client (snd (ensureValidToken E s)) = client s"
    by (rule ensureValidToken_error_keeps_client)
next
  assume h: "fst (http_getAccessToken E (tokenExchangeRequest (client s)) (world s)) = Inr tokenResp \<and>
    (length (strings_Split (AccessToken tokenResp) (CHR ''.'')) \<noteq> 3 \<or>
     (\<exists>err. base64_RawURLEncoding_DecodeString E
               (strings_Split (AccessToken tokenResp) (CHR ''.'') ! 1) = Inl err) \<or>
     (\<exists>claimsJSON err. base64_RawURLEncoding_DecodeString E
               (strings_Split (AccessToken tokenResp) (CHR ''.'') ! 1) = Inr claimsJSON \<and>
             json_Unmarshal_JWTClaims E claimsJSON = Inl err))"
  from GetAccessToken_malformed [OF h [THEN conjunct1] h [THEN conjunct2]]
  obtain e where e: "fst (GetAccessToken E s) = Inl e" ..
  show "\<exists>err. fst (GetAccessToken E s) = Inl err" using e ..
  show "client (snd (GetAccessToken E s)) = client s"
    by (simp add: GetAccessToken_state)
  have same: "client (snd (ensureValidToken E s)) = client s"
    using e by (simp add: ensureValidToken_cases GetAccessToken_state)
  show "accessToken (client (snd (ensureValidToken E s))) = accessToken (client s)"
    by (simp only: same)
  show "tokenExpiry (client (snd (ensureValidToken E s))) = tokenExpiry (client s)"
    by (simp only: same)
  assume "accessToken (client s) = '''' \<or>
          time_Now E (world s) + thirty_seconds > tokenExpiry (client s)"
  then have "fst (ensureValidToken E s) = Inl e"
    using e by (auto simp add: ensureValidToken_cases)
  then show "\<exists>err. fst (ensureValidToken E s) = Inl err" ..
qed

theorem C4_malformed_token_not_stored_witness:
  "fst (http_getAccessToken E3 (tokenExchangeRequest (client s0)) (world s0)) =
     Inr \<lparr>AccessToken = ''not-a-jwt''\<rparr> \<and>
   length (strings_Split ''not-a-jwt'' (CHR ''.'')) \<noteq> 3 \<and>
   accessToken (client s0) = '''' \<and>
   fst (GetAccessToken E3 s0) = Inl (Err ''invalid JWT token format'') \<and>
   fst (ensureValidToken E3 s0) = Inl (Err ''invalid JWT token format'') \<and>
   client (snd (ensureValidToken E3 s0)) = client s0 \<and>
   accessToken (client (snd (ensureValidToken E3 s0))) = accessToken (client s0) \<and>
   tokenExpiry (client (snd (ensureValidToken E3 s0))) = tokenExpiry (client s0)"
proof -
  have x: "fst (http_getAccessToken E3 (tokenExchangeRequest (client s0)) (world s0)) =
             Inr \<lparr>AccessToken = ''not-a-jwt''\<rparr>"
    by (simp add: E3_def)
  have n: "length (strings_Split ''not-a-jwt'' (CHR ''.'')) \<noteq> 3" by simp
  have n': "length (strings_Split (AccessToken \<lparr>AccessToken = ''not-a-jwt''\<rparr>) (CHR ''.'')) \<noteq> 3"
    using n by simp
  have a: "accessToken (client s0) = ''''" by (simp add: s0_def c0_def)
  have g: "fst (GetAccessToken E3 s0) = Inl (Err ''invalid JWT token format'')" by code_simp
  have e: "fst (ensureValidToken E3 s0) = Inl (Err ''invalid JWT token format'')" by code_simp
  note t = C4_malformed_token_not_stored
             [of E3 s0 "\<lparr>AccessToken = ''not-a-jwt''\<rparr>", THEN conjunct1, THEN mp,
              OF conjI [OF x disjI1 [OF n']]]
  note k = C4_malformed_token_not_stored
             [of E3 s0, THEN conjunct2, THEN spec, THEN mp, OF e]
  from x n a g e k t [THEN conjunct2, THEN conjunct2, THEN conjunct1]
       t [THEN conjunct2, THEN conjunct2, THEN conjunct2, THEN conjunct1]
  show ?thesis by (intro conjI)
qed

lemma time_Unix_in_range:
  assumes "sint sec \<le> 9223371974719179007"
  shows "time_Unix sec = sint sec * 1000000000"
proof -
  have k: "sint unixToInternal = 62135596800" by (simp add: unixToInternal_def)
  have lo: "- (2 ^ 63) \<le> sint sec" using sint_ge [of sec] by simp
  have "sint (sec + unixToInternal) = signed_take_bit 63 (sint sec + sint unixToInternal)"
    by (simp add: sint_word_add)
  also have "\<dots> = sint sec + sint unixToInternal"
    using assms lo k by (intro signed_take_bit_int_eq_self) simp_all
  finally show ?thesis by (simp add: time_Unix_def)
qed

lemma time_Unix_wraps:
  "time_Unix 9223371974719179008 = (- 9223372036854775808 - 62135596800) * 1000000000"
  by code_simp

text \<open>
  C5, as the code has it. When a token is held and the stored expiry is at least 30
  seconds after the current time, \<open>ensureValidToken\<close> returns without any request and
  leaves the state as it was. When no token is held, or the stored expiry is less than 30
  seconds after the current time, it hands exactly one request to the transport, the
  token exchange; and when the exchange returns a token of three segments whose claims
  decode and parse, it succeeds and the stored token and expiry are the token returned
  and \<open>time.Unix\<close> of the \<open>exp\<close> claim. That is the instant \<open>exp\<close> seconds after the
  Unix epoch for every \<open>exp\<close> up to \<open>2^63 - 1 - 62135596800\<close>; above it \<open>time.Unix\<close>
  wraps around to an instant far in the past.
\<close>

theorem C5_token_refresh:
  "(accessToken (client s) \<noteq> '''' \<and>
    time_Now E (world s) + thirty_seconds \<le> tokenExpiry (client s)
      \<longrightarrow> ensureValidToken E s = (Inr (), s))
   \<and> (accessToken (client s) = '''' \<or>
       tokenExpiry (client s) < time_Now E (world s) + thirty_seconds
      \<longrightarrow> trace (snd (ensureValidToken E s)) = trace s @ [tokenExchangeRequest (client s)] \<and>
          (\<forall>tokenResp claimsJSON claims.
             fst (http_getAccessToken E (tokenExchangeRequest (client s)) (world s)) = Inr tokenResp \<and>
             length (strings_Split (AccessToken tokenResp) (CHR ''.'')) = 3 \<and>
             base64_RawURLEncoding_DecodeString E
               (strings_Split (AccessToken tokenResp) (CHR ''.'') ! 1) = Inr claimsJSON \<and>
             json_Unmarshal_JWTClaims E claimsJSON = Inr claims
             \<longrightarrow> fst (ensureValidToken E s) = Inr () \<and>
                 accessToken (client (snd (ensureValidToken E s))) = AccessToken tokenResp \<and>
                 tokenExpiry (client (snd (ensureValidToken E s))) = time_Unix (ExpiresAt claims) \<and>
                 (sint (ExpiresAt claims) \<le> 9223371974719179007 \<longrightarrow>
                    tokenExpiry (client (snd (ensureValidToken E s))) =
                      sint (ExpiresAt claims) * 1000000000)))"
proof (intro conjI impI allI)
  assume "accessToken (client s) \<noteq> '''' \<and>
          time_Now E (world s) + thirty_seconds \<le> tokenExpiry (client s)"
  then show "ensureValidToken E s = (Inr (), s)"
    by (simp add: ensureValidToken_cases)
next
  assume r: "accessToken (client s) = '''' \<or>
             tokenExpiry (client s) < time_Now E (world s) + thirty_seconds"
  then have ev: "ensureValidToken E s =
      (case fst (GetAccessToken E s) of
         Inl err \<Rightarrow> (Inl err, snd (GetAccessToken E s))
       | Inr (token, expiry) \<Rightarrow>
           (Inr (), (snd (GetAccessToken E s))
              \<lparr>client := (client s)\<lparr>accessToken := token, tokenExpiry := expiry\<rparr>\<rparr>))"
    by (auto simp add: ensureValidToken_cases)
  show "trace (snd (ensureValidToken E s)) = trace s @ [tokenExchangeRequest (client s)]"
    by (simp add: ev GetAccessToken_state split: sum.splits prod.splits)
  fix tokenResp claimsJSON claims
  assume ok: "fst (http_getAccessToken E (tokenExchangeRequest (client s)) (world s)) = Inr tokenResp \<and>
             length (strings_Split (AccessToken tokenResp) (CHR ''.'')) = 3 \<and>
             base64_RawURLEncoding_DecodeString E
               (strings_Split (AccessToken tokenResp) (CHR ''.'') ! 1) = Inr claimsJSON \<and>
             json_Unmarshal_JWTClaims E claimsJSON = Inr claims"
  then have g: "fst (GetAccessToken E s) = Inr (AccessToken tokenResp, time_Unix (ExpiresAt claims))"
    by (simp add: GetAccessToken_fst Let_def)
  show "fst (ensureValidToken E s) = Inr ()" by (simp add: ev g)
  show "accessToken (client (snd (ensureValidToken E s))) = AccessToken tokenResp"
    by (simp add: ev g)
  show x: "tokenExpiry (client (snd (ensureValidToken E s))) = time_Unix (ExpiresAt claims)"
    by (simp add: ev g)
  assume "sint (ExpiresAt claims) \<le> 9223371974719179007"
  then show "tokenExpiry (client (snd (ensureValidToken E s))) =
               sint (ExpiresAt claims) * 1000000000"
    by (simp only: x time_Unix_in_range)
qed

text \<open>
  C5 as stated fails on the boundary: a stored expiry exactly 30 seconds after the current
  time is within 30 seconds of it, yet \<open>After\<close> is strict and no token exchange is
  made.
\<close>

theorem C5_no_exchange_at_thirty_seconds:
  "accessToken (client s_thirty) \<noteq> '''' \<and>
   tokenExpiry (client s_thirty) = time_Now E0 (world s_thirty) + thirty_seconds \<and>
   fst (ensureValidToken E0 s_thirty) = Inr () \<and>
   trace (snd (ensureValidToken E0 s_thirty)) = trace s_thirty"
  by code_simp

theorem C5_token_refresh_witness:
  "accessToken (client s_fresh) \<noteq> '''' \<and>
   time_Now E0 (world s_fresh) + thirty_seconds \<le> tokenExpiry (client s_fresh) \<and>
   trace (snd (ensureValidToken E0 s_fresh)) = [] \<and>
   accessToken (client s0) = '''' \<and>
   trace (snd (ensureValidToken E0 s0)) = [tokenExchangeRequest c0] \<and>
   fst (ensureValidToken E0 s0) = Inr () \<and>
   accessToken (client (snd (ensureValidToken E0 s0))) = demo_token \<and>
   sint (2000 :: 64 word) \<le> 9223371974719179007 \<and>
   tokenExpiry (client (snd (ensureValidToken E0 s0))) = 2000000000000"
proof -
  let ?claims = "\<lparr>Issuer = '''', Subject = '''', ExpiresAt = 2000, Roles = []\<rparr>"
  have f1: "accessToken (client s_fresh) \<noteq> ''''" by code_simp
  have f2: "time_Now E0 (world s_fresh) + thirty_seconds \<le> tokenExpiry (client s_fresh)"
    by code_simp
  have f3: "trace s_fresh = []" by (simp add: s_fresh_def s0_def)
  have a1: "accessToken (client s0) = ''''" by (simp add: s0_def c0_def)
  have a2: "trace s0 = []" "client s0 = c0" by (simp_all add: s0_def)
  have x: "fst (http_getAccessToken E0 (tokenExchangeRequest (client s0)) (world s0)) =
             Inr \<lparr>AccessToken = demo_token\<rparr>"
    by (simp add: E0_def)
  have p3: "length (strings_Split (AccessToken \<lparr>AccessToken = demo_token\<rparr>) (CHR ''.'')) = 3"
    by code_simp
  have d: "base64_RawURLEncoding_DecodeString E0
             (strings_Split (AccessToken \<lparr>AccessToken = demo_token\<rparr>) (CHR ''.'') ! 1)
           = Inr demo_claimsJSON"
    by code_simp
  have j: "json_Unmarshal_JWTClaims E0 demo_claimsJSON = Inr ?claims"
    by (simp add: E0_def demo_json_def)
  have e: "sint (2000 :: 64 word) \<le> 9223371974719179007" by simp
  then have e': "sint (ExpiresAt ?claims) \<le> 9223371974719179007" by simp
  from C5_token_refresh [of s_fresh E0, THEN conjunct1, THEN mp, OF conjI [OF f1 f2]] f3
  have r1: "trace (snd (ensureValidToken E0 s_fresh)) = []" by simp
  note t = C5_token_refresh [of s0 E0, THEN conjunct2, THEN mp, OF disjI1 [OF a1]]
  from t [THEN conjunct1] a2
  have r2: "trace (snd (ensureValidToken E0 s0)) = [tokenExchangeRequest c0]" by simp
  note t3 = t [THEN conjunct2, THEN spec, THEN spec, THEN spec, THEN mp,
               OF conjI [OF x conjI [OF p3 conjI [OF d j]]]]
  from t3 [THEN conjunct1] have r3: "fst (ensureValidToken E0 s0) = Inr ()" .
  from t3 [THEN conjunct2, THEN conjunct1]
  have r4: "accessToken (client (snd (ensureValidToken E0 s0))) = demo_token" by simp
  from t3 [THEN conjunct2, THEN conjunct2, THEN conjunct2, THEN mp, OF e']
  have r5: "tokenExpiry (client (snd (ensureValidToken E0 s0))) = 2000000000000" by simp
  from f1 f2 r1 a1 r2 r3 r4 e r5 show ?thesis by (intro conjI)
qed

section \<open>Properties of the paginated listing of an organization\<close>

lemma ListWorkspacesByOrganization_next:
  "fst (ListWorkspacesByOrganization E orgId pageSize rowOffset s) = Inr (page, next) \<Longrightarrow>
   next = (if length page < unat pageSize then 0 else rowOffset + pageSize)"
  by (auto simp add: ListWorkspacesByOrganization_def Let_def split: prod.splits sum.splits if_splits)

lemma word64_sum_not_zero:
  fixes a b :: "64 word"
  assumes "unat a + unat b < 2 ^ 64" and "0 < unat b"
  shows "a + b \<noteq> 0"
proof
  assume z: "a + b = 0"
  from assms(1) have "unat (a + b) = unat a + unat b"
    by (simp add: unat_add_lem [THEN iffD1])
  with z assms(2) show False by simp
qed

lemma word64_sum_mod:
  fixes a b :: "64 word"
  shows "unat (a + b) = (unat a + unat b) mod 2 ^ 64"
  by (simp add: unat_word_ariths)

lemma loop_unroll:
  assumes "ListWorkspacesByOrganization E orgID ResourcesPageSize rowOffset s = (Inr (page, next), s')"
  shows "(next = 0 \<longrightarrow>
            (\<exists>ws. length ws = length page \<and>
               workspacesByOrganization_loop E orgID rowOffset allWorkspaces s =
                 Some (Inr (allWorkspaces @ ws), s'))) \<and>
         (next \<noteq> 0 \<longrightarrow>
            (\<exists>ws. length ws = length page \<and>
               workspacesByOrganization_loop E orgID rowOffset allWorkspaces s =
                 workspacesByOrganization_loop E orgID next (allWorkspaces @ ws) s'))"
proof -
  note unfold = workspacesByOrganization_loop.simps [of E orgID rowOffset allWorkspaces s]
  let ?ws = "map (\<lambda>workspaceReadResponse.
                        \<lparr>W_ID = WRR_WorkspaceId workspaceReadResponse,
                         W_OrganizationId = WRR_OrganizationId workspaceReadResponse,
                         W_Name = WRR_Name workspaceReadResponse\<rparr>) page"
  have len: "length ?ws = length page" by simp
  have z: "next = 0 \<Longrightarrow> workspacesByOrganization_loop E orgID rowOffset allWorkspaces s =
                 Some (Inr (allWorkspaces @ ?ws), s')"
    using assms by (simp add: unfold)
  have nz: "next \<noteq> 0 \<Longrightarrow> workspacesByOrganization_loop E orgID rowOffset allWorkspaces s =
                 workspacesByOrganization_loop E orgID next (allWorkspaces @ ?ws) s'"
    using assms by (simp add: unfold)
  from len z nz show ?thesis by blast
qed

lemma loop_error:
  assumes "ListWorkspacesByOrganization E orgID ResourcesPageSize rowOffset s = (Inl err, s')"
  shows "\<exists>r. workspacesByOrganization_loop E orgID rowOffset allWorkspaces s = Some r"
  using assms
  by (simp add: workspacesByOrganization_loop.simps [of E orgID rowOffset allWorkspaces s])

lemma loop_terminates:
  "fst (nthPage E orgID n rowOffset s) = Inr (page, next) \<Longrightarrow>
   length page < unat ResourcesPageSize \<Longrightarrow>
   \<exists>r. workspacesByOrganization_loop E orgID rowOffset allWorkspaces s = Some r"
proof (induction n arbitrary: rowOffset s allWorkspaces)
  case 0
  obtain s' where run:
    "ListWorkspacesByOrganization E orgID ResourcesPageSize rowOffset s = (Inr (page, next), s')"
    using "0.prems"(1)
    by (cases "ListWorkspacesByOrganization E orgID ResourcesPageSize rowOffset s") simp
  from ListWorkspacesByOrganization_next [of E orgID ResourcesPageSize rowOffset s page "next"]
       "0.prems"
  have "next = 0" by simp
  with loop_unroll [OF run, of allWorkspaces] show ?case by blast
next
  case (Suc n)
  obtain r s' where run:
    "ListWorkspacesByOrganization E orgID ResourcesPageSize rowOffset s = (r, s')"
    by (cases "ListWorkspacesByOrganization E orgID ResourcesPageSize rowOffset s")
  show ?case
  proof (cases r)
    case (Inl err)
    with run loop_error show ?thesis by blast
  next
    case (Inr pn)
    obtain p nx where pn: "pn = (p, nx)" by (cases pn)
    with run Inr have run': 
      "ListWorkspacesByOrganization E orgID ResourcesPageSize rowOffset s = (Inr (p, nx), s')"
      by simp
    show ?thesis
    proof (cases "nx = 0")
      case True
      with loop_unroll [OF run', of allWorkspaces] show ?thesis by blast
    next
      case False
      with loop_unroll [OF run', of allWorkspaces] obtain ws where
        step: "workspacesByOrganization_loop E orgID rowOffset allWorkspaces s =
                 workspacesByOrganization_loop E orgID nx (allWorkspaces @ ws) s'"
        by blast
      from Suc.prems(1) run' have "fst (nthPage E orgID n nx s') = Inr (page, next)"
        by simp
      from Suc.IH [OF this Suc.prems(2), of "allWorkspaces @ ws"] step
      show ?thesis by simp
    qed
  qed
qed

text \<open>
  C6, as the code has it. When the page returned has fewer items than the page size asked
  for, the next row offset reported by \<open>ListWorkspacesByOrganization\<close> is 0, and 0
  differs from \<open>rowOffset + pageSize\<close> whenever that sum fits in 64 bits. Otherwise the
  next row offset is \<open>rowOffset + pageSize\<close> in \<open>uint64\<close>, the sum modulo \<open>2^64\<close>.
  The loop of \<open>getAllWorkspacesWithParentOrganizationID\<close> returns after a request whose
  next row offset is 0 (in the state that request left) and makes its next request at the
  returned offset after any other.
\<close>

theorem C6_next_row_offset:
  "(fst (ListWorkspacesByOrganization E orgId pageSize rowOffset s) = Inr (page, next) \<longrightarrow>
      (length page < unat pageSize \<longrightarrow>
         next = 0 \<and> (unat rowOffset + unat pageSize < 2 ^ 64 \<longrightarrow> next \<noteq> rowOffset + pageSize)) \<and>
      (\<not> length page < unat pageSize \<longrightarrow>
         next = rowOffset + pageSize \<and>
         unat next = (unat rowOffset + unat pageSize) mod 2 ^ 64))
   \<and> (ListWorkspacesByOrganization E orgId ResourcesPageSize rowOffset s
          = (Inr (page, next), s') \<longrightarrow>
        (next = 0 \<longrightarrow>
           (\<exists>ws. length ws = length page \<and>
              workspacesByOrganization_loop E orgId rowOffset allWorkspaces s =
                Some (Inr (allWorkspaces @ ws), s'))) \<and>
        (next \<noteq> 0 \<longrightarrow>
           (\<exists>ws. length ws = length page \<and>
              workspacesByOrganization_loop E orgId rowOffset allWorkspaces s =
                workspacesByOrganization_loop E orgId next (allWorkspaces @ ws) s')))"
proof (rule conjI)
  show "ListWorkspacesByOrganization E orgId ResourcesPageSize rowOffset s
          = (Inr (page, next), s') \<longrightarrow>
        (next = 0 \<longrightarrow>
           (\<exists>ws. length ws = length page \<and>
              workspacesByOrganization_loop E orgId rowOffset allWorkspaces s =
                Some (Inr (allWorkspaces @ ws), s'))) \<and>
        (next \<noteq> 0 \<longrightarrow>
           (\<exists>ws. length ws = length page \<and>
              workspacesByOrganization_loop E orgId rowOffset allWorkspaces s =
                workspacesByOrganization_loop E orgId next (allWorkspaces @ ws) s'))"
    using loop_unroll [of E orgId rowOffset s page "next" s' allWorkspaces] by (rule impI)
next
  show "fst (ListWorkspacesByOrganization E orgId pageSize rowOffset s) = Inr (page, next) \<longrightarrow>
      (length page < unat pageSize \<longrightarrow>
         next = 0 \<and> (unat rowOffset + unat pageSize < 2 ^ 64 \<longrightarrow> next \<noteq> rowOffset + pageSize)) \<and>
      (\<not> length page < unat pageSize \<longrightarrow>
         next = rowOffset + pageSize \<and>
         unat next = (unat rowOffset + unat pageSize) mod 2 ^ 64)"
  proof
    assume r: "fst (ListWorkspacesByOrganization E orgId pageSize rowOffset s) = Inr (page, next)"
    note nx = ListWorkspacesByOrganization_next [OF r]
    have short: "length page < unat pageSize \<longrightarrow>
         next = 0 \<and> (unat rowOffset + unat pageSize < 2 ^ 64 \<longrightarrow> next \<noteq> rowOffset + pageSize)"
    proof (intro impI conjI)
      assume sh: "length page < unat pageSize"
      with nx show z: "next = 0" by simp
      assume "unat rowOffset + unat pageSize < 2 ^ 64"
      from word64_sum_not_zero [OF this] sh z show "next \<noteq> rowOffset + pageSize"
        by simp
    qed
    have full: "\<not> length page < unat pageSize \<longrightarrow>
         next = rowOffset + pageSize \<and>
         unat next = (unat rowOffset + unat pageSize) mod 2 ^ 64"
    proof (intro impI conjI)
      assume "\<not> length page < unat pageSize"
      with nx show n: "next = rowOffset + pageSize" by simp
      show "unat next = (unat rowOffset + unat pageSize) mod 2 ^ 64"
        by (simp only: n word64_sum_mod)
    qed
    from short full show
      "(length page < unat pageSize \<longrightarrow>
         next = 0 \<and> (unat rowOffset + unat pageSize < 2 ^ 64 \<longrightarrow> next \<noteq> rowOffset + pageSize)) \<and>
       (\<not> length page < unat pageSize \<longrightarrow>
         next = rowOffset + pageSize \<and>
         unat next = (unat rowOffset + unat pageSize) mod 2 ^ 64)"
      by (rule conjI)
  qed
qed

text \<open>
  C6 as stated fails where the sum wraps around: at row offset \<open>2^64 - 50\<close> and page
  size 50 a short page is answered with the next row offset 0, which is
  \<open>rowOffset + pageSize\<close>.
\<close>

theorem C6_short_page_at_wrapping_offset:
  "fst (ListWorkspacesByOrganization E0 ''O1'' 50 18446744073709551566 s0) = Inr ([], 0) \<and>
   length ([] :: WorkspaceReadResponse list) < unat (50 :: 64 word) \<and>
   (0 :: 64 word) = 18446744073709551566 + 50"
  by code_simp

theorem C6_next_row_offset_witness:
  "fst (ListWorkspacesByOrganization E0 ''O1'' ResourcesPageSize 0 s0) =
     Inr ([\<lparr>WRR_WorkspaceId = ''W1'', WRR_OrganizationId = ''O1'', WRR_Name = ''one''\<rparr>], 0) \<and>
   length [\<lparr>WRR_WorkspaceId = ''W1'', WRR_OrganizationId = ''O1'', WRR_Name = ''one''\<rparr>]
     < unat ResourcesPageSize \<and>
   unat (0 :: 64 word) + unat ResourcesPageSize < 2 ^ 64 \<and>
   (0 :: 64 word) \<noteq> 0 + ResourcesPageSize \<and>
   fst (ListWorkspacesByOrganization E2 ''O1'' ResourcesPageSize 0 s0) =
     Inr (replicate 50 demo_workspace, 50) \<and>
   \<not> length (replicate 50 demo_workspace) < unat ResourcesPageSize \<and>
   (50 :: 64 word) = 0 + ResourcesPageSize \<and>
   (\<exists>ws. length ws = 1 \<and>
      workspacesByOrganization_loop E0 ''O1'' 0 [] s0 =
        Some (Inr ([] @ ws), snd (ListWorkspacesByOrganization E0 ''O1'' ResourcesPageSize 0 s0))) \<and>
   (\<exists>ws. length ws = 50 \<and>
      workspacesByOrganization_loop E2 ''O1'' 0 [] s0 =
        workspacesByOrganization_loop E2 ''O1'' 50 ([] @ ws)
          (snd (ListWorkspacesByOrganization E2 ''O1'' ResourcesPageSize 0 s0)))"
proof -
  let ?w1 = "\<lparr>WRR_WorkspaceId = ''W1'', WRR_OrganizationId = ''O1'', WRR_Name = ''one''\<rparr>"
  let ?r0 = "ListWorkspacesByOrganization E0 ''O1'' ResourcesPageSize 0 s0"
  let ?r2 = "ListWorkspacesByOrganization E2 ''O1'' ResourcesPageSize 0 s0"
  have f0: "fst ?r0 = Inr ([?w1], 0)" by code_simp
  have f2: "fst ?r2 = Inr (replicate 50 demo_workspace, 50)" by code_simp
  have sh: "length [?w1] < unat ResourcesPageSize" by (simp add: ResourcesPageSize_def)
  have no: "unat (0 :: 64 word) + unat ResourcesPageSize < 2 ^ 64"
    by (simp add: ResourcesPageSize_def)
  have fu: "\<not> length (replicate 50 demo_workspace) < unat ResourcesPageSize"
    by (simp add: ResourcesPageSize_def)
  from f0 have p0: "?r0 = (Inr ([?w1], 0), snd ?r0)" by (cases ?r0) simp
  from f2 have p2: "?r2 = (Inr (replicate 50 demo_workspace, 50), snd ?r2)" by (cases ?r2) simp
  note t0 = C6_next_row_offset [of E0 "''O1''" ResourcesPageSize 0 s0 "[?w1]" 0 "snd ?r0" "[]"]
  note t2 = C6_next_row_offset
              [of E2 "''O1''" ResourcesPageSize 0 s0 "replicate 50 demo_workspace" 50 "snd ?r2" "[]"]
  from t0 [THEN conjunct1, THEN mp, OF f0, THEN conjunct1, THEN mp, OF sh,
           THEN conjunct2, THEN mp, OF no]
  have c1: "(0 :: 64 word) \<noteq> 0 + ResourcesPageSize" .
  from t2 [THEN conjunct1, THEN mp, OF f2, THEN conjunct2, THEN mp, OF fu, THEN conjunct1]
  have c2: "(50 :: 64 word) = 0 + ResourcesPageSize" .
  from t0 [THEN conjunct2, THEN mp, OF p0, THEN conjunct1, THEN mp, OF refl]
  have c3: "\<exists>ws. length ws = 1 \<and>
      workspacesByOrganization_loop E0 ''O1'' 0 [] s0 = Some (Inr ([] @ ws), snd ?r0)"
    by simp
  have nz: "(50 :: 64 word) \<noteq> 0" by simp
  from t2 [THEN conjunct2, THEN mp, OF p2, THEN conjunct2, THEN mp, OF nz]
  have c4: "\<exists>ws. length ws = 50 \<and>
      workspacesByOrganization_loop E2 ''O1'' 0 [] s0 =
        workspacesByOrganization_loop E2 ''O1'' 50 ([] @ ws) (snd ?r2)"
    by simp
  from f0 sh no c1 f2 fu c2 c3 c4 show ?thesis by (intro conjI)
qed

lemma nthPage_Suc:
  "ListWorkspacesByOrganization E orgID ResourcesPageSize rowOffset s = (Inr (p, nx), s1) \<Longrightarrow>
   nthPage E orgID (Suc i) rowOffset s = nthPage E orgID i nx s1"
  by simp

lemma nthPage_at:
  assumes "\<forall>i<n. \<exists>p nx. fst (nthPage E orgID i rowOffset s) = Inr (p, nx) \<and> nx \<noteq> 0"
      and "unat rowOffset + 50 * n < 2 ^ 64"
  shows "\<exists>s'. nthPage E orgID n rowOffset s =
               ListWorkspacesByOrganization E orgID ResourcesPageSize
                 (rowOffset + of_nat (50 * n)) s'"
  using assms
proof (induction n arbitrary: rowOffset s)
  case 0
  show ?case by (auto intro: exI [of _ s])
next
  case (Suc n)
  from Suc.prems(1) have "\<exists>p nx. fst (nthPage E orgID 0 rowOffset s) = Inr (p, nx) \<and> nx \<noteq> 0"
    by blast
  then obtain p nx where f: "fst (ListWorkspacesByOrganization E orgID ResourcesPageSize rowOffset s)
                               = Inr (p, nx)" and nz: "nx \<noteq> 0"
    by auto
  obtain s1 where run: "ListWorkspacesByOrganization E orgID ResourcesPageSize rowOffset s
                          = (Inr (p, nx), s1)"
    using f by (cases "ListWorkspacesByOrganization E orgID ResourcesPageSize rowOffset s") simp
  from ListWorkspacesByOrganization_next [OF f] nz
  have nx: "nx = rowOffset + 50"
    by (simp add: ResourcesPageSize_def split: if_splits)
  from Suc.prems(2) have "unat rowOffset + unat (50 :: 64 word) < 2 ^ 64" by simp
  then have "unat (rowOffset + 50) = unat rowOffset + unat (50 :: 64 word)"
    by (simp add: unat_add_lem [THEN iffD1])
  with Suc.prems(2) nx have bound: "unat nx + 50 * n < 2 ^ 64" by simp
  have earlier: "\<forall>i<n. \<exists>p' nx'. fst (nthPage E orgID i nx s1) = Inr (p', nx') \<and> nx' \<noteq> 0"
  proof (intro allI impI)
    fix i assume "i < n"
    then have "Suc i < Suc n" by simp
    with Suc.prems(1)
    have "\<exists>p' nx'. fst (nthPage E orgID (Suc i) rowOffset s) = Inr (p', nx') \<and> nx' \<noteq> 0"
      by blast
    then show "\<exists>p' nx'. fst (nthPage E orgID i nx s1) = Inr (p', nx') \<and> nx' \<noteq> 0"
      by (simp only: nthPage_Suc [OF run])
  qed
  from Suc.IH [OF earlier bound]
  obtain s' where "nthPage E orgID n nx s1 =
      ListWorkspacesByOrganization E orgID ResourcesPageSize (nx + of_nat (50 * n)) s'" ..
  moreover have "nx + of_nat (50 * n) = rowOffset + of_nat (50 * Suc n)"
    by (simp add: nx)
  ultimately have "nthPage E orgID (Suc n) rowOffset s =
      ListWorkspacesByOrganization E orgID ResourcesPageSize
        (rowOffset + of_nat (50 * Suc n)) s'"
    by (simp only: nthPage_Suc [OF run])
  then show ?case ..
qed

lemma loop_request_zero_iff_short:
  assumes "50 * n < (2 :: nat) ^ 63"
      and "\<forall>i<n. \<exists>p nx. fst (nthPage E orgID i 0 s) = Inr (p, nx) \<and> nx \<noteq> 0"
      and "fst (nthPage E orgID n 0 s) = Inr (page, next)"
  shows "(next = 0 \<longleftrightarrow> length page < unat ResourcesPageSize) \<and>
         (next \<noteq> 0 \<longrightarrow> unat next = 50 * (n + 1))"
proof -
  from assms(1) have b: "unat (0 :: 64 word) + 50 * n < 2 ^ 64" by simp
  from nthPage_at [OF assms(2) b]
  obtain s' where "nthPage E orgID n 0 s =
      ListWorkspacesByOrganization E orgID ResourcesPageSize (0 + of_nat (50 * n)) s'" ..
  with assms(3)
  have f: "fst (ListWorkspacesByOrganization E orgID ResourcesPageSize (of_nat (50 * n)) s')
             = Inr (page, next)"
    by simp
  from assms(1) have "50 * n < (2 :: nat) ^ 64" by simp
  then have u: "unat (of_nat (50 * n) :: 64 word) = 50 * n"
    by (subst unat_of_nat) simp
  from assms(1) u have "unat (of_nat (50 * n) :: 64 word) + unat (50 :: 64 word) < 2 ^ 64"
    by simp
  then have sum: "unat (of_nat (50 * n) + 50 :: 64 word) = 50 * n + 50"
    using u by (simp add: unat_add_lem [THEN iffD1])
  then have nz: "(of_nat (50 * n) + 50 :: 64 word) \<noteq> 0"
    by (metis add_is_0 unat_0 zero_neq_numeral)
  from ListWorkspacesByOrganization_next [OF f]
  have "next = (if length page < unat ResourcesPageSize then 0 else of_nat (50 * n) + 50)"
    by (simp add: ResourcesPageSize_def)
  with nz sum show ?thesis by (simp split: if_splits)
qed

text \<open>
  C8. The page size of the loop is positive. If request number \<open>n + 1\<close> of the inner
  loop of \<open>getAllWorkspacesWithParentOrganizationID\<close> gets a page with fewer items
  than the page size, the loop returns (with the workspaces or with an error), for every
  organization id. The loop starts at row offset 0. When it has made \<open>n\<close> requests and
  gone on after each of them, its request number \<open>n + 1\<close> is answered with the next row
  offset 0 exactly if the page is short, and otherwise with the row offset
  \<open>50 (n + 1)\<close>. Here \<open>50 n < 2^63\<close>: the \<open>n\<close> pages before were full, so the
  slice \<open>allWorkspaces\<close> holds at least \<open>50 n\<close> workspaces, and the length of a
  slice is an \<open>int\<close>. The loop returns after a request whose next row offset is 0 and
  goes on after any other.
\<close>

theorem C8_pagination_terminates:
  "0 < unat ResourcesPageSize
   \<and> (fst (nthPage E orgID n rowOffset s) = Inr (page, next) \<and>
       length page < unat ResourcesPageSize
       \<longrightarrow> (\<exists>r. workspacesByOrganization_loop E orgID rowOffset allWorkspaces s = Some r))
   \<and> (50 * n < (2 :: nat) ^ 63 \<and>
       (\<forall>i<n. \<exists>p nx. fst (nthPage E orgID i 0 s) = Inr (p, nx) \<and> nx \<noteq> 0) \<and>
       fst (nthPage E orgID n 0 s) = Inr (page', next')
       \<longrightarrow> (next' = 0 \<longleftrightarrow> length page' < unat ResourcesPageSize) \<and>
           (next' \<noteq> 0 \<longrightarrow> unat next' = 50 * (n + 1)))
   \<and> (ListWorkspacesByOrganization E orgID ResourcesPageSize rowOffset s
          = (Inr (page', next'), s') \<longrightarrow>
        (next' = 0 \<longrightarrow>
           (\<exists>ws. workspacesByOrganization_loop E orgID rowOffset allWorkspaces s =
                    Some (Inr (allWorkspaces @ ws), s'))) \<and>
        (next' \<noteq> 0 \<longrightarrow>
           (\<exists>ws. workspacesByOrganization_loop E orgID rowOffset allWorkspaces s =
                    workspacesByOrganization_loop E orgID next' (allWorkspaces @ ws) s')))"
proof -
  have size: "0 < unat ResourcesPageSize" by (simp add: ResourcesPageSize_def)
  have ends: "fst (nthPage E orgID n rowOffset s) = Inr (page, next) \<and>
       length page < unat ResourcesPageSize
       \<longrightarrow> (\<exists>r. workspacesByOrganization_loop E orgID rowOffset allWorkspaces s = Some r)"
    using loop_terminates by blast
  have zero: "50 * n < (2 :: nat) ^ 63 \<and>
       (\<forall>i<n. \<exists>p nx. fst (nthPage E orgID i 0 s) = Inr (p, nx) \<and> nx \<noteq> 0) \<and>
       fst (nthPage E orgID n 0 s) = Inr (page', next')
       \<longrightarrow> (next' = 0 \<longleftrightarrow> length page' < unat ResourcesPageSize) \<and>
           (next' \<noteq> 0 \<longrightarrow> unat next' = 50 * (n + 1))"
  proof (rule impI, elim conjE)
    assume "50 * n < (2 :: nat) ^ 63"
       and "\<forall>i<n. \<exists>p nx. fst (nthPage E orgID i 0 s) = Inr (p, nx) \<and> nx \<noteq> 0"
       and "fst (nthPage E orgID n 0 s) = Inr (page', next')"
    then show "(next' = 0 \<longleftrightarrow> length page' < unat ResourcesPageSize) \<and>
               (next' \<noteq> 0 \<longrightarrow> unat next' = 50 * (n + 1))"
      by (rule loop_request_zero_iff_short)
  qed
  have exits: "ListWorkspacesByOrganization E orgID ResourcesPageSize rowOffset s
          = (Inr (page', next'), s') \<longrightarrow>
        (next' = 0 \<longrightarrow>
           (\<exists>ws. workspacesByOrganization_loop E orgID rowOffset allWorkspaces s =
                    Some (Inr (allWorkspaces @ ws), s'))) \<and>
        (next' \<noteq> 0 \<longrightarrow>
           (\<exists>ws. workspacesByOrganization_loop E orgID rowOffset allWorkspaces s =
                    workspacesByOrganization_loop E orgID next' (allWorkspaces @ ws) s'))"
  proof
    assume run: "ListWorkspacesByOrganization E orgID ResourcesPageSize rowOffset s
                   = (Inr (page', next'), s')"
    from loop_unroll [OF run, of allWorkspaces]
    show "(next' = 0 \<longrightarrow>
           (\<exists>ws. workspacesByOrganization_loop E orgID rowOffset allWorkspaces s =
                    Some (Inr (allWorkspaces @ ws), s'))) \<and>
        (next' \<noteq> 0 \<longrightarrow>
           (\<exists>ws. workspacesByOrganization_loop E orgID rowOffset allWorkspaces s =
                    workspacesByOrganization_loop E orgID next' (allWorkspaces @ ws) s'))"
      by blast
  qed
  from size ends zero exits show ?thesis by (intro conjI)
qed

theorem C8_pagination_terminates_witness:
  "fst (nthPage E4 ''O1'' 0 0 s0) = Inr (replicate 50 demo_workspace, 50) \<and>
   fst (nthPage E4 ''O1'' 1 0 s0) = Inr ([demo_workspace], 0) \<and>
   length [demo_workspace] < unat ResourcesPageSize \<and>
   (\<exists>r. workspacesByOrganization_loop E4 ''O1'' 0 [] s0 = Some r) \<and>
   map_option (\<lambda>r. map_sum id length (fst r)) (workspacesByOrganization_loop E4 ''O1'' 0 [] s0)
     = Some (Inr 51) \<and>
   ((0 :: 64 word) = 0 \<longleftrightarrow> length [demo_workspace] < unat ResourcesPageSize) \<and>
   ((50 :: 64 word) = 0 \<longleftrightarrow> length (replicate 50 demo_workspace) < unat ResourcesPageSize) \<and>
   unat (50 :: 64 word) = 50 * (0 + 1) \<and>
   (\<exists>ws. workspacesByOrganization_loop E4 ''O1'' 0 [] s0 =
      workspacesByOrganization_loop E4 ''O1'' 50 ([] @ ws)
        (snd (ListWorkspacesByOrganization E4 ''O1'' ResourcesPageSize 0 s0)))"
proof -
  let ?q = "ListWorkspacesByOrganization E4 ''O1'' ResourcesPageSize 0 s0"
  have n0: "fst (nthPage E4 ''O1'' 0 0 s0) = Inr (replicate 50 demo_workspace, 50)"
    by code_simp
  have n: "fst (nthPage E4 ''O1'' 1 0 s0) = Inr ([demo_workspace], 0)" by code_simp
  have sh: "length [demo_workspace] < unat ResourcesPageSize"
    by (simp add: ResourcesPageSize_def)
  have ev: "map_option (\<lambda>r. map_sum id length (fst r))
              (workspacesByOrganization_loop E4 ''O1'' 0 [] s0) = Some (Inr 51)"
    by code_simp
  have fq: "fst ?q = Inr (replicate 50 demo_workspace, 50)" by code_simp
  from fq have pq: "?q = (Inr (replicate 50 demo_workspace, 50), snd ?q)" by (cases ?q) simp
  have nz: "(50 :: 64 word) \<noteq> 0" by simp
  have b1: "50 * (1 :: nat) < 2 ^ 63" by simp
  have b0: "50 * (0 :: nat) < 2 ^ 63" by simp
  have before1: "\<forall>i<1. \<exists>p nx. fst (nthPage E4 ''O1'' i 0 s0) = Inr (p, nx) \<and> nx \<noteq> 0"
    using n0 nz by auto
  have before0: "\<forall>i<0. \<exists>p nx. fst (nthPage E4 ''O1'' i 0 s0) = Inr (p, nx) \<and> nx \<noteq> 0"
    by simp
  note t = C8_pagination_terminates
             [of E4 "''O1''" 1 0 s0 "[demo_workspace]" 0 "[]"
                 "[demo_workspace]" 0 "snd ?q"]
  note t0 = C8_pagination_terminates
             [of E4 "''O1''" 0 0 s0 _ _ "[]"
                 "replicate 50 demo_workspace" 50 "snd ?q"]
  from t [THEN conjunct2, THEN conjunct1, THEN mp, OF conjI [OF n sh]]
  have c1: "\<exists>r. workspacesByOrganization_loop E4 ''O1'' 0 [] s0 = Some r" .
  from t [THEN conjunct2, THEN conjunct2, THEN conjunct1, THEN mp,
          OF conjI [OF b1 conjI [OF before1 n]], THEN conjunct1]
  have c2: "(0 :: 64 word) = 0 \<longleftrightarrow> length [demo_workspace] < unat ResourcesPageSize" .
  note z0 = t0 [THEN conjunct2, THEN conjunct2, THEN conjunct1, THEN mp,
                OF conjI [OF b0 conjI [OF before0 n0]]]
  from z0 [THEN conjunct1]
  have c3: "(50 :: 64 word) = 0 \<longleftrightarrow>
              length (replicate 50 demo_workspace) < unat ResourcesPageSize" .
  from z0 [THEN conjunct2, THEN mp, OF nz]
  have c4: "unat (50 :: 64 word) = 50 * (0 + 1)" .
  from t0 [THEN conjunct2, THEN conjunct2, THEN conjunct2, THEN mp, OF pq,
          THEN conjunct2, THEN mp, OF nz]
  have c5: "\<exists>ws. workspacesByOrganization_loop E4 ''O1'' 0 [] s0 =
      workspacesByOrganization_loop E4 ''O1'' 50 ([] @ ws) (snd ?q)" .
  from n0 n sh c1 ev c2 c3 c4 c5 show ?thesis by (intro conjI)
qed

section \<open>Properties of the workspace listing\<close>

lemma workspaceResource_Inr:
  "workspaceResource E workspace parentResourceID = Inr r \<Longrightarrow>
   Res_Id r = \<lparr>ResourceType = workspaceResourceType_Id E, Resource = W_ID workspace\<rparr> \<and>
   Res_ParentResourceId r = parentResourceID"
  by (auto simp add: workspaceResource_def NewResource_def WithAnnotation_def
        WithParentResourceID_def)

lemma workspace_List_loop_step:
  assumes "workspace_List_loop E m (Some ws # wss) acc = Inr rs"
  shows "\<exists>resource. Res_ParentResourceId resource = parentOf E m resource \<and>
                    workspace_List_loop E m wss (acc @ [resource]) = Inr rs"
proof -
  let ?workspace = "\<lparr>W_ID = WR_ID ws, W_OrganizationId = '''', W_Name = WR_Name ws\<rparr>"
  let ?org = "organizationResourceType_Id E"
  show ?thesis
  proof (cases "m (WR_ID ws)")
    case None
    let ?p = "Some \<lparr>ResourceType = ?org, Resource = ''unknown-parent''\<rparr>"
    from assms None
    obtain resource :: Resource_v2 where
      res: "workspaceResource E ?workspace ?p = Inr resource" and
      run: "workspace_List_loop E m wss (acc @ [resource]) = Inr rs"
      by (auto simp add: Let_def mapRead_def split: sum.splits)
    from workspaceResource_Inr [OF res] None
    have "Res_ParentResourceId resource = parentOf E m resource"
      by (simp add: parentOf_def)
    with run show ?thesis by blast
  next
    case (Some orgID)
    show ?thesis
    proof (cases "orgID = ''''")
      case True
      let ?p = "Some \<lparr>ResourceType = ?org, Resource = ''unknown-parent''\<rparr>"
      from assms Some True
      obtain resource :: Resource_v2 where
        res: "workspaceResource E ?workspace ?p = Inr resource" and
        run: "workspace_List_loop E m wss (acc @ [resource]) = Inr rs"
        by (auto simp add: Let_def mapRead_def split: sum.splits)
      from workspaceResource_Inr [OF res] Some True
      have "Res_ParentResourceId resource = parentOf E m resource"
        by (simp add: parentOf_def)
      with run show ?thesis by blast
    next
      case False
      let ?w = "\<lparr>W_ID = WR_ID ws, W_OrganizationId = orgID, W_Name = WR_Name ws\<rparr>"
      let ?p = "Some \<lparr>ResourceType = ?org, Resource = orgID\<rparr>"
      from assms Some False
      obtain resource :: Resource_v2 where
        res: "workspaceResource E ?w ?p = Inr resource" and
        run: "workspace_List_loop E m wss (acc @ [resource]) = Inr rs"
        by (auto simp add: Let_def mapRead_def split: sum.splits)
      from workspaceResource_Inr [OF res] Some False
      have "Res_ParentResourceId resource = parentOf E m resource"
        by (simp add: parentOf_def)
      with run show ?thesis by blast
    qed
  qed
qed

lemma workspace_List_loop_parents:
  "workspace_List_loop E m wss acc = Inr rs \<Longrightarrow>
   \<forall>r \<in> set acc. Res_ParentResourceId r = parentOf E m r \<Longrightarrow>
   \<forall>r \<in> set rs. Res_ParentResourceId r = parentOf E m r"
proof (induction wss arbitrary: acc)
  case Nil
  then show ?case by simp
next
  case (Cons x wss)
  show ?case
  proof (cases x)
    case None
    with Cons.prems(1) show ?thesis by simp
  next
    case (Some ws)
    with Cons.prems(1) workspace_List_loop_step [of E m ws wss acc rs]
    obtain resource where
      par: "Res_ParentResourceId resource = parentOf E m resource" and
      run: "workspace_List_loop E m wss (acc @ [resource]) = Inr rs"
      by blast
    from par Cons.prems(2)
    have "\<forall>r \<in> set (acc @ [resource]). Res_ParentResourceId r = parentOf E m r" by simp
    from Cons.IH [OF run this] show ?thesis .
  qed
qed

lemma workspace_List_Inr:
  "workspace_List E pToken s = Some (Inr (resources, next), s') \<Longrightarrow>
   \<exists>wss. workspace_List_loop E (workspacesWithOrgIDMap s') wss [] = Inr resources"
  by (auto simp add: workspace_List_def split: option.splits prod.splits sum.splits)

text \<open>
  C1. Every resource that \<open>workspaceBuilder.List\<close> returns has a parent resource id:
  it is not nil, it has the organization resource type, and its \<open>Resource\<close> is the
  organization id that the workspace-to-organization index holds for the resource's own
  workspace id when the index has a non-empty entry there, and \<open>unknown-parent\<close>
  otherwise. The index is the map of the state the call returns, which is the map the
  call annotated with.
\<close>

theorem C1_workspace_parent:
  "workspace_List E pToken s = Some (Inr (resources, next), s') \<and> r \<in> set resources \<longrightarrow>
     Res_ParentResourceId r \<noteq> None \<and>
     Res_ParentResourceId r =
       Some \<lparr>ResourceType = organizationResourceType_Id E,
             Resource = (case workspacesWithOrgIDMap s' (Resource (Res_Id r)) of
                           None \<Rightarrow> ''unknown-parent''
                         | Some orgID \<Rightarrow> if orgID \<noteq> '''' then orgID else ''unknown-parent'')\<rparr>"
proof
  assume h: "workspace_List E pToken s = Some (Inr (resources, next), s') \<and> r \<in> set resources"
  from workspace_List_Inr [OF h [THEN conjunct1]] obtain wss where
    "workspace_List_loop E (workspacesWithOrgIDMap s') wss [] = Inr resources" ..
  from workspace_List_loop_parents [OF this] h [THEN conjunct2]
  have "Res_ParentResourceId r = parentOf E (workspacesWithOrgIDMap s') r" by simp
  then show "Res_ParentResourceId r \<noteq> None \<and>
     Res_ParentResourceId r =
       Some \<lparr>ResourceType = organizationResourceType_Id E,
             Resource = (case workspacesWithOrgIDMap s' (Resource (Res_Id r)) of
                           None \<Rightarrow> ''unknown-parent''
                         | Some orgID \<Rightarrow> if orgID \<noteq> '''' then orgID else ''unknown-parent'')\<rparr>"
    by (simp add: parentOf_def)
qed

theorem C1_workspace_parent_witness:
  "map_option fst (workspace_List E0 '''' s0) = Some (Inr ([W1_resource, W2_resource], '''')) \<and>
   workspacesWithOrgIDMap (snd (the (workspace_List E0 '''' s0))) ''W1'' = Some ''O1'' \<and>
   workspacesWithOrgIDMap (snd (the (workspace_List E0 '''' s0))) ''W2'' = None \<and>
   Res_ParentResourceId W1_resource =
     Some \<lparr>ResourceType = organizationResourceType_Id E0, Resource = ''O1''\<rparr> \<and>
   Res_ParentResourceId W2_resource =
     Some \<lparr>ResourceType = organizationResourceType_Id E0, Resource = ''unknown-parent''\<rparr>"
proof -
  let ?run = "workspace_List E0 '''' s0"
  let ?s' = "snd (the ?run)"
  have ev: "map_option fst ?run = Some (Inr ([W1_resource, W2_resource], ''''))"
    by code_simp
  have m1: "workspacesWithOrgIDMap ?s' ''W1'' = Some ''O1''" by code_simp
  have m2: "workspacesWithOrgIDMap ?s' ''W2'' = None" by code_simp
  from ev have run: "?run = Some (Inr ([W1_resource, W2_resource], ''''), ?s')"
    by (cases ?run) auto
  have i1: "Resource (Res_Id W1_resource) = ''W1''" by (simp add: W1_resource_def W1_id_def)
  have i2: "Resource (Res_Id W2_resource) = ''W2''" by (simp add: W2_resource_def)
  have in1: "W1_resource \<in> set [W1_resource, W2_resource]" by simp
  have in2: "W2_resource \<in> set [W1_resource, W2_resource]" by simp
  from C1_workspace_parent
         [of E0 "''''" s0 "[W1_resource, W2_resource]" "''''" ?s' W1_resource,
          THEN mp, OF conjI [OF run in1], THEN conjunct2]
  have p1: "Res_ParentResourceId W1_resource =
     Some \<lparr>ResourceType = organizationResourceType_Id E0, Resource = ''O1''\<rparr>"
    by (simp add: i1 m1)
  from C1_workspace_parent
         [of E0 "''''" s0 "[W1_resource, W2_resource]" "''''" ?s' W2_resource,
          THEN mp, OF conjI [OF run in2], THEN conjunct2]
  have p2: "Res_ParentResourceId W2_resource =
     Some \<lparr>ResourceType = organizationResourceType_Id E0, Resource = ''unknown-parent''\<rparr>"
    by (simp add: i2 m2)
  from ev m1 m2 p1 p2 show ?thesis by (intro conjI)
qed

end
